theory Spec2Isabelle
  imports Main "HOL-Library.AList"
begin

section \<open>Errors\<close>

text \<open>
  The notebooks handle no exception: whatever a library call raises ends the cell.  Every
  raise is a value \<open>Inl e\<close> of the result type \<open>error + 'a\<close>.
\<close>

datatype error =
    OverflowError
  | ValueError
  | KeyError
  | AttributeError
  | RuntimeError
  | StoreError
  | Unsupported

text \<open>
  \<open>StoreError\<close> stands for whatever the object store or the array reader raises when a
  URL cannot be opened.  \<open>Unsupported\<close> is not a Python exception: it marks the inputs
  on which the description of a library call given below stops (re-indexing of
  disagreeing index coordinates, for instance); no statement is made about them.
\<close>

section \<open>Dates: \<open>datetime.datetime\<close> and \<open>datetime.timedelta(hours=i)\<close>\<close>

text \<open>
  The notebooks build every time with \<open>start_date + datetime.timedelta(hours=i)\<close> and
  format it with \<open>strftime\<close>.  Both belong to Python's standard library; they are
  written out here after the library's reference implementation, on the proleptic
  Gregorian calendar with day ordinals (1 January of year 1 is day 1).
\<close>

record datetime =
  year :: nat
  month :: nat
  day :: nat
  hour :: nat
  minute :: nat
  second :: nat
  microsecond :: nat

definition MAXORDINAL :: nat where
  "MAXORDINAL = 3652059"

definition is_leap :: "nat \<Rightarrow> bool" where
  "is_leap y = (y mod 4 = 0 \<and> (y mod 100 \<noteq> 0 \<or> y mod 400 = 0))"

definition DAYS_IN_MONTH :: "nat list" where
  "DAYS_IN_MONTH = [0, 31, 28, 31, 30, 31, 30, 31, 31, 30, 31, 30, 31]"

definition DAYS_BEFORE_MONTH :: "nat list" where
  "DAYS_BEFORE_MONTH = [0, 0, 31, 59, 90, 120, 151, 181, 212, 243, 273, 304, 334]"

definition days_before_year :: "nat \<Rightarrow> nat" where
  "days_before_year y = (y - 1) * 365 + (y - 1) div 4 - (y - 1) div 100 + (y - 1) div 400"

definition days_in_month :: "nat \<Rightarrow> nat \<Rightarrow> nat" where
  "days_in_month y m = (if m = 2 \<and> is_leap y then 29 else DAYS_IN_MONTH ! m)"

definition days_before_month :: "nat \<Rightarrow> nat \<Rightarrow> nat" where
  "days_before_month y m = DAYS_BEFORE_MONTH ! m + (if m > 2 \<and> is_leap y then 1 else 0)"

definition ymd2ord :: "nat \<Rightarrow> nat \<Rightarrow> nat \<Rightarrow> nat" where
  "ymd2ord y m d = days_before_year y + days_before_month y m + d"

text \<open>
  \<open>ord2ymd\<close> is the library's inverse of \<open>ymd2ord\<close>: it peels off 400-year, 100-year
  and 4-year cycles, then single years, and finds the month from an estimate that is
  at most one too large.
\<close>

definition ord2ymd :: "nat \<Rightarrow> nat \<times> nat \<times> nat" where
  "ord2ymd ordinal =
     (let n = ordinal - 1;
          n400 = n div 146097; n = n mod 146097;
          n100 = n div 36524; n = n mod 36524;
          n4 = n div 1461; n = n mod 1461;
          n1 = n div 365; n = n mod 365;
          y = n400 * 400 + 1 + n100 * 100 + n4 * 4 + n1
      in if n1 = 4 \<or> n100 = 4 then (y - 1, 12, 31)
         else
           let leapyear = (n1 = 3 \<and> (n4 \<noteq> 24 \<or> n100 = 3));
               m = (n + 50) div 32;
               preceding = DAYS_BEFORE_MONTH ! m + (if m > 2 \<and> leapyear then 1 else 0)
           in if preceding > n
              then let m' = m - 1;
                       preceding' = preceding
                         - (DAYS_IN_MONTH ! m' + (if m' = 2 \<and> leapyear then 1 else 0))
                   in (y, m', n - preceding' + 1)
              else (y, m, n - preceding + 1))"

definition valid_datetime :: "datetime \<Rightarrow> bool" where
  "valid_datetime t =
     (1 \<le> year t \<and> year t \<le> 9999 \<and> 1 \<le> month t \<and> month t \<le> 12 \<and>
      1 \<le> day t \<and> day t \<le> days_in_month (year t) (month t) \<and>
      hour t < 24 \<and> minute t < 60 \<and> second t < 60 \<and> microsecond t < 1000000)"

definition toordinal :: "datetime \<Rightarrow> nat" where
  "toordinal t = ymd2ord (year t) (month t) (day t)"

text \<open>
  \<open>start_date + datetime.timedelta(hours=i)\<close> for \<open>i\<close> drawn from \<open>range(num_hours)\<close>,
  so \<open>i \<ge> 0\<close>.  The library adds the hours to the time of day in seconds, carries whole
  days into the ordinal and raises \<open>OverflowError\<close> when the day leaves
  \<open>1..MAXORDINAL\<close> (31 December 9999).
\<close>

definition add_hours :: "datetime \<Rightarrow> nat \<Rightarrow> error + datetime" where
  "add_hours t i =
     (let secs = hour t * 3600 + minute t * 60 + second t + i * 3600;
          days = toordinal t + secs div 86400;
          rem = secs mod 86400
      in if 0 < days \<and> days \<le> MAXORDINAL
         then (case ord2ymd days of (y, m, d) \<Rightarrow>
                 Inr \<lparr>year = y, month = m, day = d,
                      hour = rem div 3600, minute = rem mod 3600 div 60, second = rem mod 60,
                      microsecond = microsecond t\<rparr>)
         else Inl OverflowError)"

section \<open>\<open>strftime\<close>\<close>

definition digit_char :: "nat \<Rightarrow> char" where
  "digit_char n = ''0123456789'' ! (n mod 10)"

text \<open>\<open>zero_padded w n\<close> is C's \<open>%0wd\<close> for a number of at most \<open>w\<close> digits.\<close>

definition zero_padded :: "nat \<Rightarrow> nat \<Rightarrow> string" where
  "zero_padded w n = map (\<lambda>k. digit_char (n div 10 ^ k)) (rev [0..<w])"

definition and_then :: "error + string \<Rightarrow> (string \<Rightarrow> string) \<Rightarrow> error + string" where
  "and_then r f = (case r of Inl e \<Rightarrow> Inl e | Inr s \<Rightarrow> Inr (f s))"

text \<open>
  \<open>datetime.strftime\<close> hands the format to the platform's C function as a C string.
  That function copies ordinary characters and expands a directive \<open>%c\<close>.  The
  notebooks' own format uses \<open>%Y\<close>, \<open>%m\<close>, \<open>%d\<close> and \<open>%H\<close>; \<open>%%\<close> is a literal percent
  sign.  \<open>%m\<close>, \<open>%d\<close> and \<open>%H\<close> are two digits each.  \<open>%Y\<close> is the year in decimal: four
  digits for the years 1000 to 9999 on every platform, while for a year below 1000 the
  platforms differ (glibc prints it without padding, others pad with zeros to four
  digits).  What a year below 1000, any other directive, or a lone trailing \<open>%\<close>
  produces is left to the platform: from the first such place on, the rest of the output
  is whatever the parameter \<open>libc\<close> gives.
\<close>

fun c_strftime :: "(string \<Rightarrow> datetime \<Rightarrow> error + string) \<Rightarrow> string \<Rightarrow> datetime \<Rightarrow> error + string" where
  "c_strftime libc [] t = Inr []"
| "c_strftime libc [c] t = (if c = CHR ''%'' then libc [c] t else Inr [c])"
| "c_strftime libc (c # d # rest) t =
     (if c \<noteq> CHR ''%'' then and_then (c_strftime libc (d # rest) t) ((#) c)
      else if d = CHR ''Y'' \<and> 1000 \<le> year t \<and> year t \<le> 9999
           then and_then (c_strftime libc rest t) ((@) (zero_padded 4 (year t)))
      else if d = CHR ''m'' then and_then (c_strftime libc rest t) ((@) (zero_padded 2 (month t)))
      else if d = CHR ''d'' then and_then (c_strftime libc rest t) ((@) (zero_padded 2 (day t)))
      else if d = CHR ''H'' then and_then (c_strftime libc rest t) ((@) (zero_padded 2 (hour t)))
      else if d = CHR ''%'' then and_then (c_strftime libc rest t) ((#) CHR ''%'')
      else libc (c # d # rest) t)"

text \<open>
  A C string ends at its first NUL character, so the format is read up to there and the
  output stops with it.
\<close>

definition strftime :: "(string \<Rightarrow> datetime \<Rightarrow> error + string) \<Rightarrow> string \<Rightarrow> datetime \<Rightarrow> error + string" where
  "strftime libc fmt t = c_strftime libc (takeWhile (\<lambda>c. c \<noteq> CHR 0x00) fmt) t"

section \<open>URL templating\<close>

text \<open>
  Both notebooks build the format with an f-string, so \<open>level\<close> and \<open>param_short_name\<close>
  are spliced into the format before \<open>strftime\<close> reads it:
  \<^verbatim>\<open>f"s3://hrrrzarr/sfc/%Y%m%d/%Y%m%d_%Hz_anl.zarr/{level}/{param_short_name}"\<close>.
\<close>

definition group_url_format :: "string \<Rightarrow> string \<Rightarrow> string" where
  "group_url_format level param_short_name =
     ''s3://hrrrzarr/sfc/%Y%m%d/%Y%m%d_%Hz_anl.zarr/'' @ level @ ''/'' @ param_short_name"

definition group_url_at ::
  "(string \<Rightarrow> datetime \<Rightarrow> error + string) \<Rightarrow> datetime \<Rightarrow> string \<Rightarrow> string \<Rightarrow> error + string" where
  "group_url_at libc t level param_short_name =
     strftime libc (group_url_format level param_short_name) t"

definition subgroup_url_of :: "string \<Rightarrow> string \<Rightarrow> string" where
  "subgroup_url_of group_url level = group_url @ ''/'' @ level"

text \<open>
  The first three lines of the loop body are the same in both notebooks, up to the name
  given to the group URL:
  \<^verbatim>\<open>
  time = start_date + datetime.timedelta(hours=i)
  group_url = time.strftime(f"s3://hrrrzarr/sfc/%Y%m%d/%Y%m%d_%Hz_anl.zarr/{level}/{param_short_name}")
  subgroup_url = group_url + f"/{level}"
  \<close>
\<close>

definition hour_urls ::
  "(string \<Rightarrow> datetime \<Rightarrow> error + string) \<Rightarrow> datetime \<Rightarrow> nat \<Rightarrow> string \<Rightarrow> string
   \<Rightarrow> error + datetime \<times> string \<times> string" where
  "hour_urls libc start_date i level param_short_name =
     (case add_hours start_date i of
        Inl e \<Rightarrow> Inl e
      | Inr time \<Rightarrow>
          (case group_url_at libc time level param_short_name of
             Inl e \<Rightarrow> Inl e
           | Inr group_url \<Rightarrow> Inr (time, group_url, subgroup_url_of group_url level)))"

text \<open>
  The path convention in the specification's words, for an analysis file:
  \<open>bucket/sfc/{date:%Y%m%d}/{date:%Y%m%d}_{hour:%H}z_anl.zarr/{level}/{variable}\<close>,
  with the year in four digits (the years 1000 to 9999).
\<close>

definition path_convention :: "datetime \<Rightarrow> string \<Rightarrow> string \<Rightarrow> string" where
  "path_convention t level variable =
     ''s3://hrrrzarr/sfc/''
     @ zero_padded 4 (year t) @ zero_padded 2 (month t) @ zero_padded 2 (day t) @ ''/''
     @ zero_padded 4 (year t) @ zero_padded 2 (month t) @ zero_padded 2 (day t) @ ''_''
     @ zero_padded 2 (hour t) @ ''z_anl.zarr/'' @ level @ ''/'' @ variable"


section \<open>Datasets\<close>

text \<open>
  The notebooks hold their data in the array library's labelled datasets.  A dataset is
  a dictionary of named variables, a set of names that are coordinates, and a dictionary
  of attributes.  Every call site names one dimension only, \<open>"time"\<close>, so a variable is
  described along that dimension: \<open>Fixed g\<close> has no time dimension and \<open>Series gs\<close> has
  one, with one slice \<open>g\<close> per time step.  A slice is an array over the other (spatial)
  dimensions: their names, their sizes and the elements in row-major order.  Array
  elements are opaque numbers of type \<open>'e\<close>, time stamps, Python's \<open>None\<close>, or a
  coordinate reference system given by its CF attributes.
  Attributes of single variables (units and the like) are left out.
\<close>

datatype 'e scalar =
    Num 'e
  | Stamp datetime
  | PyNone
  | Crs "(string \<times> string) list"

record 'e grid =
  dims :: "string list"
  shape :: "nat list"
  elems :: "'e scalar list"

datatype 'e var = Fixed "'e grid" | Series "'e grid list"

record 'e dataset =
  variables :: "(string \<times> 'e var) list"
  coord_names :: "string set"
  attrs :: "(string \<times> string) list"

definition scalar_grid :: "'e scalar \<Rightarrow> 'e grid" where
  "scalar_grid v = \<lparr>dims = [], shape = [], elems = [v]\<rparr>"

definition var_names :: "'e dataset \<Rightarrow> string list" where
  "var_names ds = map fst (variables ds)"

definition data_var_names :: "'e dataset \<Rightarrow> string list" where
  "data_var_names ds = filter (\<lambda>n. n \<notin> coord_names ds) (var_names ds)"

definition var_dims :: "'e var \<Rightarrow> string set" where
  "var_dims v = (case v of
       Fixed g \<Rightarrow> set (dims g)
     | Series gs \<Rightarrow> insert ''time'' (\<Union>g\<in>set gs. set (dims g)))"

definition ds_dims :: "'e dataset \<Rightarrow> string set" where
  "ds_dims ds = (\<Union>p\<in>set (variables ds). var_dims (snd p))"

fun series_lengths :: "(string \<times> 'e var) list \<Rightarrow> nat list" where
  "series_lengths [] = []"
| "series_lengths ((n, Fixed g) # vs) = series_lengths vs"
| "series_lengths ((n, Series gs) # vs) = length gs # series_lengths vs"

text \<open>The size of the time dimension, when some variable has it.\<close>

definition time_len :: "'e dataset \<Rightarrow> nat option" where
  "time_len ds = (case series_lengths (variables ds) of [] \<Rightarrow> None | k # _ \<Rightarrow> Some k)"

text \<open>
  Python's truth value of a dataset, as \<open>if not combined_ds\<close> reads it: a dataset is
  true when it has at least one data variable (and \<open>None\<close> is false).
\<close>

definition ds_bool :: "'e dataset \<Rightarrow> bool" where
  "ds_bool ds = (data_var_names ds \<noteq> [])"

text \<open>The values of the time coordinate, in order.\<close>

definition time_values :: "'e dataset \<Rightarrow> 'e scalar list" where
  "time_values ds = (case map_of (variables ds) ''time'' of
       None \<Rightarrow> []
     | Some (Fixed g) \<Rightarrow> elems g
     | Some (Series gs) \<Rightarrow> concat (map elems gs))"

definition bind_err :: "error + 'a \<Rightarrow> ('a \<Rightarrow> error + 'b) \<Rightarrow> error + 'b" where
  "bind_err r f = (case r of Inl e \<Rightarrow> Inl e | Inr x \<Rightarrow> f x)"

subsection \<open>\<open>Dataset.rename\<close>\<close>

text \<open>
  \<open>ds.rename(old="new", ...)\<close> renames variables, coordinates and dimensions alike.  It
  raises \<open>ValueError\<close> when an old name is neither a variable nor a dimension of the
  dataset, and when two variables end up with one name.
\<close>

definition rename_name :: "(string \<times> string) list \<Rightarrow> string \<Rightarrow> string" where
  "rename_name name_dict n = (case map_of name_dict n of Some n' \<Rightarrow> n' | None \<Rightarrow> n)"

definition rename_grid :: "(string \<times> string) list \<Rightarrow> 'e grid \<Rightarrow> 'e grid" where
  "rename_grid name_dict g = g\<lparr>dims := map (rename_name name_dict) (dims g)\<rparr>"

fun rename_var :: "(string \<times> string) list \<Rightarrow> 'e var \<Rightarrow> 'e var" where
  "rename_var name_dict (Fixed g) = Fixed (rename_grid name_dict g)"
| "rename_var name_dict (Series gs) = Series (map (rename_grid name_dict) gs)"

definition xr_rename :: "(string \<times> string) list \<Rightarrow> 'e dataset \<Rightarrow> error + 'e dataset" where
  "xr_rename name_dict ds =
     (if ''time'' \<in> set (map fst name_dict) \<union> set (map snd name_dict) then Inl Unsupported
      else if \<exists>k\<in>set (map fst name_dict). k \<notin> set (var_names ds) \<and> k \<notin> ds_dims ds
      then Inl ValueError
      else
        let vs = map (\<lambda>p. (rename_name name_dict (fst p), rename_var name_dict (snd p)))
                   (variables ds)
        in if \<not> distinct (map fst vs) then Inl ValueError
           else Inr \<lparr>variables = vs,
                     coord_names = rename_name name_dict ` coord_names ds,
                     attrs = attrs ds\<rparr>)"

subsection \<open>Coordinates\<close>

definition assign_coord :: "string \<Rightarrow> 'e var \<Rightarrow> 'e dataset \<Rightarrow> 'e dataset" where
  "assign_coord k v ds =
     ds\<lparr>variables := AList.update k v (variables ds), coord_names := insert k (coord_names ds)\<rparr>"

text \<open>\<open>ds.set_coords(name)\<close>: \<open>ValueError\<close> when the dataset has no such variable.\<close>

definition set_coords :: "string \<Rightarrow> 'e dataset \<Rightarrow> error + 'e dataset" where
  "set_coords k ds =
     (if k \<notin> set (var_names ds) then Inl ValueError
      else Inr (ds\<lparr>coord_names := insert k (coord_names ds)\<rparr>))"

text \<open>
  \<open>ds[name] = value\<close> for a scalar value (a \<open>datetime\<close> or \<open>None\<close>): the variable is
  replaced in place or appended, and stays a coordinate if it was one.  Assigning a
  scalar under the name of an existing dimension is outside this description.
\<close>

definition setitem_scalar :: "string \<Rightarrow> 'e scalar \<Rightarrow> 'e dataset \<Rightarrow> error + 'e dataset" where
  "setitem_scalar k s ds =
     (if k \<in> ds_dims ds then Inl Unsupported
      else Inr (ds\<lparr>variables := AList.update k (Fixed (scalar_grid s)) (variables ds)\<rparr>))"

subsection \<open>The projection extension: \<open>assign_crs\<close> and \<open>assign_latitude_longitude\<close>\<close>

text \<open>
  \<open>ds.metpy.assign_crs(...)\<close> stores the CF attributes of the coordinate reference system
  in a scalar coordinate \<open>metpy_crs\<close>.
\<close>

definition assign_crs :: "(string \<times> string) list \<Rightarrow> 'e dataset \<Rightarrow> 'e dataset" where
  "assign_crs cf ds = assign_coord ''metpy_crs'' (Fixed (scalar_grid (Crs cf))) ds"

text \<open>
  \<open>ds.metpy.assign_latitude_longitude()\<close> looks for a data variable on the horizontal
  grid: one with the dimensions \<open>x\<close> and \<open>y\<close>, for which the dataset has the
  one-dimensional coordinates \<open>x\<close> and \<open>y\<close>.  Without one it logs a warning and returns
  the dataset as it is.  With one it raises \<open>RuntimeError\<close> when latitude or longitude
  are present already, and otherwise assigns the two-dimensional coordinates
  \<open>latitude\<close> and \<open>longitude\<close> over \<open>(y, x)\<close>, obtained by transforming every grid point
  with the reference system.  The transformation of a point is library floating-point
  code, the parameter \<open>transform\<close>, which returns (longitude, latitude).
\<close>

definition has_grid_var :: "'e dataset \<Rightarrow> bool" where
  "has_grid_var ds =
     (\<exists>p\<in>set (variables ds). fst p \<notin> coord_names ds \<and> {''x'', ''y''} \<subseteq> var_dims (snd p))"

definition xy_coords :: "'e dataset \<Rightarrow> ('e grid \<times> 'e grid) option" where
  "xy_coords ds =
     (case (map_of (variables ds) ''x'', map_of (variables ds) ''y'') of
        (Some (Fixed gx), Some (Fixed gy)) \<Rightarrow>
          if ''x'' \<in> coord_names ds \<and> ''y'' \<in> coord_names ds
             \<and> dims gx = [''x''] \<and> dims gy = [''y'']
          then Some (gx, gy) else None
      | _ \<Rightarrow> None)"

definition crs_of :: "'e dataset \<Rightarrow> (string \<times> string) list option" where
  "crs_of ds =
     (case map_of (variables ds) ''metpy_crs'' of
        Some (Fixed c) \<Rightarrow> (case elems c of [Crs cf] \<Rightarrow> Some cf | _ \<Rightarrow> None)
      | _ \<Rightarrow> None)"

definition latitude_grid ::
  "((string \<times> string) list \<Rightarrow> 'e scalar \<Rightarrow> 'e scalar \<Rightarrow> 'e scalar \<times> 'e scalar)
   \<Rightarrow> (string \<times> string) list \<Rightarrow> 'e grid \<Rightarrow> 'e grid \<Rightarrow> 'e grid" where
  "latitude_grid transform cf gx gy =
     \<lparr>dims = [''y'', ''x''], shape = [length (elems gy), length (elems gx)],
      elems = concat (map (\<lambda>y. map (\<lambda>x. snd (transform cf x y)) (elems gx)) (elems gy))\<rparr>"

definition longitude_grid ::
  "((string \<times> string) list \<Rightarrow> 'e scalar \<Rightarrow> 'e scalar \<Rightarrow> 'e scalar \<times> 'e scalar)
   \<Rightarrow> (string \<times> string) list \<Rightarrow> 'e grid \<Rightarrow> 'e grid \<Rightarrow> 'e grid" where
  "longitude_grid transform cf gx gy =
     \<lparr>dims = [''y'', ''x''], shape = [length (elems gy), length (elems gx)],
      elems = concat (map (\<lambda>y. map (\<lambda>x. fst (transform cf x y)) (elems gx)) (elems gy))\<rparr>"

definition assign_latitude_longitude ::
  "((string \<times> string) list \<Rightarrow> 'e scalar \<Rightarrow> 'e scalar \<Rightarrow> 'e scalar \<times> 'e scalar)
   \<Rightarrow> 'e dataset \<Rightarrow> error + 'e dataset" where
  "assign_latitude_longitude transform ds =
     (case (if has_grid_var ds then xy_coords ds else None) of
        None \<Rightarrow> Inr ds
      | Some (gx, gy) \<Rightarrow>
          if ''latitude'' \<in> coord_names ds \<or> ''longitude'' \<in> coord_names ds
          then Inl RuntimeError
          else (case crs_of ds of
                  None \<Rightarrow> Inl AttributeError
                | Some cf \<Rightarrow>
                    Inr (assign_coord ''longitude'' (Fixed (longitude_grid transform cf gx gy))
                          (assign_coord ''latitude'' (Fixed (latitude_grid transform cf gx gy))
                             ds))))"


subsection \<open>\<open>xarray.concat\<close> along \<open>"time"\<close>\<close>

datatype combine_attrs = DropConflicts | Override

text \<open>
  \<open>combine_attrs="override"\<close> keeps the attributes of the first dataset.
  \<open>combine_attrs="drop_conflicts"\<close> goes through the datasets once: a key not seen so far
  is taken, a key whose value differs from the one held is dropped, and a dropped key
  stays dropped for the rest of that call.
\<close>

definition drop_conflicts_step ::
  "(string \<times> string) list \<times> string set \<Rightarrow> (string \<times> string) list
   \<Rightarrow> (string \<times> string) list \<times> string set" where
  "drop_conflicts_step st a =
     (let result = fst st; dropped = snd st;
          result1 = result @ filter (\<lambda>p. fst p \<notin> set (map fst result) \<and> fst p \<notin> dropped) a;
          result2 = filter (\<lambda>p. fst p \<notin> set (map fst a) \<or> map_of a (fst p) = Some (snd p)) result1;
          dropped' = dropped \<union> {k \<in> set (map fst a). k \<notin> set (map fst result2)}
      in (result2, dropped'))"

definition merge_attrs :: "combine_attrs \<Rightarrow> (string \<times> string) list list \<Rightarrow> (string \<times> string) list" where
  "merge_attrs mode as =
     (case mode of
        Override \<Rightarrow> (case as of [] \<Rightarrow> [] | a # _ \<Rightarrow> a)
      | DropConflicts \<Rightarrow> fst (foldl drop_conflicts_step ([], {}) as))"

text \<open>
  \<open>xarray.concat(datasets, dim="time", combine_attrs=mode)\<close> with the library's defaults
  \<open>data_vars="all"\<close> and \<open>coords="different"\<close>.  An empty list raises \<open>ValueError\<close>.
  The result has the variables of the first dataset.  Concatenated along time are: the
  variable \<open>time\<close> itself, every data variable, every variable that has the time
  dimension in some dataset, and every coordinate that is not the same in all datasets.
  A dataset without the time dimension counts as one time step, and a variable without
  it is repeated over the steps of its dataset.  The other coordinates are taken from
  the first dataset.

  The description covers datasets that have the same variables and coordinates, with
  the same spatial layout of each variable and the same index coordinates; elsewhere the
  library re-indexes, merges or raises, and the result here is \<open>Unsupported\<close>.
\<close>

definition lookup_var :: "'e dataset \<Rightarrow> string \<Rightarrow> 'e var option" where
  "lookup_var ds k = map_of (variables ds) k"

definition steps :: "'e dataset \<Rightarrow> nat" where
  "steps ds = (case time_len ds of Some k \<Rightarrow> k | None \<Rightarrow> 1)"

definition slices :: "nat \<Rightarrow> 'e var \<Rightarrow> 'e grid list" where
  "slices n v = (case v of Series gs \<Rightarrow> gs | Fixed g \<Rightarrow> replicate n g)"

definition grids :: "'e var \<Rightarrow> 'e grid list" where
  "grids v = (case v of Series gs \<Rightarrow> gs | Fixed g \<Rightarrow> [g])"

definition same_layout :: "'e grid \<Rightarrow> 'e grid \<Rightarrow> bool" where
  "same_layout g h = (dims g = dims h \<and> shape g = shape h)"

definition is_series :: "'e var \<Rightarrow> bool" where
  "is_series v = (case v of Series _ \<Rightarrow> True | Fixed _ \<Rightarrow> False)"

definition is_index :: "string \<Rightarrow> 'e var \<Rightarrow> bool" where
  "is_index k v = (case v of Fixed g \<Rightarrow> dims g = [k] | Series _ \<Rightarrow> False)"

definition compatible_var :: "bool \<Rightarrow> string \<Rightarrow> 'e var \<Rightarrow> 'e var \<Rightarrow> bool" where
  "compatible_var is_coord k v0 v =
     ((\<forall>g0\<in>set (grids v0). \<forall>g\<in>set (grids v). same_layout g0 g)
      \<and> (is_coord \<and> is_index k v0 \<longrightarrow> v = v0))"

definition concat_ok :: "'e dataset \<Rightarrow> 'e dataset \<Rightarrow> bool" where
  "concat_ok d0 d =
     (distinct (var_names d) \<and> set (var_names d) = set (var_names d0)
      \<and> coord_names d = coord_names d0
      \<and> (\<forall>p\<in>set (variables d).
            case lookup_var d0 (fst p) of
              Some v0 \<Rightarrow> compatible_var (fst p \<in> coord_names d0) (fst p) v0 (snd p)
            | None \<Rightarrow> False))"

definition concat_over :: "'e dataset list \<Rightarrow> string \<Rightarrow> bool" where
  "concat_over dss k =
     (k = ''time'' \<or> k \<notin> coord_names (hd dss)
      \<or> (\<exists>d\<in>set dss. case lookup_var d k of
                           Some (Series gs) \<Rightarrow> True
                         | v \<Rightarrow> v \<noteq> lookup_var (hd dss) k))"

definition concat_var :: "'e dataset list \<Rightarrow> string \<Rightarrow> 'e var \<Rightarrow> 'e var" where
  "concat_var dss k v0 =
     (if concat_over dss k
      then Series (concat (map (\<lambda>d. case lookup_var d k of
                                        Some v \<Rightarrow> slices (steps d) v
                                      | None \<Rightarrow> []) dss))
      else v0)"

definition xr_concat :: "combine_attrs \<Rightarrow> 'e dataset list \<Rightarrow> error + 'e dataset" where
  "xr_concat mode dss =
     (case dss of
        [] \<Rightarrow> Inl ValueError
      | d0 # rest \<Rightarrow>
          if \<not> (\<forall>d\<in>set dss. concat_ok d0 d) then Inl Unsupported
          else Inr \<lparr>variables = map (\<lambda>p. (fst p, concat_var dss (fst p) (snd p))) (variables d0),
                    coord_names = coord_names d0,
                    attrs = merge_attrs mode (map attrs dss)\<rparr>)"

subsection \<open>\<open>ds[name]\<close> and \<open>ds[name] = data_array\<close>\<close>

text \<open>
  \<open>ds[name]\<close> is a data array: the variable together with the coordinates of the dataset
  that fit its dimensions (scalar coordinates always do).  A missing name raises
  \<open>KeyError\<close>; the default index the library makes up for a bare dimension name is not
  described.
\<close>

record 'e data_array =
  da_var :: "'e var"
  da_coords :: "(string \<times> 'e var) list"

definition xr_getitem :: "string \<Rightarrow> 'e dataset \<Rightarrow> error + 'e data_array" where
  "xr_getitem k ds =
     (case lookup_var ds k of
        Some v \<Rightarrow>
          Inr \<lparr>da_var = v,
               da_coords = filter (\<lambda>p. fst p \<in> coord_names ds \<and> var_dims (snd p) \<subseteq> var_dims v)
                             (variables ds)\<rparr>
      | None \<Rightarrow> if k \<in> ds_dims ds then Inl Unsupported else Inl KeyError)"

fun var_sizes :: "'e var \<Rightarrow> (string \<times> nat) list" where
  "var_sizes (Fixed g) = zip (dims g) (shape g)"
| "var_sizes (Series gs) = (''time'', length gs) # concat (map (\<lambda>g. zip (dims g) (shape g)) gs)"

definition ds_sizes :: "'e dataset \<Rightarrow> (string \<times> nat) list" where
  "ds_sizes ds = concat (map (\<lambda>p. var_sizes (snd p)) (variables ds))"

definition sizes_agree :: "(string \<times> nat) list \<Rightarrow> (string \<times> nat) list \<Rightarrow> bool" where
  "sizes_agree xs ys = (\<forall>p\<in>set xs. \<forall>q\<in>set ys. fst p = fst q \<longrightarrow> snd p = snd q)"

text \<open>
  \<open>ds[name] = data_array\<close> updates the dataset with the array and the coordinates it
  brings.  Coordinates of the array that are not among its dimensions and that the
  dataset has already are dropped from the array first.  A dimension whose size differs
  from the dataset's raises \<open>ValueError\<close>, and so does a coordinate brought along under
  the name of a data variable of the dataset.  The variable becomes a coordinate when it
  is an index (one-dimensional, named as its dimension) or was a coordinate before; the
  coordinates brought along are added.  The attributes of the dataset stay.  Where the
  dataset would have to re-index the array against an index of its own, the result is
  \<open>Unsupported\<close>.
\<close>

definition setitem_da :: "string \<Rightarrow> 'e data_array \<Rightarrow> 'e dataset \<Rightarrow> error + 'e dataset" where
  "setitem_da k da ds =
     (let value = da_var da;
          kept = filter (\<lambda>p. \<not> (fst p \<notin> var_dims value \<and> fst p \<in> coord_names ds)) (da_coords da);
          brought = filter (\<lambda>p. fst p \<noteq> k) kept
      in if \<not> sizes_agree (concat (map (\<lambda>p. var_sizes (snd p)) ((k, value) # brought)))
                 (ds_sizes ds)
         then Inl ValueError
         else if \<exists>p\<in>set brought. fst p \<in> set (var_names ds) \<and> fst p \<notin> coord_names ds
         then Inl ValueError
         else if (\<exists>p\<in>set brought. fst p \<in> set (var_names ds) \<and> lookup_var ds (fst p) \<noteq> Some (snd p))
                 \<or> (is_index k value \<and> k \<in> set (var_names ds)
                     \<and> (k \<notin> coord_names ds \<or> lookup_var ds k \<noteq> Some value))
         then Inl Unsupported
         else Inr (ds\<lparr>variables :=
                        foldl (\<lambda>vs p. AList.update (fst p) (snd p) vs)
                          (AList.update k value (variables ds)) brought,
                       coord_names :=
                        coord_names ds \<union> fst ` set brought
                        \<union> (if is_index k value then {k} else {})\<rparr>))"

subsection \<open>Reduction over \<open>"time"\<close>\<close>

text \<open>
  \<open>ds.NAME.std(dim="time")\<close> and \<open>ds.NAME.mean(dim="time")\<close>: attribute access raises
  \<open>AttributeError\<close> for a missing variable, the reduction raises \<open>ValueError\<close> when the
  variable has no time dimension.  Otherwise every cell of the spatial grid is reduced
  over its values at the time steps.  The statistic itself is floating-point library code,
  the parameter \<open>f\<close>.
\<close>

definition reduce_time :: "('e scalar list \<Rightarrow> 'e scalar) \<Rightarrow> 'e grid list \<Rightarrow> 'e grid" where
  "reduce_time f gs =
     \<lparr>dims = dims (hd gs), shape = shape (hd gs),
      elems = map (\<lambda>k. f (map (\<lambda>g. elems g ! k) gs)) [0..<length (elems (hd gs))]\<rparr>"

definition uniform :: "'e grid list \<Rightarrow> bool" where
  "uniform gs = (\<forall>g\<in>set gs. same_layout (hd gs) g \<and> length (elems g) = length (elems (hd gs)))"

definition reduce_over_time ::
  "('e scalar list \<Rightarrow> 'e scalar) \<Rightarrow> string \<Rightarrow> 'e dataset \<Rightarrow> error + 'e var" where
  "reduce_over_time f name ds =
     (case lookup_var ds name of
        None \<Rightarrow> Inl AttributeError
      | Some (Fixed g) \<Rightarrow> Inl ValueError
      | Some (Series gs) \<Rightarrow>
          if gs = [] \<or> \<not> uniform gs then Inl Unsupported
          else Inr (Fixed (reduce_time f gs)))"


section \<open>The environment of a notebook run\<close>

text \<open>
  What the notebooks read from outside: the C library behind \<open>strftime\<close>, the remote
  archive as seen through \<open>xr.open_mfdataset(..., engine='zarr')\<close> on a list of URLs and
  through \<open>xr.open_dataset(..., engine="zarr")\<close> on one URL, and the projection library's
  point transformation.  A trace records the URLs of every remote open, in order.
\<close>

record 'e env =
  libc :: "string \<Rightarrow> datetime \<Rightarrow> error + string"
  open_mfdataset :: "string list \<Rightarrow> error + 'e dataset"
  open_dataset :: "string \<Rightarrow> error + 'e dataset"
  transform :: "(string \<times> string) list \<Rightarrow> 'e scalar \<Rightarrow> 'e scalar \<Rightarrow> 'e scalar \<times> 'e scalar"

type_synonym trace = "string list list"

section \<open>The notebook with \<open>open_mfdataset\<close>\<close>

definition xy_names :: "(string \<times> string) list" where
  "xy_names = [(''projection_x_coordinate'', ''x''), (''projection_y_coordinate'', ''y'')]"

definition lambert_kwargs :: "(string \<times> string) list" where
  "lambert_kwargs =
     [(''grid_mapping_name'', ''lambert_conformal_conic''),
      (''longitude_of_central_meridian'', ''-97.5''),
      (''latitude_of_projection_origin'', ''38.5''),
      (''standard_parallel'', ''38.5'')]"

text \<open>
  \<^verbatim>\<open>
  def load_dataset(urls):
      fs = s3fs.S3FileSystem(anon=True)
      ds = xr.open_mfdataset([s3fs.S3Map(url, s3=fs) for url in urls], engine='zarr')
      ds = ds.rename(projection_x_coordinate="x", projection_y_coordinate="y")
      ds = ds.metpy.assign_crs(grid_mapping_name="lambert_conformal_conic", ...)
      ds = ds.metpy.assign_latitude_longitude()
      ds = ds.set_coords("time")
      return ds
  \<close>
\<close>

definition load_dataset :: "'e env \<Rightarrow> string list \<Rightarrow> error + 'e dataset" where
  "load_dataset E urls =
     bind_err (open_mfdataset E urls) (\<lambda>ds.
     bind_err (xr_rename xy_names ds) (\<lambda>ds.
     bind_err (assign_latitude_longitude (transform E) (assign_crs lambert_kwargs ds)) (\<lambda>ds.
     set_coords ''time'' ds)))"

text \<open>
  \<^verbatim>\<open>
  def load_combined_dataset(start_date, num_hours, level, param_short_name):
      combined_ds = None
      for i in range(num_hours):
          time = start_date + datetime.timedelta(hours=i)
          group_url = time.strftime(f"s3://hrrrzarr/sfc/%Y%m%d/%Y%m%d_%Hz_anl.zarr/{level}/{param_short_name}")
          subgroup_url = group_url + f"/{level}"
          partial_ds = load_dataset([group_url, subgroup_url])
          if not combined_ds:
              combined_ds = partial_ds
          else:
              combined_ds = xr.concat([combined_ds, partial_ds], dim="time", combine_attrs="drop_conflicts")
      return combined_ds
  \<close>
  The loop is the recursion \<open>combine_hours\<close> over the hour indices, with \<open>combined_ds\<close>
  and the trace as its state.
\<close>

fun combine_hours ::
  "'e env \<Rightarrow> datetime \<Rightarrow> string \<Rightarrow> string \<Rightarrow> nat list \<Rightarrow> 'e dataset option \<times> trace
   \<Rightarrow> (error + 'e dataset option) \<times> trace" where
  "combine_hours E start_date level param_short_name [] (combined_ds, tr) = (Inr combined_ds, tr)"
| "combine_hours E start_date level param_short_name (i # rest) (combined_ds, tr) =
     (case hour_urls (libc E) start_date i level param_short_name of
        Inl e \<Rightarrow> (Inl e, tr)
      | Inr (time, group_url, subgroup_url) \<Rightarrow>
          (case load_dataset E [group_url, subgroup_url] of
             Inl e \<Rightarrow> (Inl e, tr @ [[group_url, subgroup_url]])
           | Inr partial_ds \<Rightarrow>
               (case combined_ds of
                  None \<Rightarrow>
                    combine_hours E start_date level param_short_name rest
                      (Some partial_ds, tr @ [[group_url, subgroup_url]])
                | Some c \<Rightarrow>
                    if \<not> ds_bool c
                    then combine_hours E start_date level param_short_name rest
                           (Some partial_ds, tr @ [[group_url, subgroup_url]])
                    else (case xr_concat DropConflicts [c, partial_ds] of
                            Inl e \<Rightarrow> (Inl e, tr @ [[group_url, subgroup_url]])
                          | Inr c' \<Rightarrow>
                              combine_hours E start_date level param_short_name rest
                                (Some c', tr @ [[group_url, subgroup_url]])))))"

definition load_combined_dataset ::
  "'e env \<Rightarrow> datetime \<Rightarrow> int \<Rightarrow> string \<Rightarrow> string \<Rightarrow> (error + 'e dataset option) \<times> trace" where
  "load_combined_dataset E start_date num_hours level param_short_name =
     combine_hours E start_date level param_short_name [0..<nat num_hours] (None, [])"

section \<open>The notebook with \<open>open_dataset\<close>\<close>

text \<open>
  The projection is a module-level object, \<open>ccrs.LambertConformal(...)\<close> here and
  \<open>ccrs.CRS(proj_params)\<close> with \<open>'proj': 'lcc'\<close> in the third notebook.  \<open>to_cf()\<close> gives
  its attributes under their CF names: the grid mapping name, \<open>standard_parallel\<close> (from
  \<open>lat_1\<close> and \<open>lat_2\<close>), \<open>longitude_of_central_meridian\<close> (\<open>lon_0\<close>),
  \<open>latitude_of_projection_origin\<close> (\<open>lat_0\<close>), \<open>semi_major_axis\<close> (\<open>a\<close>),
  \<open>semi_minor_axis\<close> (\<open>b\<close>), \<open>false_easting\<close> (\<open>x_0\<close>) and \<open>false_northing\<close> (\<open>y_0\<close>).
  Values are kept as the notebook writes them; the further keys the library writes
  (the WKT text, datum and ellipsoid names) are left out.
\<close>

datatype projection_object =
    LambertConformal string string string string string
  | ProjParams "(string \<times> string) list"

definition grid_mapping_of :: "string \<Rightarrow> string" where
  "grid_mapping_of p = (if p = ''lcc'' then ''lambert_conformal_conic'' else p)"

definition cf_name :: "string \<Rightarrow> string option" where
  "cf_name k =
     map_of [(''lon_0'', ''longitude_of_central_meridian''),
             (''lat_0'', ''latitude_of_projection_origin''),
             (''a'', ''semi_major_axis''), (''b'', ''semi_minor_axis''),
             (''x_0'', ''false_easting''), (''y_0'', ''false_northing'')] k"

fun to_cf :: "projection_object \<Rightarrow> (string \<times> string) list" where
  "to_cf (LambertConformal central_longitude central_latitude standard_parallels a b) =
     [(''grid_mapping_name'', ''lambert_conformal_conic''),
      (''longitude_of_central_meridian'', central_longitude),
      (''latitude_of_projection_origin'', central_latitude),
      (''standard_parallel'', standard_parallels),
      (''semi_major_axis'', a), (''semi_minor_axis'', b)]"
| "to_cf (ProjParams ps) =
     (''grid_mapping_name'', case map_of ps ''proj'' of Some p \<Rightarrow> grid_mapping_of p | None \<Rightarrow> [])
     # (case (map_of ps ''lat_1'', map_of ps ''lat_2'') of
          (Some p1, Some p2) \<Rightarrow> [(''standard_parallel'', ''('' @ p1 @ '', '' @ p2 @ '')'')]
        | (Some p1, None) \<Rightarrow> [(''standard_parallel'', p1)]
        | _ \<Rightarrow> [])
     @ concat (map (\<lambda>p. case cf_name (fst p) of Some n \<Rightarrow> [(n, snd p)] | None \<Rightarrow> []) ps)"

definition projection :: projection_object where
  "projection = LambertConformal ''262.5'' ''38.5'' ''(38.5, 38.5)'' ''6371229'' ''6371229''"

text \<open>
  \<^verbatim>\<open>
  def load(url, time=None):
      ds = xr.open_dataset(s3fs.S3Map(url, s3=fs), engine="zarr")
      ds["time"] = time
      ds = ds.set_coords("time")
      ds = ds.rename(projection_x_coordinate="x", projection_y_coordinate="y")
      return ds
  \<close>
\<close>

definition load :: "'e env \<Rightarrow> string \<Rightarrow> datetime option \<Rightarrow> error + 'e dataset" where
  "load E url time =
     bind_err (open_dataset E url) (\<lambda>ds.
     bind_err (setitem_scalar ''time'' (case time of None \<Rightarrow> PyNone | Some t \<Rightarrow> Stamp t) ds) (\<lambda>ds.
     bind_err (set_coords ''time'' ds) (\<lambda>ds.
     xr_rename xy_names ds)))"

text \<open>
  \<^verbatim>\<open>
      datasets = []
      for i in range(num_hours):
          time = start_date + datetime.timedelta(hours=i)
          subgroup_url = time.strftime(group_url_format) + f"/{level}"
          datasets.append(load(subgroup_url, time=time))
  \<close>
\<close>

fun load_hours ::
  "'e env \<Rightarrow> datetime \<Rightarrow> string \<Rightarrow> string \<Rightarrow> nat list \<Rightarrow> 'e dataset list \<times> trace
   \<Rightarrow> (error + 'e dataset list) \<times> trace" where
  "load_hours E start_date level param_short_name [] (datasets, tr) = (Inr datasets, tr)"
| "load_hours E start_date level param_short_name (i # rest) (datasets, tr) =
     (case hour_urls (libc E) start_date i level param_short_name of
        Inl e \<Rightarrow> (Inl e, tr)
      | Inr (time, group_url, subgroup_url) \<Rightarrow>
          (case load E subgroup_url (Some time) of
             Inl e \<Rightarrow> (Inl e, tr @ [[subgroup_url]])
           | Inr ds \<Rightarrow>
               load_hours E start_date level param_short_name rest
                 (datasets @ [ds], tr @ [[subgroup_url]])))"

text \<open>
  \<^verbatim>\<open>
  def load_combined_dataset(start_date, num_hours, level, param_short_name):
      group_url_format = f"s3://hrrrzarr/sfc/%Y%m%d/%Y%m%d_%Hz_anl.zarr/{level}/{param_short_name}"
      group_url = start_date.strftime(group_url_format)
      grid = load(group_url)
      ... the loop above ...
      ds = xr.concat(datasets, dim="time", combine_attrs="override")
      ds["x"] = grid["x"]
      ds["y"] = grid["y"]
      ds = ds.metpy.assign_crs(projection.to_cf())
      ds = ds.metpy.assign_latitude_longitude()
      return ds
  \<close>
\<close>

definition add_grid :: "'e dataset \<Rightarrow> 'e dataset \<Rightarrow> error + 'e dataset" where
  "add_grid grid ds =
     bind_err (xr_getitem ''x'' grid) (\<lambda>gx.
     bind_err (setitem_da ''x'' gx ds) (\<lambda>ds.
     bind_err (xr_getitem ''y'' grid) (\<lambda>gy.
     setitem_da ''y'' gy ds)))"

definition load_combined_dataset_not_mf ::
  "'e env \<Rightarrow> datetime \<Rightarrow> int \<Rightarrow> string \<Rightarrow> string \<Rightarrow> (error + 'e dataset) \<times> trace" where
  "load_combined_dataset_not_mf E start_date num_hours level param_short_name =
     (case group_url_at (libc E) start_date level param_short_name of
        Inl e \<Rightarrow> (Inl e, [])
      | Inr group_url \<Rightarrow>
     (case load E group_url None of
        Inl e \<Rightarrow> (Inl e, [[group_url]])
      | Inr grid \<Rightarrow>
     (case load_hours E start_date level param_short_name [0..<nat num_hours] ([], [[group_url]]) of
        (Inl e, tr) \<Rightarrow> (Inl e, tr)
      | (Inr datasets, tr) \<Rightarrow>
          (bind_err (xr_concat Override datasets) (\<lambda>ds.
           bind_err (add_grid grid ds) (\<lambda>ds.
           assign_latitude_longitude (transform E) (assign_crs (to_cf projection) ds))), tr))))"

section \<open>The statistics cells and the third notebook\<close>

text \<open>
  \<^verbatim>\<open>std_dev = ds.TMP.std(dim="time")\<close> in both analysis notebooks and
  \<^verbatim>\<open>ds_from_s3.PRES.mean(dim="time")\<close> in the thread-locking notebook.
\<close>

definition std_dev :: "('e scalar list \<Rightarrow> 'e scalar) \<Rightarrow> 'e dataset \<Rightarrow> error + 'e var" where
  "std_dev std ds = reduce_over_time std ''TMP'' ds"

definition mean_pres :: "('e scalar list \<Rightarrow> 'e scalar) \<Rightarrow> 'e dataset \<Rightarrow> error + 'e var" where
  "mean_pres mean ds = reduce_over_time mean ''PRES'' ds"

definition proj_params :: "(string \<times> string) list" where
  "proj_params =
     [(''a'', ''6371229''), (''b'', ''6371229''), (''proj'', ''lcc''), (''lon_0'', ''262.5''),
      (''lat_0'', ''38.5''), (''lat_1'', ''38.5''), (''lat_2'', ''38.5'')]"



section \<open>A small archive\<close>

text \<open>
  Two hours around a change of year, on a grid of one row and two columns.  The group
  holds the grid coordinates and the time, the subgroup the data variable;
  \<open>open_mfdataset\<close> on both gives them together.  The stand-in for the projection
  library moves a grid point \<open>(x, y)\<close> to longitude \<open>x + 100\<close> and latitude \<open>y + 50\<close>.
\<close>

definition new_years_eve :: datetime where
  "new_years_eve =
     \<lparr>year = 2021, month = 12, day = 31, hour = 23, minute = 0, second = 0, microsecond = 0\<rparr>"

definition new_years_day :: datetime where
  "new_years_day =
     \<lparr>year = 2022, month = 1, day = 1, hour = 0, minute = 0, second = 0, microsecond = 0\<rparr>"

definition demo_x :: "nat var" where
  "demo_x = Fixed \<lparr>dims = [''projection_x_coordinate''], shape = [2], elems = [Num 0, Num 3]\<rparr>"

definition demo_y :: "nat var" where
  "demo_y = Fixed \<lparr>dims = [''projection_y_coordinate''], shape = [1], elems = [Num 0]\<rparr>"

definition demo_tmp :: "nat \<Rightarrow> nat var" where
  "demo_tmp v =
     Fixed \<lparr>dims = [''projection_y_coordinate'', ''projection_x_coordinate''], shape = [1, 2],
            elems = [Num v, Num (v + 1)]\<rparr>"

definition demo_grid :: "nat dataset" where
  "demo_grid =
     \<lparr>variables = [(''projection_x_coordinate'', demo_x), (''projection_y_coordinate'', demo_y)],
      coord_names = {''projection_x_coordinate'', ''projection_y_coordinate''},
      attrs = []\<rparr>"

definition demo_data :: "nat \<Rightarrow> nat dataset" where
  "demo_data v = \<lparr>variables = [(''TMP'', demo_tmp v)], coord_names = {}, attrs = []\<rparr>"

definition demo_hour :: "datetime \<Rightarrow> nat \<Rightarrow> nat dataset" where
  "demo_hour t v =
     \<lparr>variables =
        [(''projection_x_coordinate'', demo_x), (''projection_y_coordinate'', demo_y),
         (''time'', Fixed (scalar_grid (Stamp t))), (''TMP'', demo_tmp v)],
      coord_names = {''projection_x_coordinate'', ''projection_y_coordinate''},
      attrs = []\<rparr>"

definition demo_env :: "nat env" where
  "demo_env =
     \<lparr>libc = (\<lambda>fmt t. Inl ValueError),
      open_mfdataset = (\<lambda>urls.
        if urls = [''s3://hrrrzarr/sfc/20211231/20211231_23z_anl.zarr/1000mb/TMP'',
                   ''s3://hrrrzarr/sfc/20211231/20211231_23z_anl.zarr/1000mb/TMP/1000mb'']
        then Inr (demo_hour new_years_eve 10)
        else if urls = [''s3://hrrrzarr/sfc/20220101/20220101_00z_anl.zarr/1000mb/TMP'',
                        ''s3://hrrrzarr/sfc/20220101/20220101_00z_anl.zarr/1000mb/TMP/1000mb'']
        then Inr (demo_hour new_years_day 20)
        else Inl StoreError),
      open_dataset = (\<lambda>url.
        if url = ''s3://hrrrzarr/sfc/20211231/20211231_23z_anl.zarr/1000mb/TMP''
        then Inr demo_grid
        else if url = ''s3://hrrrzarr/sfc/20211231/20211231_23z_anl.zarr/1000mb/TMP/1000mb''
        then Inr (demo_data 10)
        else if url = ''s3://hrrrzarr/sfc/20220101/20220101_00z_anl.zarr/1000mb/TMP/1000mb''
        then Inr (demo_data 20)
        else Inl StoreError),
      transform = (\<lambda>cf x y. case (x, y) of
                                 (Num a, Num b) \<Rightarrow> (Num (a + 100), Num (b + 50))
                               | _ \<Rightarrow> (PyNone, PyNone))\<rparr>"





definition demo_env_stale :: "nat env" where
  "demo_env_stale = demo_env\<lparr>open_mfdataset := (\<lambda>urls. Inr (demo_hour new_years_eve 10))\<rparr>"

text \<open>
  What the two notebooks make of it: an hour after \<open>load_dataset\<close>, the two hours
  combined by the loop with \<open>open_mfdataset\<close>, and the result of the notebook with
  \<open>open_dataset\<close>.
\<close>

definition demo_loaded :: "datetime \<Rightarrow> nat \<Rightarrow> nat dataset" where
  "demo_loaded t v =
     \<lparr>variables =
        [(''x'', Fixed \<lparr>dims = [''x''], shape = [2], elems = [Num 0, Num 3]\<rparr>),
         (''y'', Fixed \<lparr>dims = [''y''], shape = [1], elems = [Num 0]\<rparr>),
         (''time'', Fixed \<lparr>dims = [], shape = [], elems = [Stamp t]\<rparr>),
         (''TMP'', Fixed \<lparr>dims = [''y'', ''x''], shape = [1, 2], elems = [Num v, Num (v + 1)]\<rparr>),
         (''metpy_crs'', Fixed \<lparr>dims = [], shape = [], elems = [Crs lambert_kwargs]\<rparr>),
         (''latitude'', Fixed \<lparr>dims = [''y'', ''x''], shape = [1, 2], elems = [Num 50, Num 50]\<rparr>),
         (''longitude'', Fixed \<lparr>dims = [''y'', ''x''], shape = [1, 2], elems = [Num 100, Num 103]\<rparr>)],
      coord_names = {''time'', ''longitude'', ''latitude'', ''metpy_crs'', ''x'', ''y''},
      attrs = []\<rparr>"

definition demo_time_series :: "nat var" where
  "demo_time_series =
     Series [\<lparr>dims = [], shape = [], elems = [Stamp new_years_eve]\<rparr>,
             \<lparr>dims = [], shape = [], elems = [Stamp new_years_day]\<rparr>]"

definition demo_tmp_grids :: "nat grid list" where
  "demo_tmp_grids =
     [\<lparr>dims = [''y'', ''x''], shape = [1, 2], elems = [Num 10, Num 11]\<rparr>,
      \<lparr>dims = [''y'', ''x''], shape = [1, 2], elems = [Num 20, Num 21]\<rparr>]"

definition demo_tmp_series :: "nat var" where
  "demo_tmp_series = Series demo_tmp_grids"

definition demo_combined :: "nat dataset" where
  "demo_combined =
     \<lparr>variables =
        [(''x'', Fixed \<lparr>dims = [''x''], shape = [2], elems = [Num 0, Num 3]\<rparr>),
         (''y'', Fixed \<lparr>dims = [''y''], shape = [1], elems = [Num 0]\<rparr>),
         (''time'', demo_time_series),
         (''TMP'', demo_tmp_series),
         (''metpy_crs'', Fixed \<lparr>dims = [], shape = [], elems = [Crs lambert_kwargs]\<rparr>),
         (''latitude'', Fixed \<lparr>dims = [''y'', ''x''], shape = [1, 2], elems = [Num 50, Num 50]\<rparr>),
         (''longitude'', Fixed \<lparr>dims = [''y'', ''x''], shape = [1, 2], elems = [Num 100, Num 103]\<rparr>)],
      coord_names = {''time'', ''longitude'', ''latitude'', ''metpy_crs'', ''x'', ''y''},
      attrs = []\<rparr>"

definition demo_grid_loaded :: "nat dataset" where
  "demo_grid_loaded =
     \<lparr>variables =
        [(''x'', Fixed \<lparr>dims = [''x''], shape = [2], elems = [Num 0, Num 3]\<rparr>),
         (''y'', Fixed \<lparr>dims = [''y''], shape = [1], elems = [Num 0]\<rparr>),
         (''time'', Fixed \<lparr>dims = [], shape = [], elems = [PyNone]\<rparr>)],
      coord_names = {''time'', ''x'', ''y''},
      attrs = []\<rparr>"

definition demo_data_loaded :: "datetime \<Rightarrow> nat \<Rightarrow> nat dataset" where
  "demo_data_loaded t v =
     \<lparr>variables =
        [(''TMP'', Fixed \<lparr>dims = [''y'', ''x''], shape = [1, 2], elems = [Num v, Num (v + 1)]\<rparr>),
         (''time'', Fixed \<lparr>dims = [], shape = [], elems = [Stamp t]\<rparr>)],
      coord_names = {''time''},
      attrs = []\<rparr>"

definition demo_stacked :: "nat dataset" where
  "demo_stacked =
     \<lparr>variables = [(''TMP'', demo_tmp_series), (''time'', demo_time_series)],
      coord_names = {''time''},
      attrs = []\<rparr>"

definition demo_combined_not_mf :: "nat dataset" where
  "demo_combined_not_mf =
     \<lparr>variables =
        [(''TMP'', demo_tmp_series),
         (''time'', demo_time_series),
         (''x'', Fixed \<lparr>dims = [''x''], shape = [2], elems = [Num 0, Num 3]\<rparr>),
         (''y'', Fixed \<lparr>dims = [''y''], shape = [1], elems = [Num 0]\<rparr>),
         (''metpy_crs'', Fixed \<lparr>dims = [], shape = [], elems = [Crs (to_cf projection)]\<rparr>),
         (''latitude'', Fixed \<lparr>dims = [''y'', ''x''], shape = [1, 2], elems = [Num 50, Num 50]\<rparr>),
         (''longitude'', Fixed \<lparr>dims = [''y'', ''x''], shape = [1, 2], elems = [Num 100, Num 103]\<rparr>)],
      coord_names = {''longitude'', ''latitude'', ''metpy_crs'', ''time'', ''x'', ''y''},
      attrs = []\<rparr>"


text \<open>
  A forecast file as the thread-locking notebook opens it: the pressure over two
  forecast hours, with the time dimension in the file itself.
\<close>

definition demo_pres_grids :: "nat grid list" where
  "demo_pres_grids =
     [\<lparr>dims = [''projection_y_coordinate'', ''projection_x_coordinate''], shape = [1, 2],
        elems = [Num 1000, Num 1001]\<rparr>,
      \<lparr>dims = [''projection_y_coordinate'', ''projection_x_coordinate''], shape = [1, 2],
        elems = [Num 1002, Num 1005]\<rparr>]"

definition demo_forecast :: "nat dataset" where
  "demo_forecast =
     \<lparr>variables = [(''PRES'', Series demo_pres_grids)], coord_names = {}, attrs = []\<rparr>"

section \<open>The two ways of combining\<close>

text \<open>
  The loop of the notebook with \<open>open_mfdataset\<close>, on the per-hour datasets alone: the
  first one is taken as it is, each further one is concatenated to what has been
  combined so far, unless that is empty.  A single concatenation of the same list is
  \<open>xr_concat DropConflicts\<close> applied to it.
\<close>

fun pairwise_concat :: "'e dataset option \<Rightarrow> 'e dataset list \<Rightarrow> error + 'e dataset option" where
  "pairwise_concat combined_ds [] = Inr combined_ds"
| "pairwise_concat combined_ds (partial_ds # rest) =
     (case combined_ds of
        None \<Rightarrow> pairwise_concat (Some partial_ds) rest
      | Some c \<Rightarrow>
          if \<not> ds_bool c then pairwise_concat (Some partial_ds) rest
          else (case xr_concat DropConflicts [c, partial_ds] of
                  Inl e \<Rightarrow> Inl e
                | Inr c' \<Rightarrow> pairwise_concat (Some c') rest))"

section \<open>Properties of datasets\<close>

text \<open>
  A variable over time on a two-dimensional spatial grid: at least one time step, and
  every step an array over the same two spatial dimensions \<open>d1\<close>, \<open>d2\<close> with \<open>n1 * n2\<close>
  cells.
\<close>

definition gridded :: "'e grid list \<Rightarrow> string \<Rightarrow> string \<Rightarrow> nat \<Rightarrow> nat \<Rightarrow> bool" where
  "gridded gs d1 d2 n1 n2 =
     (gs \<noteq> [] \<and> ''time'' \<notin> {d1, d2}
      \<and> (\<forall>g\<in>set gs. dims g = [d1, d2] \<and> shape g = [n1, n2] \<and> length (elems g) = n1 * n2))"

text \<open>
  The parts of the metadata repair, as properties of a dataset, in the words of the
  specification.

  The reference system attached is the Lambert conformal conic one.
\<close>

definition lambert_attached :: "'e dataset \<Rightarrow> bool" where
  "lambert_attached ds =
     (''metpy_crs'' \<in> coord_names ds
      \<and> (case crs_of ds of
            Some cf \<Rightarrow> map_of cf ''grid_mapping_name'' = Some ''lambert_conformal_conic''
          | None \<Rightarrow> False))"

text \<open>
  Latitude and longitude are derived from the grid: both are coordinates over \<open>(y, x)\<close>,
  of the size of the grid, and at row \<open>j\<close> and column \<open>i\<close> they hold the latitude and the
  longitude that the projection library gives for the point \<open>(x[i], y[j])\<close> in the
  reference system attached.
\<close>

definition latlon_assigned :: "'e env \<Rightarrow> 'e dataset \<Rightarrow> bool" where
  "latlon_assigned E ds =
     (case xy_coords ds of
        None \<Rightarrow> False
      | Some (gx, gy) \<Rightarrow>
     (case crs_of ds of
        None \<Rightarrow> False
      | Some cf \<Rightarrow>
     (case lookup_var ds ''latitude'' of
        Some (Fixed la) \<Rightarrow>
     (case lookup_var ds ''longitude'' of
        Some (Fixed lo) \<Rightarrow>
          ''latitude'' \<in> coord_names ds \<and> ''longitude'' \<in> coord_names ds
          \<and> dims la = [''y'', ''x''] \<and> dims lo = [''y'', ''x'']
          \<and> shape la = [length (elems gy), length (elems gx)]
          \<and> shape lo = [length (elems gy), length (elems gx)]
          \<and> length (elems la) = length (elems gy) * length (elems gx)
          \<and> length (elems lo) = length (elems gy) * length (elems gx)
          \<and> (\<forall>j\<in>set [0..<length (elems gy)]. \<forall>i\<in>set [0..<length (elems gx)].
                (elems lo ! (j * length (elems gx) + i), elems la ! (j * length (elems gx) + i))
                  = transform E cf (elems gx ! i) (elems gy ! j))
      | _ \<Rightarrow> False)
      | _ \<Rightarrow> False)))"

text \<open>
  Renaming: against the dataset as it was opened, \<open>projection_x_coordinate\<close> and
  \<open>projection_y_coordinate\<close> are now called \<open>x\<close> and \<open>y\<close>, as variables and as
  dimensions, and nothing else changed its name.  \<open>renamed_var v w\<close>: the variable \<open>w\<close>
  holds what \<open>v\<close> held, over the renamed dimensions.  \<open>xy_renamed written raw ds\<close>:
  every variable of \<open>raw\<close> is in \<open>ds\<close> under its new name with what it held, and is a
  coordinate there if it was one; \<open>ds\<close> has no other variables and the old names are
  gone.  Set apart are the names in \<open>written\<close>, the variables that the loading function
  itself assigns.
\<close>

definition renamed_name :: "string \<Rightarrow> string" where
  "renamed_name k =
     (if k = ''projection_x_coordinate'' then ''x''
      else if k = ''projection_y_coordinate'' then ''y'' else k)"




text \<open>
  A per-hour dataset as the archive holds it: no time dimension of its own, and at least
  one data variable, so that it is true for \<open>if not combined_ds\<close>.  For the hour \<open>t\<close> its
  variable \<open>time\<close> is the scalar \<open>t\<close>.
\<close>

definition hourly :: "'e dataset \<Rightarrow> bool" where
  "hourly p = (''time'' \<notin> ds_dims p \<and> ds_bool p)"

definition hourly_at :: "datetime \<Rightarrow> 'e dataset \<Rightarrow> bool" where
  "hourly_at t p = (lookup_var p ''time'' = Some (Fixed (scalar_grid (Stamp t))) \<and> hourly p)"

text \<open>Two attribute dictionaries agree when no key has one value in one and another in the other.\<close>

definition attrs_agree :: "(string \<times> string) list \<Rightarrow> (string \<times> string) list \<Rightarrow> bool" where
  "attrs_agree a b = (\<forall>p\<in>set a. \<forall>q\<in>set b. fst p = fst q \<longrightarrow> snd p = snd q)"

text \<open>
  \<open>stacked ps X\<close>: the variables and coordinates of \<open>X\<close> are those of the concatenation of
  the list \<open>ps\<close>, whatever its attributes are.
\<close>

definition stacked :: "'e dataset list \<Rightarrow> 'e dataset \<Rightarrow> bool" where
  "stacked ps X =
     (ps \<noteq> [] \<and> (\<forall>d\<in>set ps. concat_ok (hd ps) d)
      \<and> variables X = map (\<lambda>q. (fst q, concat_var ps (fst q) (snd q))) (variables (hd ps))
      \<and> coord_names X = coord_names (hd ps))"

section \<open>The calendar\<close>

text \<open>
  The day ordinal of the date that \<open>ord2ymd\<close> returns is the ordinal it was given: the
  library's date arithmetic loses nothing.
\<close>

lemma month_part:
  assumes "r < 365" and m: "m = (r + 50) div 32"
    and p: "p = DAYS_BEFORE_MONTH ! m + (if m > 2 \<and> L then 1 else 0)"
  shows "1 \<le> m \<and> m \<le> 12 \<and>
    (if p > r
     then 2 \<le> m \<and> p - (DAYS_IN_MONTH ! (m - 1) + (if m - 1 = 2 \<and> L then 1 else 0))
            = DAYS_BEFORE_MONTH ! (m - 1) + (if m - 1 > 2 \<and> L then 1 else (0::nat))
          \<and> DAYS_BEFORE_MONTH ! (m - 1) + (if m - 1 > 2 \<and> L then 1 else 0) \<le> r
     else True)"
proof -
  have "1 \<le> m \<and> m \<le> 12" using assms(1) unfolding m by arith
  then have "m \<in> {1,2,3,4,5,6,7,8,9,10,11,12}" by (simp; arith)
  then consider "m = 1" | "m = 2" | "m = 3" | "m = 4" | "m = 5" | "m = 6" | "m = 7" | "m = 8"
    | "m = 9" | "m = 10" | "m = 11" | "m = 12" by auto
  then show ?thesis
  proof cases
    case 1
    have "r \<ge> 0" using 1 unfolding m by arith
    then show ?thesis using 1 assms(1) unfolding p
      by (simp add: DAYS_BEFORE_MONTH_def DAYS_IN_MONTH_def)
  next
    case 2
    have "r \<ge> 14" using 2 unfolding m by arith
    then show ?thesis using 2 assms(1) unfolding p
      by (simp add: DAYS_BEFORE_MONTH_def DAYS_IN_MONTH_def)
  next
    case 3
    have "r \<ge> 46" using 3 unfolding m by arith
    then show ?thesis using 3 assms(1) unfolding p
      by (simp add: DAYS_BEFORE_MONTH_def DAYS_IN_MONTH_def)
  next
    case 4
    have "r \<ge> 78" using 4 unfolding m by arith
    then show ?thesis using 4 assms(1) unfolding p
      by (simp add: DAYS_BEFORE_MONTH_def DAYS_IN_MONTH_def)
  next
    case 5
    have "r \<ge> 110" using 5 unfolding m by arith
    then show ?thesis using 5 assms(1) unfolding p
      by (simp add: DAYS_BEFORE_MONTH_def DAYS_IN_MONTH_def)
  next
    case 6
    have "r \<ge> 142" using 6 unfolding m by arith
    then show ?thesis using 6 assms(1) unfolding p
      by (simp add: DAYS_BEFORE_MONTH_def DAYS_IN_MONTH_def)
  next
    case 7
    have "r \<ge> 174" using 7 unfolding m by arith
    then show ?thesis using 7 assms(1) unfolding p
      by (simp add: DAYS_BEFORE_MONTH_def DAYS_IN_MONTH_def)
  next
    case 8
    have "r \<ge> 206" using 8 unfolding m by arith
    then show ?thesis using 8 assms(1) unfolding p
      by (simp add: DAYS_BEFORE_MONTH_def DAYS_IN_MONTH_def)
  next
    case 9
    have "r \<ge> 238" using 9 unfolding m by arith
    then show ?thesis using 9 assms(1) unfolding p
      by (simp add: DAYS_BEFORE_MONTH_def DAYS_IN_MONTH_def)
  next
    case 10
    have "r \<ge> 270" using 10 unfolding m by arith
    then show ?thesis using 10 assms(1) unfolding p
      by (simp add: DAYS_BEFORE_MONTH_def DAYS_IN_MONTH_def)
  next
    case 11
    have "r \<ge> 302" using 11 unfolding m by arith
    then show ?thesis using 11 assms(1) unfolding p
      by (simp add: DAYS_BEFORE_MONTH_def DAYS_IN_MONTH_def)
  next
    case 12
    have "r \<ge> 334" using 12 unfolding m by arith
    then show ?thesis using 12 assms(1) unfolding p
      by (simp add: DAYS_BEFORE_MONTH_def DAYS_IN_MONTH_def)
  qed
qed

lemma ord_split:
  fixes n :: nat
  assumes "1 \<le> n"
  defines "a \<equiv> (n - 1) div 146097"
  defines "r1 \<equiv> (n - 1) mod 146097"
  defines "b \<equiv> r1 div 36524"
  defines "r2 \<equiv> r1 mod 36524"
  defines "c \<equiv> r2 div 1461"
  defines "r3 \<equiv> r2 mod 1461"
  defines "e \<equiv> r3 div 365"
  defines "r \<equiv> r3 mod 365"
  shows "n = 146097 * a + 36524 * b + 1461 * c + 365 * e + r + 1"
    and "b \<le> 4" "c \<le> 24" "e \<le> 4" "r < 365"
    and "b = 4 \<Longrightarrow> c = 0 \<and> e = 0 \<and> r = 0"
    and "e = 4 \<Longrightarrow> r = 0 \<and> c \<le> 23"
proof -
  have 1: "n - 1 = 146097 * a + r1" unfolding a_def r1_def by simp
  have 2: "r1 = 36524 * b + r2" unfolding b_def r2_def by simp
  have 3: "r2 = 1461 * c + r3" unfolding c_def r3_def by simp
  have 4: "r3 = 365 * e + r" unfolding e_def r_def by simp
  have l1: "r1 < 146097" unfolding r1_def by simp
  have l2: "r2 < 36524" unfolding r2_def by simp
  have l3: "r3 < 1461" unfolding r3_def by simp
  show l4: "r < 365" unfolding r_def by simp
  show "n = 146097 * a + 36524 * b + 1461 * c + 365 * e + r + 1"
    using 1 2 3 4 assms(1) by linarith
  show b: "b \<le> 4" using 2 l1 by linarith
  show c: "c \<le> 24" using 3 l2 by linarith
  show e: "e \<le> 4" using 4 l3 by linarith
  show "b = 4 \<Longrightarrow> c = 0 \<and> e = 0 \<and> r = 0" using 2 3 4 l1 by linarith
  show "e = 4 \<Longrightarrow> r = 0 \<and> c \<le> 23" using 3 4 l2 l3 by linarith
qed
lemma days_before_year_split:
  fixes a b c d :: nat
  assumes "y - 1 = 400 * a + 100 * b + 4 * c + d" "b < 4" "c < 25" "d < 4"
  shows "days_before_year y = 146097 * a + 36524 * b + 1461 * c + 365 * d"
proof -
  have q4: "(400 * a + 100 * b + 4 * c + d) div 4 = 100 * a + 25 * b + c"
    using assms(4) by linarith
  have q100: "(400 * a + 100 * b + 4 * c + d) div 100 = 4 * a + b"
    using assms(3,4) by linarith
  have q400: "(400 * a + 100 * b + 4 * c + d) div 400 = a"
    using assms(2,3,4) by linarith
  have "(400 * a + 100 * b + 4 * c + d) * 365 = 146000 * a + 36500 * b + 1460 * c + 365 * d"
    by simp
  then show ?thesis unfolding days_before_year_def assms(1) q4 q100 q400 by linarith
qed

lemma is_leap_split:
  fixes a b c d :: nat
  assumes "b < 4" "c < 25" "d < 4"
  shows "is_leap (400 * a + 1 + 100 * b + 4 * c + d) = (d = 3 \<and> (c \<noteq> 24 \<or> b = 3))"
proof -
  have e4: "400 * a + 1 + 100 * b + 4 * c + d = (d + 1) + 4 * (100 * a + 25 * b + c)" by simp
  have e100: "400 * a + 1 + 100 * b + 4 * c + d = (4 * c + d + 1) + 100 * (4 * a + b)" by simp
  have e400: "400 * a + 1 + 100 * b + 4 * c + d = (100 * b + 4 * c + d + 1) + 400 * a" by simp
  have m4: "(400 * a + 1 + 100 * b + 4 * c + d) mod 4 = (d + 1) mod 4"
    unfolding e4 by (rule mod_mult_self2)
  have m100: "(400 * a + 1 + 100 * b + 4 * c + d) mod 100 = (4 * c + d + 1) mod 100"
    unfolding e100 by (rule mod_mult_self2)
  have m400: "(400 * a + 1 + 100 * b + 4 * c + d) mod 400 = (100 * b + 4 * c + d + 1) mod 400"
    unfolding e400 by (rule mod_mult_self2)
  show ?thesis
  proof (cases "d = 3")
    case False
    then have "d + 1 < 4" using assms(3) by simp
    then have "(d + 1) mod 4 = d + 1" by simp
    then show ?thesis unfolding is_leap_def m4 using False by simp
  next
    case True
    note d3 = True
    have 1: "(d + 1) mod 4 = 0" using True by simp
    show ?thesis
    proof (cases "c = 24")
      case False
      then have "4 * c + d + 1 < 100" using assms(2) d3 by simp
      then have "(4 * c + d + 1) mod 100 = 4 * c + d + 1" by simp
      then show ?thesis unfolding is_leap_def m4 m100 using 1 d3 False by simp
    next
      case True
      note c24 = True
      have 2: "(4 * c + d + 1) mod 100 = 0" using d3 c24 by simp
      show ?thesis
      proof (cases "b = 3")
        case True
        then have "(100 * b + 4 * c + d + 1) mod 400 = 0" using d3 c24 by simp
        then show ?thesis unfolding is_leap_def m4 m100 m400 using 1 2 d3 c24 True by simp
      next
        case False
        then have "100 * b + 4 * c + d + 1 < 400" using assms(1) d3 c24 by simp
        then have "(100 * b + 4 * c + d + 1) mod 400 = 100 * b + 4 * c + d + 1" by simp
        then show ?thesis unfolding is_leap_def m4 m100 m400 using 1 2 d3 c24 False by simp
      qed
    qed
  qed
qed

lemma ymd2ord_ord2ymd:
  assumes "1 \<le> n" and "ord2ymd n = (y, m, d)"
  shows "ymd2ord y m d = n"
proof -
  define a where "a = (n - 1) div 146097"
  define b where "b = (n - 1) mod 146097 div 36524"
  define c where "c = (n - 1) mod 146097 mod 36524 div 1461"
  define e where "e = (n - 1) mod 146097 mod 36524 mod 1461 div 365"
  define r where "r = (n - 1) mod 146097 mod 36524 mod 1461 mod 365"
  define L where "L = (e = 3 \<and> (c \<noteq> 24 \<or> b = 3))"
  define m0 where "m0 = (r + 50) div 32"
  define p where "p = DAYS_BEFORE_MONTH ! m0 + (if m0 > 2 \<and> L then 1 else 0)"
  define Y where "Y = a * 400 + 1 + b * 100 + c * 4 + e"
  note defs = a_def b_def c_def e_def r_def
  have n_eq: "n = 146097 * a + 36524 * b + 1461 * c + 365 * e + r + 1"
    unfolding defs by (rule ord_split(1)[OF assms(1)])
  have bnd: "b \<le> 4" "c \<le> 24" "e \<le> 4" "r < 365"
    unfolding defs by (rule ord_split[OF assms(1)])+
  have b4: "b = 4 \<Longrightarrow> c = 0 \<and> e = 0 \<and> r = 0"
    unfolding defs by (rule ord_split(6)[OF assms(1)])
  have e4: "e = 4 \<Longrightarrow> r = 0 \<and> c \<le> 23"
    unfolding defs by (rule ord_split(7)[OF assms(1)])
  have o: "ord2ymd n =
     (if e = 4 \<or> b = 4 then (Y - 1, 12, 31)
      else if p > r
        then (Y, m0 - 1,
              r - (p - (DAYS_IN_MONTH ! (m0 - 1) + (if m0 - 1 = 2 \<and> L then 1 else 0))) + 1)
        else (Y, m0, r - p + 1))"
    unfolding ord2ymd_def Let_def defs L_def m0_def p_def Y_def by (rule refl)
  have dbm12: "DAYS_BEFORE_MONTH ! 12 = 334" by (simp add: DAYS_BEFORE_MONTH_def)
  show ?thesis
  proof (cases "e = 4 \<or> b = 4")
    case True
    then have ymd: "y = Y - 1" "m = 12" "d = 31" using o assms(2) by simp_all
    show ?thesis
    proof (cases "b = 4")
      case True
      then have z: "c = 0" "e = 0" "r = 0" using b4 by simp_all
      have y1: "y - 1 = 400 * a + 100 * 3 + 4 * 24 + 3" unfolding ymd Y_def z True by simp
      have yl: "y = 400 * a + 1 + 100 * 3 + 4 * 24 + 3" unfolding ymd Y_def z True by simp
      have "days_before_year y = 146097 * a + 36524 * 3 + 1461 * 24 + 365 * 3"
        by (rule days_before_year_split[OF y1]) simp_all
      moreover have "is_leap y" unfolding yl by (subst is_leap_split) simp_all
      ultimately show ?thesis unfolding ymd2ord_def days_before_month_def n_eq z True ymd(2,3) dbm12
        by simp
    next
      case False
      then have e: "e = 4" using True by simp
      then have z: "r = 0" "c \<le> 23" using e4 by simp_all
      have b: "b < 4" using False bnd(1) by simp
      have y1: "y - 1 = 400 * a + 100 * b + 4 * c + 3" unfolding ymd Y_def e by simp
      have yl: "y = 400 * a + 1 + 100 * b + 4 * c + 3" unfolding ymd Y_def e by simp
      have "days_before_year y = 146097 * a + 36524 * b + 1461 * c + 365 * 3"
        by (rule days_before_year_split[OF y1]) (use b z in simp_all)
      moreover have "is_leap y" unfolding yl by (subst is_leap_split) (use b z in simp_all)
      ultimately show ?thesis unfolding ymd2ord_def days_before_month_def n_eq z e ymd(2,3) dbm12
        by simp
    qed
  next
    case False
    then have lt: "b < 4" "c < 25" "e < 4" using bnd by simp_all
    have y1: "Y - 1 = 400 * a + 100 * b + 4 * c + e" unfolding Y_def by simp
    have yl: "Y = 400 * a + 1 + 100 * b + 4 * c + e" unfolding Y_def by simp
    have base: "days_before_year Y = 146097 * a + 36524 * b + 1461 * c + 365 * e"
      by (rule days_before_year_split[OF y1 lt])
    have leap: "is_leap Y = L" unfolding yl L_def by (rule is_leap_split[OF lt])
    note mp = month_part[OF bnd(4) m0_def p_def]
    show ?thesis
    proof (cases "p > r")
      case True
      define p' where "p' = DAYS_BEFORE_MONTH ! (m0 - 1) + (if m0 - 1 > 2 \<and> L then 1 else 0)"
      have 1: "p - (DAYS_IN_MONTH ! (m0 - 1) + (if m0 - 1 = 2 \<and> L then 1 else 0)) = p'"
        and 2: "p' \<le> r" using mp True unfolding p'_def by simp_all
      have ymd: "y = Y" "m = m0 - 1" "d = r - p' + 1"
        using o assms(2) False True 1 by simp_all
      have "days_before_month Y (m0 - 1) = p'"
        unfolding days_before_month_def p'_def leap by simp
      then show ?thesis unfolding ymd2ord_def ymd base n_eq using 2 by simp
    next
      case F: False
      have ymd: "y = Y" "m = m0" "d = r - p + 1"
        using o assms(2) False F by simp_all
      have "days_before_month Y m0 = p"
        unfolding days_before_month_def p_def leap by simp
      then show ?thesis unfolding ymd2ord_def ymd base n_eq using F by simp
    qed
  qed
qed

section \<open>Adding hours\<close>

lemma day_seconds:
  fixes h r :: nat
  assumes "r < 3600"
  shows "(h * 3600 + r) div 86400 = h div 24"
    and "(h * 3600 + r) mod 86400 = (h mod 24) * 3600 + r"
proof -
  define q where "q = h div 24"
  define m where "m = h mod 24"
  have h: "h = 24 * q + m" unfolding q_def m_def by simp
  have m: "m < 24" unfolding m_def by simp
  have e: "h * 3600 + r = (m * 3600 + r) + 86400 * q" unfolding h by simp
  have lt: "m * 3600 + r < 86400" using m assms by linarith
  show "(h * 3600 + r) div 86400 = h div 24"
    unfolding e q_def[symmetric] using lt by simp
  show "(h * 3600 + r) mod 86400 = (h mod 24) * 3600 + r"
    unfolding e m_def[symmetric] using lt by simp
qed

lemma add_hours_fields:
  assumes "minute t < 60" "second t < 60" "add_hours t i = Inr t'"
  shows "hour t' = (hour t + i) mod 24" "minute t' = minute t" "second t' = second t"
    "microsecond t' = microsecond t"
    "ord2ymd (toordinal t + (hour t + i) div 24) = (year t', month t', day t')"
    "0 < toordinal t + (hour t + i) div 24"
proof -
  define r where "r = minute t * 60 + second t"
  define h where "h = hour t + i"
  define m where "m = h mod 24"
  have r: "r < 3600" unfolding r_def using assms(1,2) by linarith
  have secs: "hour t * 3600 + minute t * 60 + second t + i * 3600 = h * 3600 + r"
    unfolding h_def r_def by simp
  have 1: "(m * 3600 + r) div 3600 = m" using r by simp
  have 2: "(m * 3600 + r) mod 3600 = r" using r by simp
  have 3: "r div 60 = minute t" unfolding r_def using assms(2) by simp
  have e4: "m * 3600 + r = second t + 60 * (m * 60 + minute t)" unfolding r_def by simp
  have "(second t + 60 * (m * 60 + minute t)) mod 60 = second t mod 60" by (rule mod_mult_self2)
  then have 4: "(m * 3600 + r) mod 60 = second t" unfolding e4 using assms(2) by (simp only: mod_less)
  show "hour t' = (hour t + i) mod 24" "minute t' = minute t" "second t' = second t"
    "microsecond t' = microsecond t"
    "ord2ymd (toordinal t + (hour t + i) div 24) = (year t', month t', day t')"
    "0 < toordinal t + (hour t + i) div 24"
    using assms(3) unfolding add_hours_def Let_def secs day_seconds[OF r] m_def[symmetric] 1 2 3 4
    unfolding h_def m_def
    by (auto split: if_splits prod.splits)
qed


lemma add_hours_toordinal:
  assumes "minute t < 60" "second t < 60" "add_hours t i = Inr t'"
  shows "toordinal t' = toordinal t + (hour t + i) div 24"
proof -
  have "1 \<le> toordinal t + (hour t + i) div 24"
    using add_hours_fields(6)[OF assms] by linarith
  then show ?thesis
    unfolding toordinal_def[of t'] by (rule ymd2ord_ord2ymd[OF _ add_hours_fields(5)[OF assms]])
qed

section \<open>Formatting\<close>

lemma c_strftime_plain:
  "CHR ''%'' \<noteq> c \<Longrightarrow> c_strftime lc (c # xs) t = and_then (c_strftime lc xs t) ((#) c)"
  by (cases xs) (auto simp add: and_then_def)

lemma c_strftime_no_percent:
  "CHR ''%'' \<notin> set s \<Longrightarrow> c_strftime lc s t = Inr s"
  by (induction s) (simp_all add: c_strftime_plain and_then_def)

lemma group_url_at_plain:
  assumes "CHR ''%'' \<notin> set level" "CHR ''%'' \<notin> set param"
    and "CHR 0x00 \<notin> set level" "CHR 0x00 \<notin> set param"
    and "1000 \<le> year t" "year t \<le> 9999"
  shows "group_url_at lc t level param = Inr (path_convention t level param)"
proof -
  have tail: "c_strftime lc (level @ ''/'' @ param) t = Inr (level @ ''/'' @ param)"
    by (rule c_strftime_no_percent) (use assms in simp)
  have whole: "takeWhile (\<lambda>c. c \<noteq> CHR 0x00) (group_url_format level param)
                 = group_url_format level param"
    unfolding takeWhile_eq_all_conv group_url_format_def using assms(3,4) by auto
  show ?thesis
    unfolding group_url_at_def strftime_def whole
    unfolding group_url_format_def path_convention_def
    using assms(5,6) by (simp add: c_strftime_plain and_then_def tail[simplified])
qed


section \<open>The URLs a run opens\<close>

lemma hour_urls_time:
  assumes "hour_urls lc start_date i level param = Inr u"
  shows "add_hours start_date i = Inr (fst u)"
  using assms unfolding hour_urls_def by (auto split: sum.splits)

lemma hour_urls_plain:
  assumes "valid_datetime start_date" "CHR ''%'' \<notin> set level" "CHR ''%'' \<notin> set param"
    and "CHR 0x00 \<notin> set level" "CHR 0x00 \<notin> set param"
    and "add_hours start_date i = Inr time" "1000 \<le> year time" "year time \<le> 9999"
  shows "hour_urls lc start_date i level param
           = Inr (time, path_convention time level param,
                  path_convention time level param @ ''/'' @ level)"
    and "hour time = (hour start_date + i) mod 24"
    and "toordinal time = toordinal start_date + (hour start_date + i) div 24"
proof -
  have ms: "minute start_date < 60" "second start_date < 60"
    using assms(1) unfolding valid_datetime_def by simp_all
  show "hour time = (hour start_date + i) mod 24"
    by (rule add_hours_fields(1)[OF ms assms(6)])
  show "toordinal time = toordinal start_date + (hour start_date + i) div 24"
    by (rule add_hours_toordinal[OF ms assms(6)])
  show "hour_urls lc start_date i level param
           = Inr (time, path_convention time level param,
                  path_convention time level param @ ''/'' @ level)"
    unfolding hour_urls_def assms(6) subgroup_url_of_def
    by (simp add: group_url_at_plain[OF assms(2,3,4,5,7,8)])
qed

lemma combine_hours_trace:
  assumes "combine_hours E start_date level param is (c, tr0) = (r, tr)"
  shows "\<exists>us. tr = tr0 @ map (\<lambda>u. [fst (snd u), snd (snd u)]) us \<and> length us \<le> length is
          \<and> (\<forall>j<length us. hour_urls (libc E) start_date (is ! j) level param = Inr (us ! j))
          \<and> ((\<exists>x. r = Inr x) \<longrightarrow> length us = length is)"
  using assms
proof (induction "is" arbitrary: c tr0)
  case Nil
  then show ?case by simp
next
  case (Cons i rest)
  show ?case
  proof (cases "hour_urls (libc E) start_date i level param")
    case (Inl e)
    then have "tr = tr0" "r = Inl e" using Cons.prems by simp_all
    then show ?thesis by (intro exI[of _ "[]"]) simp
  next
    case (Inr u)
    obtain time g s where u: "u = (time, g, s)" by (cases u) auto
    have one: ?thesis if "tr = tr0 @ [[g, s]]" "\<exists>e. r = Inl e"
      using that Inr u by (intro exI[of _ "[u]"]) auto
    have more: ?thesis if "combine_hours E start_date level param rest (c', tr0 @ [[g, s]]) = (r, tr)" for c'
    proof -
      from Cons.IH[OF that] obtain us where
        us: "tr = (tr0 @ [[g, s]]) @ map (\<lambda>u. [fst (snd u), snd (snd u)]) us"
          "length us \<le> length rest"
          "\<forall>j<length us. hour_urls (libc E) start_date (rest ! j) level param = Inr (us ! j)"
          "(\<exists>x. r = Inr x) \<longrightarrow> length us = length rest" by blast
      show ?thesis
      proof (intro exI[of _ "u # us"] conjI)
        show "tr = tr0 @ map (\<lambda>u. [fst (snd u), snd (snd u)]) (u # us)" using us(1) u by simp
        show "length (u # us) \<le> length (i # rest)" using us(2) by simp
        show "\<forall>j<length (u # us). hour_urls (libc E) start_date ((i # rest) ! j) level param = Inr ((u # us) ! j)"
          using us(3) Inr by (auto simp: nth_Cons split: nat.splits)
        show "(\<exists>x. r = Inr x) \<longrightarrow> length (u # us) = length (i # rest)" using us(4) by simp
      qed
    qed
    show ?thesis
      using Cons.prems Inr u one more
      by (auto split: sum.splits option.splits if_splits)
  qed
qed


lemma load_hours_trace:
  assumes "load_hours E start_date level param is (ds0, tr0) = (r, tr)"
  shows "\<exists>us. tr = tr0 @ map (\<lambda>u. [snd (snd u)]) us \<and> length us \<le> length is
          \<and> (\<forall>j<length us. hour_urls (libc E) start_date (is ! j) level param = Inr (us ! j))
          \<and> ((\<exists>x. r = Inr x) \<longrightarrow> length us = length is)"
  using assms
proof (induction "is" arbitrary: ds0 tr0)
  case Nil
  then show ?case by simp
next
  case (Cons i rest)
  show ?case
  proof (cases "hour_urls (libc E) start_date i level param")
    case (Inl e)
    then have "tr = tr0" "r = Inl e" using Cons.prems by simp_all
    then show ?thesis by (intro exI[of _ "[]"]) simp
  next
    case (Inr u)
    obtain time g s where u: "u = (time, g, s)" by (cases u) auto
    have one: ?thesis if "tr = tr0 @ [[s]]" "\<exists>e. r = Inl e"
      using that Inr u by (intro exI[of _ "[u]"]) auto
    have more: ?thesis if "load_hours E start_date level param rest (ds', tr0 @ [[s]]) = (r, tr)" for ds'
    proof -
      from Cons.IH[OF that] obtain us where
        us: "tr = (tr0 @ [[s]]) @ map (\<lambda>u. [snd (snd u)]) us"
          "length us \<le> length rest"
          "\<forall>j<length us. hour_urls (libc E) start_date (rest ! j) level param = Inr (us ! j)"
          "(\<exists>x. r = Inr x) \<longrightarrow> length us = length rest" by blast
      show ?thesis
      proof (intro exI[of _ "u # us"] conjI)
        show "tr = tr0 @ map (\<lambda>u. [snd (snd u)]) (u # us)" using us(1) u by simp
        show "length (u # us) \<le> length (i # rest)" using us(2) by simp
        show "\<forall>j<length (u # us). hour_urls (libc E) start_date ((i # rest) ! j) level param = Inr ((u # us) ! j)"
          using us(3) Inr by (auto simp: nth_Cons split: nat.splits)
        show "(\<exists>x. r = Inr x) \<longrightarrow> length (u # us) = length (i # rest)" using us(4) by simp
      qed
    qed
    show ?thesis
      using Cons.prems Inr u one more
      by (auto split: sum.splits)
  qed
qed


section \<open>Running the notebooks on the small archive\<close>

lemmas date_eval = toordinal_def ymd2ord_def days_before_year_def days_before_month_def
  is_leap_def DAYS_BEFORE_MONTH_def DAYS_IN_MONTH_def ord2ymd_def add_hours_def MAXORDINAL_def
  Let_def

lemmas url_eval = group_url_at_def strftime_def group_url_format_def subgroup_url_of_def
  and_then_def zero_padded_def digit_char_def upt_rec

lemmas ds_eval = bind_err_def xr_rename_def rename_name_def rename_grid_def xy_names_def
  var_names_def ds_dims_def var_dims_def assign_crs_def assign_coord_def
  assign_latitude_longitude_def has_grid_var_def xy_coords_def crs_of_def
  latitude_grid_def longitude_grid_def set_coords_def setitem_scalar_def scalar_grid_def
  demo_x_def demo_y_def demo_tmp_def

lemmas concat_eval = xr_concat_def concat_ok_def concat_var_def concat_over_def
  compatible_var_def lookup_var_def var_names_def grids_def same_layout_def is_index_def
  is_series_def slices_def steps_def time_len_def merge_attrs_def drop_conflicts_step_def

lemma demo_valid: "valid_datetime new_years_eve"
  by (simp add: valid_datetime_def new_years_eve_def days_in_month_def DAYS_IN_MONTH_def)

lemma demo_add_0: "add_hours new_years_eve 0 = Inr new_years_eve"
  by (simp add: new_years_eve_def date_eval)

lemma demo_add_1: "add_hours new_years_eve 1 = Inr new_years_day"
  by (simp add: new_years_eve_def new_years_day_def date_eval)

lemma demo_urls_0:
  "hour_urls (libc demo_env) new_years_eve 0 ''1000mb'' ''TMP'' =
     Inr (new_years_eve,
          ''s3://hrrrzarr/sfc/20211231/20211231_23z_anl.zarr/1000mb/TMP'',
          ''s3://hrrrzarr/sfc/20211231/20211231_23z_anl.zarr/1000mb/TMP/1000mb'')"
  unfolding hour_urls_def demo_add_0 by (simp add: url_eval new_years_eve_def)

lemma demo_urls_1:
  "hour_urls (libc demo_env) new_years_eve 1 ''1000mb'' ''TMP'' =
     Inr (new_years_day,
          ''s3://hrrrzarr/sfc/20220101/20220101_00z_anl.zarr/1000mb/TMP'',
          ''s3://hrrrzarr/sfc/20220101/20220101_00z_anl.zarr/1000mb/TMP/1000mb'')"
  unfolding hour_urls_def demo_add_1 by (simp add: url_eval new_years_day_def)

lemma demo_load_dataset_0:
  "load_dataset demo_env
     [''s3://hrrrzarr/sfc/20211231/20211231_23z_anl.zarr/1000mb/TMP'',
      ''s3://hrrrzarr/sfc/20211231/20211231_23z_anl.zarr/1000mb/TMP/1000mb'']
   = Inr (demo_loaded new_years_eve 10)"
  unfolding load_dataset_def
  by (simp add: demo_env_def demo_hour_def ds_eval demo_loaded_def insert_commute)

lemma demo_load_dataset_1:
  "load_dataset demo_env
     [''s3://hrrrzarr/sfc/20220101/20220101_00z_anl.zarr/1000mb/TMP'',
      ''s3://hrrrzarr/sfc/20220101/20220101_00z_anl.zarr/1000mb/TMP/1000mb'']
   = Inr (demo_loaded new_years_day 20)"
  unfolding load_dataset_def
  by (simp add: demo_env_def demo_hour_def ds_eval demo_loaded_def insert_commute)

lemma demo_stamps: "new_years_eve \<noteq> new_years_day"
  by (simp add: new_years_eve_def new_years_day_def)

lemma demo_concat:
  "xr_concat DropConflicts [demo_loaded new_years_eve 10, demo_loaded new_years_day 20]
   = Inr demo_combined"
  by (simp add: concat_eval demo_loaded_def demo_combined_def demo_tmp_series_def demo_tmp_grids_def
      demo_time_series_def demo_stamps)

lemma demo_bool: "ds_bool (demo_loaded t v)"
  by (simp add: ds_bool_def data_var_names_def var_names_def demo_loaded_def)

lemma demo_run:
  "load_combined_dataset demo_env new_years_eve 2 ''1000mb'' ''TMP'' =
     (Inr (Some demo_combined),
      [[''s3://hrrrzarr/sfc/20211231/20211231_23z_anl.zarr/1000mb/TMP'',
        ''s3://hrrrzarr/sfc/20211231/20211231_23z_anl.zarr/1000mb/TMP/1000mb''],
       [''s3://hrrrzarr/sfc/20220101/20220101_00z_anl.zarr/1000mb/TMP'',
        ''s3://hrrrzarr/sfc/20220101/20220101_00z_anl.zarr/1000mb/TMP/1000mb'']])"
proof -
  have u: "[0..<nat 2] = [0, 1]" by (simp add: upt_rec)
  show ?thesis
    unfolding load_combined_dataset_def u
    by (simp add: demo_urls_0 demo_urls_1[simplified] demo_load_dataset_0 demo_load_dataset_1
        demo_concat demo_bool)
qed


lemma demo_grid_url:
  "group_url_at (libc demo_env) new_years_eve ''1000mb'' ''TMP'' =
     Inr ''s3://hrrrzarr/sfc/20211231/20211231_23z_anl.zarr/1000mb/TMP''"
  by (simp add: url_eval new_years_eve_def)

lemma demo_load_grid:
  "load demo_env ''s3://hrrrzarr/sfc/20211231/20211231_23z_anl.zarr/1000mb/TMP'' None
   = Inr demo_grid_loaded"
  unfolding load_def
  by (simp add: demo_env_def demo_grid_def ds_eval demo_grid_loaded_def insert_commute)

lemma demo_load_0:
  "load demo_env ''s3://hrrrzarr/sfc/20211231/20211231_23z_anl.zarr/1000mb/TMP/1000mb''
     (Some new_years_eve) = Inr (demo_data_loaded new_years_eve 10)"
  unfolding load_def
  by (simp add: demo_env_def demo_data_def ds_eval demo_data_loaded_def)

lemma demo_load_1:
  "load demo_env ''s3://hrrrzarr/sfc/20220101/20220101_00z_anl.zarr/1000mb/TMP/1000mb''
     (Some new_years_day) = Inr (demo_data_loaded new_years_day 20)"
  unfolding load_def
  by (simp add: demo_env_def demo_data_def ds_eval demo_data_loaded_def)

lemma demo_load_hours:
  "load_hours demo_env new_years_eve ''1000mb'' ''TMP'' [0..<nat 2] ([], tr) =
     (Inr [demo_data_loaded new_years_eve 10, demo_data_loaded new_years_day 20],
      tr @ [[''s3://hrrrzarr/sfc/20211231/20211231_23z_anl.zarr/1000mb/TMP/1000mb''],
            [''s3://hrrrzarr/sfc/20220101/20220101_00z_anl.zarr/1000mb/TMP/1000mb'']])"
proof -
  have u: "[0..<nat 2] = [0, 1]" by (simp add: upt_rec)
  show ?thesis
    unfolding u by (simp add: demo_urls_0 demo_urls_1[simplified] demo_load_0 demo_load_1)
qed

lemma demo_concat_override:
  "xr_concat Override [demo_data_loaded new_years_eve 10, demo_data_loaded new_years_day 20]
   = Inr demo_stacked"
  by (simp add: concat_eval demo_data_loaded_def demo_stacked_def demo_tmp_series_def demo_tmp_grids_def
      demo_time_series_def)

lemmas item_eval = xr_getitem_def setitem_da_def lookup_var_def
  var_dims_def ds_dims_def ds_sizes_def sizes_agree_def is_index_def var_names_def Let_def

lemma demo_getitem_x:
  "xr_getitem ''x'' demo_grid_loaded =
     Inr \<lparr>da_var = Fixed \<lparr>dims = [''x''], shape = [2], elems = [Num 0, Num 3]\<rparr>,
          da_coords =
            [(''x'', Fixed \<lparr>dims = [''x''], shape = [2], elems = [Num 0, Num 3]\<rparr>),
             (''time'', Fixed \<lparr>dims = [], shape = [], elems = [PyNone]\<rparr>)]\<rparr>"
  by (simp add: item_eval demo_grid_loaded_def)

lemma demo_getitem_y:
  "xr_getitem ''y'' demo_grid_loaded =
     Inr \<lparr>da_var = Fixed \<lparr>dims = [''y''], shape = [1], elems = [Num 0]\<rparr>,
          da_coords =
            [(''y'', Fixed \<lparr>dims = [''y''], shape = [1], elems = [Num 0]\<rparr>),
             (''time'', Fixed \<lparr>dims = [], shape = [], elems = [PyNone]\<rparr>)]\<rparr>"
  by (simp add: item_eval demo_grid_loaded_def)

lemma demo_setitem_x:
  "setitem_da ''x''
     \<lparr>da_var = Fixed \<lparr>dims = [''x''], shape = [2], elems = [Num 0, Num 3]\<rparr>,
      da_coords =
        [(''x'', Fixed \<lparr>dims = [''x''], shape = [2], elems = [Num 0, Num 3]\<rparr>),
         (''time'', Fixed \<lparr>dims = [], shape = [], elems = [PyNone]\<rparr>)]\<rparr>
     demo_stacked =
   Inr \<lparr>variables =
          [(''TMP'', demo_tmp_series), (''time'', demo_time_series),
           (''x'', Fixed \<lparr>dims = [''x''], shape = [2], elems = [Num 0, Num 3]\<rparr>)],
        coord_names = {''time'', ''x''}, attrs = []\<rparr>"
  by (simp add: item_eval demo_stacked_def demo_tmp_series_def demo_tmp_grids_def demo_time_series_def
      insert_commute)

lemma demo_setitem_y:
  "setitem_da ''y''
     \<lparr>da_var = Fixed \<lparr>dims = [''y''], shape = [1], elems = [Num 0]\<rparr>,
      da_coords =
        [(''y'', Fixed \<lparr>dims = [''y''], shape = [1], elems = [Num 0]\<rparr>),
         (''time'', Fixed \<lparr>dims = [], shape = [], elems = [PyNone]\<rparr>)]\<rparr>
     \<lparr>variables =
          [(''TMP'', demo_tmp_series), (''time'', demo_time_series),
           (''x'', Fixed \<lparr>dims = [''x''], shape = [2], elems = [Num 0, Num 3]\<rparr>)],
        coord_names = {''time'', ''x''}, attrs = []\<rparr> =
   Inr \<lparr>variables =
          [(''TMP'', demo_tmp_series), (''time'', demo_time_series),
           (''x'', Fixed \<lparr>dims = [''x''], shape = [2], elems = [Num 0, Num 3]\<rparr>),
           (''y'', Fixed \<lparr>dims = [''y''], shape = [1], elems = [Num 0]\<rparr>)],
        coord_names = {''time'', ''x'', ''y''}, attrs = []\<rparr>"
  by (simp add: item_eval demo_tmp_series_def demo_tmp_grids_def demo_time_series_def insert_commute)

lemma demo_add_grid:
  "add_grid demo_grid_loaded demo_stacked =
     Inr \<lparr>variables =
            [(''TMP'', demo_tmp_series), (''time'', demo_time_series),
             (''x'', Fixed \<lparr>dims = [''x''], shape = [2], elems = [Num 0, Num 3]\<rparr>),
             (''y'', Fixed \<lparr>dims = [''y''], shape = [1], elems = [Num 0]\<rparr>)],
          coord_names = {''time'', ''x'', ''y''}, attrs = []\<rparr>"
  unfolding add_grid_def demo_getitem_x demo_getitem_y bind_err_def sum.case demo_setitem_x
    demo_setitem_y by (rule refl)

lemma demo_transform: "transform demo_env cf (Num a) (Num b) = (Num (a + 100), Num (b + 50))"
  by (simp add: demo_env_def)

lemma demo_run_not_mf:
  "load_combined_dataset_not_mf demo_env new_years_eve 2 ''1000mb'' ''TMP'' =
     (Inr demo_combined_not_mf,
      [[''s3://hrrrzarr/sfc/20211231/20211231_23z_anl.zarr/1000mb/TMP''],
       [''s3://hrrrzarr/sfc/20211231/20211231_23z_anl.zarr/1000mb/TMP/1000mb''],
       [''s3://hrrrzarr/sfc/20220101/20220101_00z_anl.zarr/1000mb/TMP/1000mb'']])"
  unfolding load_combined_dataset_not_mf_def demo_grid_url
  by (simp add: demo_load_grid demo_load_hours[simplified] demo_concat_override demo_add_grid
        ds_eval demo_combined_not_mf_def demo_tmp_series_def demo_tmp_grids_def demo_time_series_def
        insert_commute demo_transform)


section \<open>URL templating\<close>

lemma opens_of_a_run:
  assumes "load_combined_dataset E start_date num_hours level param = (Inr r, tr)"
  shows "length tr = nat num_hours"
    and "\<forall>i<nat num_hours. \<exists>time g s.
           hour_urls (libc E) start_date i level param = Inr (time, g, s) \<and> tr ! i = [g, s]"
proof -
  from combine_hours_trace[OF assms[unfolded load_combined_dataset_def]] obtain us where
    us: "tr = map (\<lambda>u. [fst (snd u), snd (snd u)]) us" "length us = nat num_hours"
      "\<forall>j<length us. hour_urls (libc E) start_date ([0..<nat num_hours] ! j) level param = Inr (us ! j)"
    by auto
  show "length tr = nat num_hours" using us(1,2) by simp
  show "\<forall>i<nat num_hours. \<exists>time g s.
           hour_urls (libc E) start_date i level param = Inr (time, g, s) \<and> tr ! i = [g, s]"
  proof (intro allI impI)
    fix i assume i: "i < nat num_hours"
    then have "hour_urls (libc E) start_date i level param = Inr (us ! i)" using us(2,3) by simp
    moreover have "tr ! i = [fst (snd (us ! i)), snd (snd (us ! i))]" using us(1,2) i by simp
    ultimately show "\<exists>time g s.
           hour_urls (libc E) start_date i level param = Inr (time, g, s) \<and> tr ! i = [g, s]"
      by (intro exI[of _ "fst (us ! i)"] exI[of _ "fst (snd (us ! i))"]
          exI[of _ "snd (snd (us ! i))"]) simp
  qed
qed

lemma opens_of_a_run_not_mf:
  assumes "load_combined_dataset_not_mf E start_date num_hours level param = (Inr ds, tr)"
  shows "length tr = Suc (nat num_hours)"
    and "\<exists>g0. group_url_at (libc E) start_date level param = Inr g0 \<and> tr ! 0 = [g0]"
    and "\<forall>i<nat num_hours. \<exists>time g s.
           hour_urls (libc E) start_date i level param = Inr (time, g, s) \<and> tr ! Suc i = [s]"
proof -
  from assms obtain g0 where g0: "group_url_at (libc E) start_date level param = Inr g0"
    unfolding load_combined_dataset_not_mf_def by (auto split: sum.splits)
  obtain r2 tr2 where lh: "load_hours E start_date level param [0..<nat num_hours] ([], [[g0]]) = (r2, tr2)"
    by (cases "load_hours E start_date level param [0..<nat num_hours] ([], [[g0]])")
  from assms g0 lh have tr: "tr = tr2" and r2: "\<exists>x. r2 = Inr x"
    unfolding load_combined_dataset_not_mf_def by (auto split: sum.splits)
  from load_hours_trace[OF lh] r2 obtain us where
    us: "tr2 = [[g0]] @ map (\<lambda>u. [snd (snd u)]) us" "length us = nat num_hours"
      "\<forall>j<length us. hour_urls (libc E) start_date ([0..<nat num_hours] ! j) level param = Inr (us ! j)"
    by auto
  show "length tr = Suc (nat num_hours)" unfolding tr us(1) using us(2) by simp
  show "\<exists>g0. group_url_at (libc E) start_date level param = Inr g0 \<and> tr ! 0 = [g0]"
    using g0 unfolding tr us(1) by simp
  show "\<forall>i<nat num_hours. \<exists>time g s.
           hour_urls (libc E) start_date i level param = Inr (time, g, s) \<and> tr ! Suc i = [s]"
  proof (intro allI impI)
    fix i assume i: "i < nat num_hours"
    then have "hour_urls (libc E) start_date i level param = Inr (us ! i)" using us(2,3) by simp
    moreover have "tr ! Suc i = [snd (snd (us ! i))]" unfolding tr us(1) using us(2) i by simp
    ultimately show "\<exists>time g s.
           hour_urls (libc E) start_date i level param = Inr (time, g, s) \<and> tr ! Suc i = [s]"
      by (intro exI[of _ "fst (us ! i)"] exI[of _ "fst (snd (us ! i))"]
          exI[of _ "snd (snd (us ! i))"]) simp
  qed
qed

text \<open>
  C1.  The function takes the level literally where it appends \<open>"/" + level\<close> to make
  the subgroup URL, but splices the same level, and the variable name, into the format
  that \<open>strftime\<close> then reads.  For 23:00 on 31 December 2021 and \<open>level = "%H"\<close> the
  group URL is \<open>.../20211231_23z_anl.zarr/23/TMP\<close>, with the hour where the path convention
  has the level, and the subgroup URL is \<open>.../20211231_23z_anl.zarr/23/TMP/%H\<close>: the two
  places of the level in one URL disagree.  This is so on every platform and for every
  archive: these are the URLs of the one open of a run of one hour in the notebook with
  \<open>open_mfdataset\<close>, and the first is the first open in the notebook with \<open>open_dataset\<close>.
\<close>

theorem level_directive_expanded:
  "hour_urls lc new_years_eve 0 ''%H'' ''TMP''
     = Inr (new_years_eve,
            ''s3://hrrrzarr/sfc/20211231/20211231_23z_anl.zarr/23/TMP'',
            ''s3://hrrrzarr/sfc/20211231/20211231_23z_anl.zarr/23/TMP/%H'')
   \<and> snd (load_combined_dataset E new_years_eve 1 ''%H'' ''TMP'')
     = [[''s3://hrrrzarr/sfc/20211231/20211231_23z_anl.zarr/23/TMP'',
         ''s3://hrrrzarr/sfc/20211231/20211231_23z_anl.zarr/23/TMP/%H'']]
   \<and> hd (snd (load_combined_dataset_not_mf E new_years_eve 1 ''%H'' ''TMP''))
     = [''s3://hrrrzarr/sfc/20211231/20211231_23z_anl.zarr/23/TMP'']"
proof (intro conjI)
  have g: "group_url_at lc new_years_eve ''%H'' ''TMP''
             = Inr ''s3://hrrrzarr/sfc/20211231/20211231_23z_anl.zarr/23/TMP''" for lc
    by (simp add: url_eval new_years_eve_def)
  show u: "hour_urls lc new_years_eve 0 ''%H'' ''TMP''
     = Inr (new_years_eve,
            ''s3://hrrrzarr/sfc/20211231/20211231_23z_anl.zarr/23/TMP'',
            ''s3://hrrrzarr/sfc/20211231/20211231_23z_anl.zarr/23/TMP/%H'')" for lc
    unfolding hour_urls_def demo_add_0 by (simp add: g subgroup_url_of_def)
  have n: "[0..<nat 1] = [0]" by simp
  show "snd (load_combined_dataset E new_years_eve 1 ''%H'' ''TMP'')
     = [[''s3://hrrrzarr/sfc/20211231/20211231_23z_anl.zarr/23/TMP'',
         ''s3://hrrrzarr/sfc/20211231/20211231_23z_anl.zarr/23/TMP/%H'']]"
    unfolding load_combined_dataset_def n by (simp add: u split: sum.splits)
  obtain r tr where
    lh: "load_hours E new_years_eve ''%H'' ''TMP'' [0..<nat 1]
           ([], [[''s3://hrrrzarr/sfc/20211231/20211231_23z_anl.zarr/23/TMP'']]) = (r, tr)"
    by (cases "load_hours E new_years_eve ''%H'' ''TMP'' [0..<nat 1]
           ([], [[''s3://hrrrzarr/sfc/20211231/20211231_23z_anl.zarr/23/TMP'']])")
  from load_hours_trace[OF lh] have
    "hd tr = [''s3://hrrrzarr/sfc/20211231/20211231_23z_anl.zarr/23/TMP'']" by auto
  then show "hd (snd (load_combined_dataset_not_mf E new_years_eve 1 ''%H'' ''TMP''))
     = [''s3://hrrrzarr/sfc/20211231/20211231_23z_anl.zarr/23/TMP'']"
    unfolding load_combined_dataset_not_mf_def using lh by (simp add: g split: sum.splits)
qed

section \<open>No hours\<close>

text \<open>
  C9.  With \<open>num_hours = 0\<close> the loop of the notebook with \<open>open_mfdataset\<close> never runs:
  the function returns \<open>None\<close>, and the trace is empty, so no URL was built and no
  remote open attempted.
\<close>

theorem zero_hours_returns_none:
  "load_combined_dataset E start_date 0 level param_short_name = (Inr None, [])"
  by (simp add: load_combined_dataset_def)


section \<open>The statistic\<close>

lemma reduce_over_time_shape:
  assumes "lookup_var ds name = Some (Series gs)" and "gridded gs d1 d2 n1 n2"
  shows "\<exists>g. reduce_over_time f name ds = Inr (Fixed g)
           \<and> dims g = [d1, d2] \<and> shape g = [n1, n2] \<and> length (elems g) = n1 * n2
           \<and> ''time'' \<notin> var_dims (Fixed g)
           \<and> (\<forall>k<n1 * n2. elems g ! k = f (map (\<lambda>h. elems h ! k) gs))"
proof -
  from assms(2) have ne: "gs \<noteq> []" and nt: "''time'' \<notin> {d1, d2}"
    and all: "\<forall>g\<in>set gs. dims g = [d1, d2] \<and> shape g = [n1, n2] \<and> length (elems g) = n1 * n2"
    unfolding gridded_def by auto
  have hd: "hd gs \<in> set gs" using ne by simp
  have u: "uniform gs" unfolding uniform_def same_layout_def using all hd by auto
  have r: "reduce_over_time f name ds = Inr (Fixed (reduce_time f gs))"
    unfolding reduce_over_time_def using assms(1) ne u by simp
  show ?thesis
    unfolding r using all hd nt
    by (intro exI[of _ "reduce_time f gs"]) (auto simp: reduce_time_def var_dims_def)
qed


text \<open>
  C6.  The standard deviation (of \<open>TMP\<close>) and the mean (of \<open>PRES\<close>) reduce over the time
  dimension only.  For a dataset whose variable has a time axis and two spatial axes,
  the result has the two spatial axes with their sizes, no time axis, and one value per
  grid cell, which is the statistic of that cell's values over the time steps.
\<close>

theorem reduction_over_time_only:
  "(lookup_var ds ''TMP'' = Some (Series gs) \<and> gridded gs d1 d2 n1 n2 \<longrightarrow>
      (\<exists>g. std_dev std ds = Inr (Fixed g)
           \<and> dims g = [d1, d2] \<and> shape g = [n1, n2] \<and> length (elems g) = n1 * n2
           \<and> ''time'' \<notin> var_dims (Fixed g)
           \<and> (\<forall>k<n1 * n2. elems g ! k = std (map (\<lambda>h. elems h ! k) gs))))
   \<and> (lookup_var ds' ''PRES'' = Some (Series gs') \<and> gridded gs' d1' d2' n1' n2' \<longrightarrow>
      (\<exists>g. mean_pres mean ds' = Inr (Fixed g)
           \<and> dims g = [d1', d2'] \<and> shape g = [n1', n2'] \<and> length (elems g) = n1' * n2'
           \<and> ''time'' \<notin> var_dims (Fixed g)
           \<and> (\<forall>k<n1' * n2'. elems g ! k = mean (map (\<lambda>h. elems h ! k) gs'))))"
  unfolding std_dev_def mean_pres_def
  by (intro conjI impI; elim conjE; rule reduce_over_time_shape; assumption)


theorem reduction_over_time_only_witness:
  "(lookup_var demo_combined ''TMP'' = Some (Series demo_tmp_grids)
      \<and> gridded demo_tmp_grids ''y'' ''x'' 1 2)
   \<and> (lookup_var demo_forecast ''PRES'' = Some (Series demo_pres_grids)
      \<and> gridded demo_pres_grids ''projection_y_coordinate'' ''projection_x_coordinate'' 1 2)
   \<and> (\<exists>g. std_dev hd demo_combined = Inr (Fixed g)
           \<and> dims g = [''y'', ''x''] \<and> shape g = [1, 2] \<and> length (elems g) = 1 * 2
           \<and> ''time'' \<notin> var_dims (Fixed g)
           \<and> (\<forall>k<1 * 2. elems g ! k = hd (map (\<lambda>h. elems h ! k) demo_tmp_grids)))
   \<and> (\<exists>g. mean_pres last demo_forecast = Inr (Fixed g)
           \<and> dims g = [''projection_y_coordinate'', ''projection_x_coordinate'']
           \<and> shape g = [1, 2] \<and> length (elems g) = 1 * 2
           \<and> ''time'' \<notin> var_dims (Fixed g)
           \<and> (\<forall>k<1 * 2. elems g ! k = last (map (\<lambda>h. elems h ! k) demo_pres_grids)))"
proof -
  have a: "lookup_var demo_combined ''TMP'' = Some (Series demo_tmp_grids)
      \<and> gridded demo_tmp_grids ''y'' ''x'' 1 2"
    by (simp add: lookup_var_def demo_combined_def demo_tmp_series_def gridded_def
        demo_tmp_grids_def)
  have b: "lookup_var demo_forecast ''PRES'' = Some (Series demo_pres_grids)
      \<and> gridded demo_pres_grids ''projection_y_coordinate'' ''projection_x_coordinate'' 1 2"
    by (simp add: lookup_var_def demo_forecast_def gridded_def demo_pres_grids_def)
  note t = reduction_over_time_only[of demo_combined demo_tmp_grids "''y''" "''x''" 1 2 hd
      demo_forecast demo_pres_grids "''projection_y_coordinate''" "''projection_x_coordinate''"
      1 2 last]
  from t a b show ?thesis by blast
qed


section \<open>What a successful run went through\<close>

lemma combine_hours_success:
  assumes "combine_hours E start_date level param is (c0, tr0) = (Inr r, tr)"
  shows "\<exists>us ps. length us = length is \<and> length ps = length is
          \<and> (\<forall>j<length is. hour_urls (libc E) start_date (is ! j) level param = Inr (us ! j)
                \<and> load_dataset E [fst (snd (us ! j)), snd (snd (us ! j))] = Inr (ps ! j))
          \<and> pairwise_concat c0 ps = Inr r"
  using assms
proof (induction "is" arbitrary: c0 tr0)
  case Nil
  then show ?case by simp
next
  case (Cons i rest)
  from Cons.prems obtain time g s p where
    u: "hour_urls (libc E) start_date i level param = Inr (time, g, s)"
    and l: "load_dataset E [g, s] = Inr p"
    by (auto split: sum.splits)
  have more: ?case
    if run: "combine_hours E start_date level param rest (c', tr0 @ [[g, s]]) = (Inr r, tr)"
      and pc: "\<And>ps. pairwise_concat c' ps = pairwise_concat c0 (p # ps)" for c'
  proof -
    from Cons.IH[OF run] obtain us ps where
      h: "length us = length rest" "length ps = length rest"
        "\<forall>j<length rest. hour_urls (libc E) start_date (rest ! j) level param = Inr (us ! j)
                \<and> load_dataset E [fst (snd (us ! j)), snd (snd (us ! j))] = Inr (ps ! j)"
        "pairwise_concat c' ps = Inr r" by blast
    show ?thesis
    proof (intro exI[of _ "(time, g, s) # us"] exI[of _ "p # ps"] conjI allI impI)
      show "length ((time, g, s) # us) = length (i # rest)" using h(1) by simp
      show "length (p # ps) = length (i # rest)" using h(2) by simp
      show "pairwise_concat c0 (p # ps) = Inr r" using h(4) pc by simp
    next
      fix j assume "j < length (i # rest)"
      then show "hour_urls (libc E) start_date ((i # rest) ! j) level param = Inr (((time, g, s) # us) ! j)"
        using h(3) u by (cases j) auto
    next
      fix j assume "j < length (i # rest)"
      then show "load_dataset E [fst (snd (((time, g, s) # us) ! j)), snd (snd (((time, g, s) # us) ! j))]
          = Inr ((p # ps) ! j)"
        using h(3) l by (cases j) auto
    qed
  qed
  show ?case
  proof (cases c0)
    case None
    then show ?thesis using Cons.prems u l by (intro more[of "Some p"]) simp_all
  next
    case (Some c)
    show ?thesis
    proof (cases "ds_bool c")
      case False
      then show ?thesis using Cons.prems u l Some by (intro more[of "Some p"]) simp_all
    next
      case True
      then obtain c' where cc: "xr_concat DropConflicts [c, p] = Inr c'"
        using Cons.prems u l Some by (auto split: sum.splits)
      then show ?thesis using Cons.prems u l Some True by (intro more[of "Some c'"]) simp_all
    qed
  qed
qed

lemma load_hours_success:
  assumes "load_hours E start_date level param is (ds0, tr0) = (Inr dss, tr)"
  shows "\<exists>us ps. length us = length is \<and> length ps = length is
          \<and> (\<forall>j<length is. hour_urls (libc E) start_date (is ! j) level param = Inr (us ! j)
                \<and> load E (snd (snd (us ! j))) (Some (fst (us ! j))) = Inr (ps ! j))
          \<and> dss = ds0 @ ps"
  using assms
proof (induction "is" arbitrary: ds0 tr0)
  case Nil
  then show ?case by simp
next
  case (Cons i rest)
  from Cons.prems obtain time g s p where
    u: "hour_urls (libc E) start_date i level param = Inr (time, g, s)"
    and l: "load E s (Some time) = Inr p"
    by (auto split: sum.splits)
  have run: "load_hours E start_date level param rest (ds0 @ [p], tr0 @ [[s]]) = (Inr dss, tr)"
    using Cons.prems u l by simp
  from Cons.IH[OF run] obtain us ps where
    h: "length us = length rest" "length ps = length rest"
      "\<forall>j<length rest. hour_urls (libc E) start_date (rest ! j) level param = Inr (us ! j)
              \<and> load E (snd (snd (us ! j))) (Some (fst (us ! j))) = Inr (ps ! j)"
      "dss = (ds0 @ [p]) @ ps" by blast
  show ?case
  proof (intro exI[of _ "(time, g, s) # us"] exI[of _ "p # ps"] conjI allI impI)
    show "length ((time, g, s) # us) = length (i # rest)" using h(1) by simp
    show "length (p # ps) = length (i # rest)" using h(2) by simp
    show "dss = ds0 @ p # ps" using h(4) by simp
  next
    fix j assume "j < length (i # rest)"
    then show "hour_urls (libc E) start_date ((i # rest) ! j) level param = Inr (((time, g, s) # us) ! j)"
      using h(3) u by (cases j) auto
  next
    fix j assume "j < length (i # rest)"
    then show "load E (snd (snd (((time, g, s) # us) ! j))) (Some (fst (((time, g, s) # us) ! j)))
        = Inr ((p # ps) ! j)"
      using h(3) l by (cases j) auto
  qed
qed


section \<open>Metadata repair\<close>

lemma rename_name_xy:
  "rename_name xy_names k =
     (if k = ''projection_x_coordinate'' then ''x''
      else if k = ''projection_y_coordinate'' then ''y'' else k)"
  by (simp add: rename_name_def xy_names_def)

lemma xr_rename_result:
  assumes "xr_rename nd ds = Inr ds'"
  shows "var_names ds' = map (rename_name nd) (var_names ds)"
    and "coord_names ds' = rename_name nd ` coord_names ds"
    and "attrs ds' = attrs ds"
    and "distinct (var_names ds')"
  using assms unfolding xr_rename_def Let_def var_names_def
  by (auto split: if_splits simp: comp_def)

lemma renamed_name_xy: "rename_name xy_names = renamed_name"
  by (rule ext) (simp add: rename_name_xy renamed_name_def)


lemma xr_rename_content:
  assumes "xr_rename xy_names raw = Inr r1"
  shows "\<And>k. k \<in> set (var_names raw) \<Longrightarrow>
           \<exists>v. lookup_var raw k = Some v
             \<and> lookup_var r1 (renamed_name k) = Some (rename_var xy_names v)"
    and "set (var_names r1) = renamed_name ` set (var_names raw)"
    and "coord_names r1 = renamed_name ` coord_names raw"
    and "''projection_x_coordinate'' \<notin> set (var_names r1)"
    and "''projection_y_coordinate'' \<notin> set (var_names r1)"
proof -
  have v: "variables r1 = map (\<lambda>p. (renamed_name (fst p), rename_var xy_names (snd p))) (variables raw)"
    and dist: "distinct (map fst (variables r1))"
    using assms unfolding xr_rename_def Let_def renamed_name_xy by (auto split: if_splits)
  show n: "set (var_names r1) = renamed_name ` set (var_names raw)"
    unfolding var_names_def v by (simp add: image_image)
  show "coord_names r1 = renamed_name ` coord_names raw"
    using xr_rename_result(2)[OF assms] unfolding renamed_name_xy .
  show "''projection_x_coordinate'' \<notin> set (var_names r1)"
    "''projection_y_coordinate'' \<notin> set (var_names r1)"
    unfolding n by (auto simp: renamed_name_def split: if_splits)
  show "\<exists>v. lookup_var raw k = Some v
             \<and> lookup_var r1 (renamed_name k) = Some (rename_var xy_names v)"
    if "k \<in> set (var_names raw)" for k
  proof -
    have "map_of (variables raw) k \<noteq> None"
      using that unfolding var_names_def by (simp add: map_of_eq_None_iff)
    then obtain w where w: "map_of (variables raw) k = Some w" by auto
    then have "(k, w) \<in> set (variables raw)" by (rule map_of_SomeD)
    then have "(renamed_name k, rename_var xy_names w) \<in> set (variables r1)"
      unfolding v by force
    then have "map_of (variables r1) (renamed_name k) = Some (rename_var xy_names w)"
      using dist by simp
    then show ?thesis using w unfolding lookup_var_def by simp
  qed
qed

lemma var_names_assign_coord:
  "set (var_names (assign_coord k v ds)) = insert k (set (var_names ds))"
  unfolding var_names_def assign_coord_def by (simp add: dom_update)

lemma lookup_var_assign_coord:
  "lookup_var (assign_coord k v ds) k' = (if k' = k then Some v else lookup_var ds k')"
  unfolding lookup_var_def assign_coord_def by (simp add: update_conv')

lemma coord_names_assign_coord:
  "coord_names (assign_coord k v ds) = insert k (coord_names ds)"
  unfolding assign_coord_def by simp

lemma crs_of_assign_crs: "crs_of (assign_crs cf ds) = Some cf"
  unfolding crs_of_def assign_crs_def
  by (simp add: lookup_var_assign_coord[unfolded lookup_var_def] scalar_grid_def)

lemma crs_of_assign_other:
  "k \<noteq> ''metpy_crs'' \<Longrightarrow> crs_of (assign_coord k v ds) = crs_of ds"
  unfolding crs_of_def by (simp add: lookup_var_assign_coord[unfolded lookup_var_def])

lemma xy_coords_assign_other:
  "k \<noteq> ''x'' \<Longrightarrow> k \<noteq> ''y'' \<Longrightarrow> xy_coords (assign_coord k v ds) = xy_coords ds"
  unfolding xy_coords_def
  by (simp add: lookup_var_assign_coord[unfolded lookup_var_def] coord_names_assign_coord
      split: option.splits var.splits)

lemma assign_latitude_longitude_result:
  assumes "assign_latitude_longitude tf ds = Inr ds'"
  shows "var_names ds' = var_names ds \<or> set (var_names ds') = set (var_names ds) \<union> {''latitude'', ''longitude''}"
    and "coord_names ds \<subseteq> coord_names ds'"
    and "coord_names ds' \<subseteq> coord_names ds \<union> {''latitude'', ''longitude''}"
    and "crs_of ds' = crs_of ds"
    and "attrs ds' = attrs ds"
    and "has_grid_var ds' \<Longrightarrow> xy_coords ds' = Some (gx, gy) \<Longrightarrow>
           \<exists>cf. crs_of ds = Some cf
             \<and> lookup_var ds' ''latitude'' = Some (Fixed (latitude_grid tf cf gx gy))
             \<and> lookup_var ds' ''longitude'' = Some (Fixed (longitude_grid tf cf gx gy))
             \<and> ''latitude'' \<in> coord_names ds' \<and> ''longitude'' \<in> coord_names ds'"
proof -
  consider (same) "ds' = ds" "\<not> (has_grid_var ds \<and> xy_coords ds \<noteq> None)"
    | (assigned) gx0 gy0 cf where "has_grid_var ds" "xy_coords ds = Some (gx0, gy0)"
        "crs_of ds = Some cf"
        "ds' = assign_coord ''longitude'' (Fixed (longitude_grid tf cf gx0 gy0))
                 (assign_coord ''latitude'' (Fixed (latitude_grid tf cf gx0 gy0)) ds)"
    using assms unfolding assign_latitude_longitude_def
    by (auto split: if_splits option.splits)
  note cases = this
  show "var_names ds' = var_names ds \<or> set (var_names ds') = set (var_names ds) \<union> {''latitude'', ''longitude''}"
    by (cases rule: cases) (auto simp: var_names_assign_coord)
  show "coord_names ds \<subseteq> coord_names ds'"
    by (cases rule: cases) (auto simp: coord_names_assign_coord)
  show "coord_names ds' \<subseteq> coord_names ds \<union> {''latitude'', ''longitude''}"
    by (cases rule: cases) (auto simp: coord_names_assign_coord)
  show "crs_of ds' = crs_of ds"
    by (cases rule: cases) (auto simp: crs_of_assign_other)
  show "attrs ds' = attrs ds"
    by (cases rule: cases) (auto simp: assign_coord_def)
  show "\<exists>cf. crs_of ds = Some cf
             \<and> lookup_var ds' ''latitude'' = Some (Fixed (latitude_grid tf cf gx gy))
             \<and> lookup_var ds' ''longitude'' = Some (Fixed (longitude_grid tf cf gx gy))
             \<and> ''latitude'' \<in> coord_names ds' \<and> ''longitude'' \<in> coord_names ds'"
    if "has_grid_var ds'" "xy_coords ds' = Some (gx, gy)"
  proof (cases rule: cases)
    case same
    then show ?thesis using that by simp
  next
    case assigned
    have "xy_coords ds' = xy_coords ds" unfolding assigned(4) by (simp add: xy_coords_assign_other)
    then have "gx0 = gx" "gy0 = gy" using that(2) assigned(2) by simp_all
    then show ?thesis
      using assigned by (simp add: lookup_var_assign_coord coord_names_assign_coord)
  qed
qed


lemma set_coords_result:
  assumes "set_coords k ds = Inr ds'"
  shows "variables ds' = variables ds" "coord_names ds' = insert k (coord_names ds)"
    "attrs ds' = attrs ds" "k \<in> set (var_names ds)"
  using assms unfolding set_coords_def by (auto split: if_splits)

lemma xy_coords_more_coords:
  assumes "variables ds' = variables ds" "coord_names ds' = insert k (coord_names ds)"
    "k \<noteq> ''x''" "k \<noteq> ''y''"
  shows "xy_coords ds' = xy_coords ds"
  unfolding xy_coords_def assms(1,2) using assms(3,4)
  by (simp split: option.splits var.splits)

lemma has_grid_var_more_coords:
  assumes "variables ds' = variables ds" "coord_names ds \<subseteq> coord_names ds'" "has_grid_var ds'"
  shows "has_grid_var ds"
  using assms unfolding has_grid_var_def by auto


lemma to_cf_names:
  "map_of (to_cf projection) ''grid_mapping_name'' = Some ''lambert_conformal_conic''"
  "map_of (to_cf (ProjParams proj_params)) ''grid_mapping_name'' = Some ''lambert_conformal_conic''"
  by (simp_all add: projection_def proj_params_def grid_mapping_of_def cf_name_def)

lemma assign_latitude_longitude_lookup:
  assumes "assign_latitude_longitude tf ds = Inr ds'" "k \<noteq> ''latitude''" "k \<noteq> ''longitude''"
  shows "lookup_var ds' k = lookup_var ds k"
proof -
  have "ds' = ds \<or> (\<exists>v w. ds' = assign_coord ''longitude'' w (assign_coord ''latitude'' v ds))"
    using assms(1) unfolding assign_latitude_longitude_def
    by (fastforce split: if_splits option.splits)
  then show ?thesis using assms(2,3) by (auto simp: lookup_var_assign_coord)
qed

lemma assign_crs_lookup:
  "k \<noteq> ''metpy_crs'' \<Longrightarrow> lookup_var (assign_crs cf ds) k = lookup_var ds k"
  unfolding assign_crs_def by (simp add: lookup_var_assign_coord)

lemma grid_points:
  "j < length ys \<Longrightarrow> i < length xs \<Longrightarrow>
     concat (map (\<lambda>y. map (\<lambda>x. f x y) xs) ys) ! (j * length xs + i) = f (xs ! i) (ys ! j)"
  "length (concat (map (\<lambda>y. map (\<lambda>x. f x y) xs) ys)) = length ys * length xs"
proof -
  show "length (concat (map (\<lambda>y. map (\<lambda>x. f x y) xs) ys)) = length ys * length xs"
    by (induction ys) simp_all
  show "j < length ys \<Longrightarrow> i < length xs \<Longrightarrow>
     concat (map (\<lambda>y. map (\<lambda>x. f x y) xs) ys) ! (j * length xs + i) = f (xs ! i) (ys ! j)"
  proof (induction ys arbitrary: j)
    case Nil
    then show ?case by simp
  next
    case (Cons y ys)
    show ?case
    proof (cases j)
      case 0
      then show ?thesis using Cons.prems(2) by (simp add: nth_append)
    next
      case (Suc j')
      have e: "Suc j' * length xs + i = length xs + (j' * length xs + i)" by simp
      have "j' < length ys" using Cons.prems(1) Suc by simp
      from Cons.IH[OF this Cons.prems(2)] show ?thesis
        unfolding Suc e by (simp add: nth_append)
    qed
  qed
qed

lemma latlon_assignedI:
  assumes "xy_coords ds = Some (gx, gy)" "crs_of ds = Some cf"
    and "lookup_var ds ''latitude'' = Some (Fixed (latitude_grid (transform E) cf gx gy))"
    and "lookup_var ds ''longitude'' = Some (Fixed (longitude_grid (transform E) cf gx gy))"
    and "''latitude'' \<in> coord_names ds" "''longitude'' \<in> coord_names ds"
  shows "latlon_assigned E ds"
  unfolding latlon_assigned_def assms(1,2,3,4) using assms(5,6)
  by (simp add: latitude_grid_def longitude_grid_def grid_points)






section \<open>Assigning the grid\<close>

lemma map_of_foldl_update:
  "map_of (foldl (\<lambda>vs p. AList.update (fst p) (snd p) vs) vs0 ps) k =
     (case map_of (rev ps) k of Some v \<Rightarrow> Some v | None \<Rightarrow> map_of vs0 k)"
proof (induction ps arbitrary: vs0)
  case Nil
  show ?case by simp
next
  case (Cons p ps)
  show ?case
    unfolding foldl.simps Cons.IH
    by (cases p) (auto simp: update_conv' map_add_def split: option.splits)
qed

lemma keys_foldl_update:
  "fst ` set (foldl (\<lambda>vs p. AList.update (fst p) (snd p) vs) vs0 ps) = fst ` set vs0 \<union> fst ` set ps"
proof (induction ps arbitrary: vs0)
  case Nil
  show ?case by simp
next
  case (Cons p ps)
  show ?case unfolding foldl.simps Cons.IH by (auto simp: dom_update)
qed

lemma setitem_da_result:
  assumes "setitem_da k da ds = Inr ds'"
  shows "attrs ds' = attrs ds"
    and "lookup_var ds' k = Some (da_var da)"
    and "\<And>k'. k' \<in> set (var_names ds) \<Longrightarrow> k' \<noteq> k \<Longrightarrow> lookup_var ds' k' = lookup_var ds k'"
    and "\<And>k'. k' \<in> set (var_names ds) \<Longrightarrow> k' \<noteq> k \<Longrightarrow>
           (k' \<in> coord_names ds') = (k' \<in> coord_names ds)"
    and "set (var_names ds) \<subseteq> set (var_names ds')"
    and "set (var_names ds') \<subseteq> insert k (set (var_names ds) \<union>
           {c \<in> fst ` set (da_coords da). c \<in> var_dims (da_var da) \<or> c \<notin> coord_names ds})"
    and "coord_names ds \<subseteq> coord_names ds'"
proof -
  define kept where "kept = filter (\<lambda>p. \<not> (fst p \<notin> var_dims (da_var da) \<and> fst p \<in> coord_names ds)) (da_coords da)"
  define brought where "brought = filter (\<lambda>p. fst p \<noteq> k) kept"
  have ok1: "\<not> (\<exists>p\<in>set brought. fst p \<in> set (var_names ds) \<and> fst p \<notin> coord_names ds)"
    and ok2: "\<not> (\<exists>p\<in>set brought. fst p \<in> set (var_names ds) \<and> lookup_var ds (fst p) \<noteq> Some (snd p))"
    and ds': "ds' = ds\<lparr>variables := foldl (\<lambda>vs p. AList.update (fst p) (snd p) vs)
                          (AList.update k (da_var da) (variables ds)) brought,
                       coord_names := coord_names ds \<union> fst ` set brought
                        \<union> (if is_index k (da_var da) then {k} else {})\<rparr>"
    using assms unfolding setitem_da_def Let_def kept_def[symmetric] brought_def[symmetric]
    by (auto split: if_splits)
  have nk: "k \<notin> fst ` set brought" unfolding brought_def by auto
  have bsub: "fst ` set brought \<subseteq> {c \<in> fst ` set (da_coords da). c \<in> var_dims (da_var da) \<or> c \<notin> coord_names ds}"
    unfolding brought_def kept_def by auto
  show "attrs ds' = attrs ds" unfolding ds' by simp
  have nonek: "map_of (rev brought) k = None"
    using nk by (simp add: map_of_eq_None_iff)
  show "lookup_var ds' k = Some (da_var da)"
    unfolding lookup_var_def ds' by (simp add: map_of_foldl_update nonek update_conv')
  show "lookup_var ds' k' = lookup_var ds k'" if "k' \<in> set (var_names ds)" "k' \<noteq> k" for k'
  proof (cases "map_of (rev brought) k'")
    case None
    then show ?thesis unfolding lookup_var_def ds' using that(2)
      by (simp add: map_of_foldl_update update_conv')
  next
    case (Some v)
    then have "(k', v) \<in> set brought" by (auto dest: map_of_SomeD)
    then have "lookup_var ds k' = Some v" using ok2 that(1) by force
    then show ?thesis unfolding ds' using Some
      by (simp add: lookup_var_def map_of_foldl_update)
  qed
  show "(k' \<in> coord_names ds') = (k' \<in> coord_names ds)" if "k' \<in> set (var_names ds)" "k' \<noteq> k" for k'
    unfolding ds' using that ok1 by (auto split: if_splits)
  show "set (var_names ds) \<subseteq> set (var_names ds')"
    unfolding var_names_def ds' by (auto simp: keys_foldl_update dom_update)
  show "set (var_names ds') \<subseteq> insert k (set (var_names ds) \<union>
           {c \<in> fst ` set (da_coords da). c \<in> var_dims (da_var da) \<or> c \<notin> coord_names ds})"
    using bsub unfolding var_names_def ds' by (auto simp: keys_foldl_update dom_update)
  show "coord_names ds \<subseteq> coord_names ds'" unfolding ds' by auto
qed

lemma xr_getitem_result:
  assumes "xr_getitem k g = Inr da"
  shows "lookup_var g k = Some (da_var da)"
    and "fst ` set (da_coords da) \<subseteq> coord_names g \<inter> set (var_names g)"
  using assms unfolding xr_getitem_def var_names_def
  by (auto split: option.splits if_splits)


lemma lookup_var_in_names:
  assumes "lookup_var ds k = Some v"
  shows "k \<in> set (var_names ds)"
proof -
  have "(k, v) \<in> set (variables ds)" using assms unfolding lookup_var_def by (rule map_of_SomeD)
  then have "fst (k, v) \<in> fst ` set (variables ds)" by (rule imageI)
  then show ?thesis unfolding var_names_def by simp
qed

lemma add_grid_frame:
  assumes "add_grid grid c = Inr g2"
  shows "attrs g2 = attrs c"
    and "lookup_var g2 ''x'' = lookup_var grid ''x''"
    and "lookup_var g2 ''y'' = lookup_var grid ''y''"
    and "\<And>k. k \<in> set (var_names c) \<Longrightarrow> k \<noteq> ''x'' \<Longrightarrow> k \<noteq> ''y'' \<Longrightarrow>
           lookup_var g2 k = lookup_var c k \<and> (k \<in> coord_names g2) = (k \<in> coord_names c)"
    and "set (var_names c) \<union> {''x'', ''y''} \<subseteq> set (var_names g2)"
    and "set (var_names g2) \<subseteq> set (var_names c) \<union> {''x'', ''y''} \<union> set (var_names grid)"
    and "coord_names c \<subseteq> coord_names g2"
    and "coord_names grid \<subseteq> {''x'', ''y'', ''time''} \<Longrightarrow> ''time'' \<in> coord_names c \<Longrightarrow>
           ''time'' \<notin> ds_dims grid \<Longrightarrow> set (var_names g2) = set (var_names c) \<union> {''x'', ''y''}"
proof -
  from assms obtain gx d1 gy where
    s: "xr_getitem ''x'' grid = Inr gx" "setitem_da ''x'' gx c = Inr d1"
       "xr_getitem ''y'' grid = Inr gy" "setitem_da ''y'' gy d1 = Inr g2"
    unfolding add_grid_def bind_err_def by (auto split: sum.splits)
  note gx = xr_getitem_result[OF s(1)]
  note gy = xr_getitem_result[OF s(3)]
  note a = setitem_da_result[OF s(2)]
  note b = setitem_da_result[OF s(4)]
  show "attrs g2 = attrs c" using a(1) b(1) by simp
  have x1: "''x'' \<in> set (var_names d1)" by (rule lookup_var_in_names[OF a(2)])
  show "lookup_var g2 ''x'' = lookup_var grid ''x''"
    using b(3)[OF x1] a(2) gx(1) by simp
  show "lookup_var g2 ''y'' = lookup_var grid ''y''" using b(2) gy(1) by simp
  show "lookup_var g2 k = lookup_var c k \<and> (k \<in> coord_names g2) = (k \<in> coord_names c)"
    if "k \<in> set (var_names c)" "k \<noteq> ''x''" "k \<noteq> ''y''" for k
  proof -
    have k1: "k \<in> set (var_names d1)" using that(1) a(5) by auto
    show ?thesis using a(3)[OF that(1,2)] a(4)[OF that(1,2)] b(3)[OF k1 that(3)] b(4)[OF k1 that(3)]
      by simp
  qed
  have y2: "''y'' \<in> set (var_names g2)" by (rule lookup_var_in_names[OF b(2)])
  show "set (var_names c) \<union> {''x'', ''y''} \<subseteq> set (var_names g2)"
    using a(5) b(5) x1 y2 by auto
  define B1 where "B1 = {k \<in> fst ` set (da_coords gx). k \<in> var_dims (da_var gx) \<or> k \<notin> coord_names c}"
  define B2 where "B2 = {k \<in> fst ` set (da_coords gy). k \<in> var_dims (da_var gy) \<or> k \<notin> coord_names d1}"
  have a6: "set (var_names d1) \<subseteq> insert ''x'' (set (var_names c) \<union> B1)"
    using a(6) unfolding B1_def .
  have b6: "set (var_names g2) \<subseteq> insert ''y'' (set (var_names d1) \<union> B2)"
    using b(6) unfolding B2_def .
  have B1g: "B1 \<subseteq> set (var_names grid)" "B1 \<subseteq> coord_names grid"
    using gx(2) unfolding B1_def by auto
  have B2g: "B2 \<subseteq> set (var_names grid)" "B2 \<subseteq> coord_names grid"
    using gy(2) unfolding B2_def by auto
  show "set (var_names g2) \<subseteq> set (var_names c) \<union> {''x'', ''y''} \<union> set (var_names grid)"
  proof
    fix k assume "k \<in> set (var_names g2)"
    then have "k = ''y'' \<or> k \<in> set (var_names d1) \<or> k \<in> B2" using b6 by auto
    moreover have "k = ''x'' \<or> k \<in> set (var_names c) \<or> k \<in> B1" if "k \<in> set (var_names d1)"
      using that a6 by auto
    ultimately show "k \<in> set (var_names c) \<union> {''x'', ''y''} \<union> set (var_names grid)"
      using B1g(1) B2g(1) by auto
  qed
  show "coord_names c \<subseteq> coord_names g2" using a(7) b(7) by auto
  show "set (var_names g2) = set (var_names c) \<union> {''x'', ''y''}"
    if h: "coord_names grid \<subseteq> {''x'', ''y'', ''time''}" "''time'' \<in> coord_names c"
      "''time'' \<notin> ds_dims grid"
  proof -
    have vd: "''time'' \<notin> var_dims v" if "lookup_var grid k = Some v" for k v
    proof -
      have "(k, v) \<in> set (variables grid)"
        using that unfolding lookup_var_def by (rule map_of_SomeD)
      then have "var_dims (snd (k, v)) \<subseteq> ds_dims grid" unfolding ds_dims_def by blast
      then show ?thesis using h(3) by auto
    qed
    have t1: "''time'' \<in> coord_names d1" using h(2) a(7) by auto
    have nt1: "''time'' \<notin> B1" unfolding B1_def using vd[OF gx(1)] h(2) by simp
    have nt2: "''time'' \<notin> B2" unfolding B2_def using vd[OF gy(1)] t1 by simp
    have B1xy: "B1 \<subseteq> {''x'', ''y''}"
    proof
      fix k assume k: "k \<in> B1"
      then have "k \<in> {''x'', ''y'', ''time''}" using B1g(2) h(1) by auto
      then show "k \<in> {''x'', ''y''}" using k nt1 by auto
    qed
    have B2xy: "B2 \<subseteq> {''x'', ''y''}"
    proof
      fix k assume k: "k \<in> B2"
      then have "k \<in> {''x'', ''y'', ''time''}" using B2g(2) h(1) by auto
      then show "k \<in> {''x'', ''y''}" using k nt2 by auto
    qed
    have "set (var_names g2) \<subseteq> set (var_names c) \<union> {''x'', ''y''}"
    proof
      fix k assume "k \<in> set (var_names g2)"
      then have "k = ''y'' \<or> k \<in> set (var_names d1) \<or> k \<in> B2" using b6 by auto
      moreover have "k = ''x'' \<or> k \<in> set (var_names c) \<or> k \<in> B1" if "k \<in> set (var_names d1)"
        using that a6 by auto
      ultimately show "k \<in> set (var_names c) \<union> {''x'', ''y''}" using B1xy B2xy by auto
    qed
    then show ?thesis
      using \<open>set (var_names c) \<union> {''x'', ''y''} \<subseteq> set (var_names g2)\<close> by (rule subset_antisym)
  qed
qed


section \<open>The time coordinate\<close>

lemma map_of_map_keyed:
  "map_of (map (\<lambda>p. (fst p, f (fst p) (snd p))) vs) k = map_option (f k) (map_of vs k)"
  by (induction vs) auto

lemma map_of_map_renamed:
  assumes "\<And>k'. (r k' = k) = (k' = k)"
  shows "map_of (map (\<lambda>p. (r (fst p), f (snd p))) vs) k = map_option f (map_of vs k)"
proof (induction vs)
  case Nil
  show ?case by simp
next
  case (Cons p vs)
  show ?case
  proof (cases "fst p = k")
    case True
    then have "r (fst p) = k" using assms by simp
    then show ?thesis using True by (cases p) simp
  next
    case False
    then have "r (fst p) \<noteq> k" using assms by simp
    then show ?thesis using False Cons.IH by (cases p) simp
  qed
qed

lemma set_alist_update: "set (AList.update k v al) \<subseteq> insert (k, v) (set al)"
  by (induction al) auto

lemma rename_var_time:
  "(''time'' \<in> var_dims (rename_var xy_names v)) = (''time'' \<in> var_dims v)"
  by (cases v) (auto simp: var_dims_def rename_grid_def rename_name_xy split: if_splits)

lemma xr_rename_xy_time:
  assumes "xr_rename xy_names ds = Inr d"
  shows "lookup_var d ''time'' = map_option (rename_var xy_names) (lookup_var ds ''time'')"
    and "(''time'' \<in> ds_dims d) = (''time'' \<in> ds_dims ds)"
proof -
  have v: "variables d = map (\<lambda>p. (rename_name xy_names (fst p), rename_var xy_names (snd p))) (variables ds)"
    using assms unfolding xr_rename_def Let_def by (auto split: if_splits)
  have r: "(rename_name xy_names k' = ''time'') = (k' = ''time'')" for k'
    by (simp add: rename_name_xy)
  show "lookup_var d ''time'' = map_option (rename_var xy_names) (lookup_var ds ''time'')"
    unfolding lookup_var_def v by (rule map_of_map_renamed[OF r])
  show "(''time'' \<in> ds_dims d) = (''time'' \<in> ds_dims ds)"
    unfolding ds_dims_def v by (auto simp: rename_var_time)
qed

lemma ds_dims_update:
  "ds_dims (ds\<lparr>variables := AList.update k v (variables ds)\<rparr>) \<subseteq> ds_dims ds \<union> var_dims v"
proof
  fix d assume "d \<in> ds_dims (ds\<lparr>variables := AList.update k v (variables ds)\<rparr>)"
  then obtain p where p: "p \<in> set (AList.update k v (variables ds))" "d \<in> var_dims (snd p)"
    unfolding ds_dims_def by auto
  have "p \<in> insert (k, v) (set (variables ds))"
    using p(1) set_alist_update by fastforce
  then show "d \<in> ds_dims ds \<union> var_dims v" using p(2) unfolding ds_dims_def by auto
qed

lemma load_result:
  assumes "load E url t = Inr d"
  shows "''time'' \<in> coord_names d"
    and "lookup_var d ''time'' = Some (Fixed (scalar_grid (case t of None \<Rightarrow> PyNone | Some t \<Rightarrow> Stamp t)))"
    and "''time'' \<notin> ds_dims d"
    and "''projection_x_coordinate'' \<notin> set (var_names d)"
    and "''projection_y_coordinate'' \<notin> set (var_names d)"
proof -
  define s :: "'a scalar" where "s = (case t of None \<Rightarrow> PyNone | Some t \<Rightarrow> Stamp t)"
  from assms obtain raw d1 d2 where
    st: "open_dataset E url = Inr raw" "setitem_scalar ''time'' s raw = Inr d1"
        "set_coords ''time'' d1 = Inr d2" "xr_rename xy_names d2 = Inr d"
    unfolding load_def bind_err_def s_def by (auto split: sum.splits)
  have d1: "''time'' \<notin> ds_dims raw"
    "d1 = raw\<lparr>variables := AList.update ''time'' (Fixed (scalar_grid s)) (variables raw)\<rparr>"
    using st(2) unfolding setitem_scalar_def by (auto split: if_splits)
  note sc = set_coords_result[OF st(3)]
  note rn = xr_rename_result[OF st(4)]
  note rt = xr_rename_xy_time[OF st(4)]
  have "''time'' \<in> coord_names d2" using sc(2) by simp
  then show "''time'' \<in> coord_names d" unfolding rn(2) by (force simp: rename_name_xy)
  have "lookup_var d2 ''time'' = Some (Fixed (scalar_grid s))"
    unfolding lookup_var_def sc(1) d1(2) by (simp add: update_conv')
  then show "lookup_var d ''time'' = Some (Fixed (scalar_grid (case t of None \<Rightarrow> PyNone | Some t \<Rightarrow> Stamp t)))"
    unfolding rt(1) s_def by (simp add: scalar_grid_def rename_grid_def)
  have "''time'' \<notin> ds_dims d1"
    using ds_dims_update[where ds = raw and k = "''time''" and v = "Fixed (scalar_grid s)"] d1
    by (auto simp: var_dims_def scalar_grid_def)
  then have "''time'' \<notin> ds_dims d2" unfolding ds_dims_def sc(1) .
  then show "''time'' \<notin> ds_dims d" unfolding rt(2) .
  show "''projection_x_coordinate'' \<notin> set (var_names d)"
    "''projection_y_coordinate'' \<notin> set (var_names d)"
    by (rule xr_rename_content(4)[OF st(4)], rule xr_rename_content(5)[OF st(4)])
qed


lemma no_series:
  assumes "\<forall>p\<in>set vs. ''time'' \<notin> var_dims (snd p)"
  shows "series_lengths vs = []"
  using assms
proof (induction vs rule: series_lengths.induct)
  case (3 n gs vs)
  then show ?case by (simp add: var_dims_def)
qed simp_all

lemma steps_without_time:
  assumes "''time'' \<notin> ds_dims d"
  shows "steps d = 1" and "\<And>k v. lookup_var d k = Some v \<Longrightarrow> \<exists>g. v = Fixed g"
proof -
  have a: "\<forall>p\<in>set (variables d). ''time'' \<notin> var_dims (snd p)"
    using assms unfolding ds_dims_def by auto
  show "steps d = 1" unfolding steps_def time_len_def no_series[OF a] by simp
  show "\<exists>g. v = Fixed g" if "lookup_var d k = Some v" for k v
  proof -
    have "(k, v) \<in> set (variables d)" using that unfolding lookup_var_def by (rule map_of_SomeD)
    then have "''time'' \<notin> var_dims v" using a by force
    then show ?thesis by (cases v) (auto simp: var_dims_def)
  qed
qed

lemma xr_concat_result:
  assumes "xr_concat mode dss = Inr c"
  shows "dss \<noteq> []"
    and "var_names c = var_names (hd dss)"
    and "coord_names c = coord_names (hd dss)"
    and "attrs c = merge_attrs mode (map attrs dss)"
    and "\<forall>d\<in>set dss. concat_ok (hd dss) d"
    and "\<And>k. lookup_var c k = map_option (concat_var dss k) (lookup_var (hd dss) k)"
proof -
  from assms obtain d0 rest where dss: "dss = d0 # rest"
    unfolding xr_concat_def by (cases dss) auto
  have ok: "\<forall>d\<in>set dss. concat_ok d0 d"
    and c: "c = \<lparr>variables = map (\<lambda>p. (fst p, concat_var dss (fst p) (snd p))) (variables d0),
                coord_names = coord_names d0, attrs = merge_attrs mode (map attrs dss)\<rparr>"
    using assms unfolding xr_concat_def dss by (auto split: if_splits)
  show "dss \<noteq> []" using dss by simp
  show "var_names c = var_names (hd dss)" unfolding var_names_def c dss by (simp add: comp_def)
  show "coord_names c = coord_names (hd dss)" unfolding c dss by simp
  show "attrs c = merge_attrs mode (map attrs dss)" unfolding c by simp
  show "\<forall>d\<in>set dss. concat_ok (hd dss) d" using ok unfolding dss by simp
  show "lookup_var c k = map_option (concat_var dss k) (lookup_var (hd dss) k)" for k
    unfolding lookup_var_def c by (simp add: map_of_map_keyed dss)
qed


lemma time_values_eq:
  "lookup_var a ''time'' = lookup_var b ''time'' \<Longrightarrow> time_values a = time_values b"
  unfolding time_values_def lookup_var_def by simp

lemma concat_time_hourly:
  assumes "xr_concat mode dss = Inr c"
    and "list_all2 (\<lambda>d t. lookup_var d ''time'' = Some (Fixed (scalar_grid (Stamp t)))
                          \<and> ''time'' \<notin> ds_dims d) dss ts"
  shows "lookup_var c ''time'' = Some (Series (map (\<lambda>t. scalar_grid (Stamp t)) ts))"
    and "time_values c = map Stamp ts"
proof -
  note r = xr_concat_result[OF assms(1)]
  obtain d0 rest where dss: "dss = d0 # rest" using r(1) by (cases dss) auto
  obtain t0 trest where ts: "ts = t0 # trest" using assms(2) dss by (cases ts) auto
  have l0: "lookup_var d0 ''time'' = Some (Fixed (scalar_grid (Stamp t0)))"
    using assms(2) unfolding dss ts by simp
  have sl: "concat (map (\<lambda>d. case lookup_var d ''time'' of Some v \<Rightarrow> slices (steps d) v | None \<Rightarrow> []) dss)
            = map (\<lambda>t. scalar_grid (Stamp t)) ts"
    using assms(2)
  proof (induction dss ts rule: list_all2_induct)
    case Nil
    show ?case by simp
  next
    case (Cons d t dss ts)
    then show ?case by (simp add: steps_without_time(1) slices_def)
  qed
  have "lookup_var c ''time'' = Some (concat_var dss ''time'' (Fixed (scalar_grid (Stamp t0))))"
    unfolding r(6) using l0 dss by simp
  then show l: "lookup_var c ''time'' = Some (Series (map (\<lambda>t. scalar_grid (Stamp t)) ts))"
    unfolding concat_var_def concat_over_def sl by simp
  show "time_values c = map Stamp ts"
    unfolding time_values_def l[unfolded lookup_var_def]
    by (simp add: scalar_grid_def comp_def)
qed

lemma not_mf_stages:
  assumes "load_combined_dataset_not_mf E start_date n level param = (Inr ds, tr)"
  shows "\<exists>g0 grid us ps c g2.
           group_url_at (libc E) start_date level param = Inr g0
         \<and> load E g0 None = Inr grid
         \<and> length us = nat n \<and> length ps = nat n
         \<and> (\<forall>j<nat n. hour_urls (libc E) start_date j level param = Inr (us ! j)
               \<and> load E (snd (snd (us ! j))) (Some (fst (us ! j))) = Inr (ps ! j))
         \<and> xr_concat Override ps = Inr c
         \<and> add_grid grid c = Inr g2
         \<and> assign_latitude_longitude (transform E) (assign_crs (to_cf projection) g2) = Inr ds
         \<and> tr \<noteq> [] \<and> tr ! 0 = [g0]"
proof -
  from assms obtain g0 where g0: "group_url_at (libc E) start_date level param = Inr g0"
    unfolding load_combined_dataset_not_mf_def by (auto split: sum.splits)
  from assms g0 obtain grid where grid: "load E g0 None = Inr grid"
    unfolding load_combined_dataset_not_mf_def by (auto split: sum.splits)
  obtain r2 tr2 where lh: "load_hours E start_date level param [0..<nat n] ([], [[g0]]) = (r2, tr2)"
    by (cases "load_hours E start_date level param [0..<nat n] ([], [[g0]])")
  from assms g0 grid lh obtain dss where dss: "r2 = Inr dss" and tr: "tr = tr2"
    and fin: "bind_err (xr_concat Override dss) (\<lambda>ds.
           bind_err (add_grid grid ds) (\<lambda>ds.
           assign_latitude_longitude (transform E) (assign_crs (to_cf projection) ds))) = Inr ds"
    unfolding load_combined_dataset_not_mf_def by (auto split: sum.splits)
  from fin obtain c g2 where
    st: "xr_concat Override dss = Inr c" "add_grid grid c = Inr g2"
        "assign_latitude_longitude (transform E) (assign_crs (to_cf projection) g2) = Inr ds"
    unfolding bind_err_def by (auto split: sum.splits)
  from load_hours_success[OF lh[unfolded dss]] obtain us ps where
    h: "length us = length [0..<nat n]" "length ps = length [0..<nat n]"
       "\<forall>j<length [0..<nat n]. hour_urls (libc E) start_date ([0..<nat n] ! j) level param = Inr (us ! j)
              \<and> load E (snd (snd (us ! j))) (Some (fst (us ! j))) = Inr (ps ! j)"
       "dss = [] @ ps" by blast
  have t: "tr2 \<noteq> [] \<and> tr2 ! 0 = [g0]" using load_hours_trace[OF lh] by auto
  have "\<forall>j<nat n. hour_urls (libc E) start_date j level param = Inr (us ! j)
              \<and> load E (snd (snd (us ! j))) (Some (fst (us ! j))) = Inr (ps ! j)"
    using h(3) by simp
  then show ?thesis
    using g0 grid h(1,2,4) st t tr
    by (intro exI[of _ g0] exI[of _ grid] exI[of _ us] exI[of _ ps] exI[of _ c] exI[of _ g2]) simp
qed



section \<open>The notebook with \<open>open_dataset\<close>, stage by stage\<close>

lemma crs_latlon_steps:
  assumes ll: "assign_latitude_longitude (transform E) (assign_crs cf r1) = Inr ds"
    and nm: "map_of cf ''grid_mapping_name'' = Some ''lambert_conformal_conic''"
  shows "lambert_attached ds"
    and "has_grid_var ds \<and> xy_coords ds \<noteq> None \<longrightarrow> latlon_assigned E ds"
    and "set (var_names ds) \<subseteq> set (var_names r1) \<union> {''metpy_crs'', ''latitude'', ''longitude''}"
    and "set (var_names r1) \<subseteq> set (var_names ds)"
    and "crs_of ds = Some cf"
proof -
  note a = assign_latitude_longitude_result[OF ll]
  show crs: "crs_of ds = Some cf" using a(4) by (simp add: crs_of_assign_crs)
  have "''metpy_crs'' \<in> coord_names ds"
    using a(2) by (auto simp: assign_crs_def coord_names_assign_coord)
  then show "lambert_attached ds" unfolding lambert_attached_def crs using nm by simp
  show "has_grid_var ds \<and> xy_coords ds \<noteq> None \<longrightarrow> latlon_assigned E ds"
  proof
    assume h: "has_grid_var ds \<and> xy_coords ds \<noteq> None"
    then obtain gx gy where xy: "xy_coords ds = Some (gx, gy)" by auto
    from a(6)[OF _ xy] h obtain cf' where
      c: "crs_of (assign_crs cf r1) = Some cf'"
        "lookup_var ds ''latitude'' = Some (Fixed (latitude_grid (transform E) cf' gx gy))"
        "lookup_var ds ''longitude'' = Some (Fixed (longitude_grid (transform E) cf' gx gy))"
        "''latitude'' \<in> coord_names ds" "''longitude'' \<in> coord_names ds" by blast
    have cf: "cf' = cf" using c(1) by (simp add: crs_of_assign_crs)
    show "latlon_assigned E ds"
      by (rule latlon_assignedI[OF xy crs]) (use c in \<open>simp_all add: cf\<close>)
  qed
  show "set (var_names ds) \<subseteq> set (var_names r1) \<union> {''metpy_crs'', ''latitude'', ''longitude''}"
    using a(1) by (auto simp: assign_crs_def var_names_assign_coord)
  show "set (var_names r1) \<subseteq> set (var_names ds)"
    using a(1) by (auto simp: assign_crs_def var_names_assign_coord)
qed


section \<open>The small archive, repaired\<close>






section \<open>Metadata repair: the claim\<close>





section \<open>Assigning the grid: the claim\<close>

text \<open>
  C10.  In the notebook with \<open>open_dataset\<close> the grid dataset is loaded once, from the
  group URL at \<open>start_date\<close>, which is the first remote open of the run.  Assigning
  \<open>grid["x"]\<close> and \<open>grid["y"]\<close> into the concatenated dataset leaves its attributes and
  every variable other than \<open>x\<close> and \<open>y\<close> as they were, in value and in being a coordinate
  or not; afterwards \<open>x\<close> and \<open>y\<close> are those of the grid dataset, also in the dataset
  returned.  When the grid dataset has no coordinates besides \<open>x\<close>, \<open>y\<close> and the time,
  nothing else is added: the variables are those of the concatenated dataset and \<open>x\<close>,
  \<open>y\<close>.
\<close>

theorem grid_assignment_frame:
  assumes "load_combined_dataset_not_mf E start_date num_hours level param_short_name = (Inr ds, tr)"
  shows "\<exists>group_url grid datasets c g.
           group_url_at (libc E) start_date level param_short_name = Inr group_url
         \<and> tr ! 0 = [group_url] \<and> load E group_url None = Inr grid
         \<and> length datasets = nat num_hours \<and> xr_concat Override datasets = Inr c
         \<and> add_grid grid c = Inr g
         \<and> assign_latitude_longitude (transform E) (assign_crs (to_cf projection) g) = Inr ds
         \<and> attrs g = attrs c
         \<and> (\<forall>k\<in>set (var_names c). k \<noteq> ''x'' \<and> k \<noteq> ''y'' \<longrightarrow>
               lookup_var g k = lookup_var c k \<and> (k \<in> coord_names g) = (k \<in> coord_names c))
         \<and> lookup_var g ''x'' = lookup_var grid ''x'' \<and> lookup_var g ''y'' = lookup_var grid ''y''
         \<and> lookup_var ds ''x'' = lookup_var grid ''x'' \<and> lookup_var ds ''y'' = lookup_var grid ''y''
         \<and> (coord_names grid \<subseteq> {''x'', ''y'', ''time''} \<longrightarrow>
               set (var_names g) = set (var_names c) \<union> {''x'', ''y''})"
proof -
  from not_mf_stages[OF assms] obtain g0 grid us ps c g2 where
    st: "group_url_at (libc E) start_date level param_short_name = Inr g0"
      "load E g0 None = Inr grid" "length ps = nat num_hours"
      "\<forall>j<nat num_hours. hour_urls (libc E) start_date j level param_short_name = Inr (us ! j)
               \<and> load E (snd (snd (us ! j))) (Some (fst (us ! j))) = Inr (ps ! j)"
      "xr_concat Override ps = Inr c" "add_grid grid c = Inr g2"
      "assign_latitude_longitude (transform E) (assign_crs (to_cf projection) g2) = Inr ds"
      "tr ! 0 = [g0]"
    apply (elim exE conjE) apply (rule that; assumption) done
  note cr = xr_concat_result[OF st(5)]
  note fr = add_grid_frame[OF st(6)]
  have "length ps \<noteq> 0" using cr(1) by simp
  then have "0 < nat num_hours" unfolding st(3) by simp
  then have l0: "load E (snd (snd (us ! 0))) (Some (fst (us ! 0))) = Inr (ps ! 0)" using st(4) by simp
  have hd: "hd ps = ps ! 0" using cr(1) by (simp add: hd_conv_nth)
  have tc: "''time'' \<in> coord_names c" unfolding cr(3) hd by (rule load_result(1)[OF l0])
  have tg: "''time'' \<notin> ds_dims grid" by (rule load_result(3)[OF st(2)])
  have fin: "lookup_var ds k = lookup_var g2 k" if "k = ''x'' \<or> k = ''y''" for k
    using assign_latitude_longitude_lookup[OF st(7), of k] that
    by (auto simp: assign_crs_lookup)
  have A: "\<forall>k\<in>set (var_names c). k \<noteq> ''x'' \<and> k \<noteq> ''y'' \<longrightarrow>
               lookup_var g2 k = lookup_var c k \<and> (k \<in> coord_names g2) = (k \<in> coord_names c)"
    using fr(4) by blast
  have B: "coord_names grid \<subseteq> {''x'', ''y'', ''time''} \<longrightarrow>
               set (var_names g2) = set (var_names c) \<union> {''x'', ''y''}"
    using fr(8) tc tg by blast
  have X: "lookup_var ds ''x'' = lookup_var grid ''x''" using fin fr(2) by simp
  have Y: "lookup_var ds ''y'' = lookup_var grid ''y''" using fin fr(3) by simp
  show ?thesis
    by (rule exI[of _ g0], rule exI[of _ grid], rule exI[of _ ps], rule exI[of _ c],
        rule exI[of _ g2])
       (intro conjI; fact st fr(1,2,3) A B X Y)
qed


theorem grid_assignment_frame_witness:
  "load_combined_dataset_not_mf demo_env new_years_eve 2 ''1000mb'' ''TMP''
       = (Inr demo_combined_not_mf,
          [[''s3://hrrrzarr/sfc/20211231/20211231_23z_anl.zarr/1000mb/TMP''],
           [''s3://hrrrzarr/sfc/20211231/20211231_23z_anl.zarr/1000mb/TMP/1000mb''],
           [''s3://hrrrzarr/sfc/20220101/20220101_00z_anl.zarr/1000mb/TMP/1000mb'']])
   \<and> (\<exists>grid c g.
         load demo_env ''s3://hrrrzarr/sfc/20211231/20211231_23z_anl.zarr/1000mb/TMP'' None = Inr grid
       \<and> add_grid grid c = Inr g
       \<and> coord_names grid \<subseteq> {''x'', ''y'', ''time''}
       \<and> ''TMP'' \<in> set (var_names c)
       \<and> attrs g = attrs c
       \<and> lookup_var g ''TMP'' = lookup_var c ''TMP''
       \<and> (''TMP'' \<in> coord_names g) = (''TMP'' \<in> coord_names c)
       \<and> lookup_var g ''x'' = lookup_var grid ''x'' \<and> lookup_var g ''y'' = lookup_var grid ''y''
       \<and> lookup_var demo_combined_not_mf ''x'' = lookup_var grid ''x''
       \<and> set (var_names g) = set (var_names c) \<union> {''x'', ''y''})"
proof -
  from grid_assignment_frame[OF demo_run_not_mf] obtain group_url grid datasets c g where
    f: "group_url_at (libc demo_env) new_years_eve ''1000mb'' ''TMP'' = Inr group_url"
       "load demo_env group_url None = Inr grid"
       "add_grid grid c = Inr g"
       "assign_latitude_longitude (transform demo_env) (assign_crs (to_cf projection) g)
          = Inr demo_combined_not_mf"
       "attrs g = attrs c"
       "\<forall>k\<in>set (var_names c). k \<noteq> ''x'' \<and> k \<noteq> ''y'' \<longrightarrow>
               lookup_var g k = lookup_var c k \<and> (k \<in> coord_names g) = (k \<in> coord_names c)"
       "lookup_var g ''x'' = lookup_var grid ''x''" "lookup_var g ''y'' = lookup_var grid ''y''"
       "lookup_var demo_combined_not_mf ''x'' = lookup_var grid ''x''"
       "coord_names grid \<subseteq> {''x'', ''y'', ''time''} \<longrightarrow>
               set (var_names g) = set (var_names c) \<union> {''x'', ''y''}"
    apply (elim exE conjE) apply (rule that; assumption) done
  have u: "group_url = ''s3://hrrrzarr/sfc/20211231/20211231_23z_anl.zarr/1000mb/TMP''"
    using f(1) unfolding demo_grid_url by simp
  have g: "grid = demo_grid_loaded" using f(2) unfolding u demo_load_grid by simp
  have cg: "coord_names grid \<subseteq> {''x'', ''y'', ''time''}"
    unfolding g by (simp add: demo_grid_loaded_def)
  then have names: "set (var_names g) = set (var_names c) \<union> {''x'', ''y''}" using f(10) by simp
  have "''TMP'' \<in> set (var_names demo_combined_not_mf)"
    by (simp add: var_names_def demo_combined_not_mf_def)
  then have "''TMP'' \<in> set (var_names g)"
    using crs_latlon_steps(3)[OF f(4) to_cf_names(1)] by auto
  then have tmp: "''TMP'' \<in> set (var_names c)" unfolding names by simp
  then have fr: "lookup_var g ''TMP'' = lookup_var c ''TMP''"
    "(''TMP'' \<in> coord_names g) = (''TMP'' \<in> coord_names c)" using f(6) by auto
  note l = f(2)[unfolded u]
  have "\<exists>grid c g.
         load demo_env ''s3://hrrrzarr/sfc/20211231/20211231_23z_anl.zarr/1000mb/TMP'' None = Inr grid
       \<and> add_grid grid c = Inr g
       \<and> coord_names grid \<subseteq> {''x'', ''y'', ''time''}
       \<and> ''TMP'' \<in> set (var_names c)
       \<and> attrs g = attrs c
       \<and> lookup_var g ''TMP'' = lookup_var c ''TMP''
       \<and> (''TMP'' \<in> coord_names g) = (''TMP'' \<in> coord_names c)
       \<and> lookup_var g ''x'' = lookup_var grid ''x'' \<and> lookup_var g ''y'' = lookup_var grid ''y''
       \<and> lookup_var demo_combined_not_mf ''x'' = lookup_var grid ''x''
       \<and> set (var_names g) = set (var_names c) \<union> {''x'', ''y''}"
    by (rule exI[of _ grid], rule exI[of _ c], rule exI[of _ g])
       (intro conjI; fact l f(3,5,7,8,9) cg tmp fr names)
  with demo_run_not_mf show ?thesis by (rule conjI)
qed

section \<open>Concatenating one more hour\<close>

lemma xr_concat_nonempty:
  assumes "dss \<noteq> []"
  shows "xr_concat mode dss =
     (if \<forall>d\<in>set dss. concat_ok (hd dss) d
      then Inr \<lparr>variables = map (\<lambda>p. (fst p, concat_var dss (fst p) (snd p))) (variables (hd dss)),
                coord_names = coord_names (hd dss),
                attrs = merge_attrs mode (map attrs dss)\<rparr>
      else Inl Unsupported)"
  using assms unfolding xr_concat_def by (cases dss) simp_all

lemma stacked_iff:
  fixes X :: "'e dataset"
  shows "(xr_concat mode ps = Inr X) = (stacked ps X \<and> attrs X = merge_attrs mode (map attrs ps))"
proof (cases "ps = []")
  case True
  then show ?thesis by (simp add: xr_concat_def stacked_def)
next
  case False
  show ?thesis unfolding xr_concat_nonempty[OF False] stacked_def using False
    by (cases X) auto
qed

lemma concat_ok_lookup:
  assumes "concat_ok d0 d" "lookup_var d0 k = Some v0"
  shows "\<exists>v. lookup_var d k = Some v \<and> compatible_var (k \<in> coord_names d0) k v0 v"
proof -
  have "k \<in> set (var_names d0)" by (rule lookup_var_in_names[OF assms(2)])
  then have "k \<in> set (var_names d)" using assms(1) unfolding concat_ok_def by simp
  then have "map_of (variables d) k \<noteq> None"
    unfolding var_names_def by (simp add: map_of_eq_None_iff)
  then obtain v where v: "map_of (variables d) k = Some v" by auto
  then have "(k, v) \<in> set (variables d)" by (rule map_of_SomeD)
  then have "case lookup_var d0 (fst (k, v)) of
               Some v0 \<Rightarrow> compatible_var (fst (k, v) \<in> coord_names d0) (fst (k, v)) v0 (snd (k, v))
             | None \<Rightarrow> False"
    using assms(1) unfolding concat_ok_def by blast
  then have "compatible_var (k \<in> coord_names d0) k v0 v" using assms(2) by simp
  then show ?thesis using v unfolding lookup_var_def by simp
qed

lemma slices_hourly:
  assumes "\<forall>d\<in>set ps. ''time'' \<notin> ds_dims d \<and> (\<exists>g. lookup_var d k = Some (Fixed g) \<and> P g)"
  shows "length (concat (map (\<lambda>d. case lookup_var d k of Some v \<Rightarrow> slices (steps d) v | None \<Rightarrow> []) ps))
           = length ps"
    and "\<forall>g\<in>set (concat (map (\<lambda>d. case lookup_var d k of Some v \<Rightarrow> slices (steps d) v | None \<Rightarrow> []) ps)). P g"
  using assms by (induction ps) (auto simp: steps_without_time(1) slices_def)

lemma slices_same:
  assumes "\<forall>d\<in>set ps. ''time'' \<notin> ds_dims d \<and> lookup_var d k = Some (Fixed g0)"
  shows "concat (map (\<lambda>d. case lookup_var d k of Some v \<Rightarrow> slices (steps d) v | None \<Rightarrow> []) ps)
           = replicate (length ps) g0"
  using assms by (induction ps) (auto simp: steps_without_time(1) slices_def)

lemma series_lengths_const:
  assumes "\<forall>q\<in>set vs. \<forall>gs. snd q = Series gs \<longrightarrow> length gs = n"
    and "\<exists>q\<in>set vs. \<exists>gs. snd q = Series gs"
  shows "\<exists>rest. series_lengths vs = n # rest"
  using assms
proof (induction vs rule: series_lengths.induct)
  case 1
  then show ?case by simp
next
  case (2 k g vs)
  then show ?case by simp
next
  case (3 k gs vs)
  then show ?case by simp
qed

lemma same_layout_equiv:
  "same_layout g g"
  "same_layout g h \<Longrightarrow> same_layout h g"
  "same_layout g h \<Longrightarrow> same_layout h k \<Longrightarrow> same_layout g k"
  unfolding same_layout_def by simp_all

lemma stacked_vars:
  assumes st: "stacked ps X" and nt: "\<forall>d\<in>set ps. ''time'' \<notin> ds_dims d"
  shows "var_names X = var_names (hd ps)"
    and "distinct (var_names (hd ps))"
    and "\<And>k. lookup_var X k = map_option (concat_var ps k) (lookup_var (hd ps) k)"
    and "\<And>k v0 d. lookup_var (hd ps) k = Some v0 \<Longrightarrow> d \<in> set ps \<Longrightarrow>
           \<exists>g0 g. v0 = Fixed g0 \<and> lookup_var d k = Some (Fixed g) \<and> same_layout g0 g
              \<and> (k \<in> coord_names (hd ps) \<and> dims g0 = [k] \<longrightarrow> g = g0)"
proof -
  define d0 where "d0 = hd ps"
  have ne: "ps \<noteq> []" and ok: "\<forall>d\<in>set ps. concat_ok d0 d"
    and vX: "variables X = map (\<lambda>q. (fst q, concat_var ps (fst q) (snd q))) (variables d0)"
    using st unfolding stacked_def d0_def by simp_all
  have d0in: "d0 \<in> set ps" unfolding d0_def using ne by simp
  show "var_names X = var_names (hd ps)"
    unfolding var_names_def vX d0_def by (simp add: comp_def)
  show "distinct (var_names (hd ps))"
    using ok d0in unfolding concat_ok_def d0_def by blast
  show "lookup_var X k = map_option (concat_var ps k) (lookup_var (hd ps) k)" for k
    unfolding lookup_var_def vX d0_def by (rule map_of_map_keyed)
  show "\<exists>g0 g. v0 = Fixed g0 \<and> lookup_var d k = Some (Fixed g) \<and> same_layout g0 g
              \<and> (k \<in> coord_names (hd ps) \<and> dims g0 = [k] \<longrightarrow> g = g0)"
    if l: "lookup_var (hd ps) k = Some v0" and d: "d \<in> set ps" for k v0 d
  proof -
    have "''time'' \<notin> ds_dims d0" using nt d0in by simp
    from steps_without_time(2)[OF this l[folded d0_def]] obtain g0 where g0: "v0 = Fixed g0" by blast
    have "concat_ok d0 d" using ok d by simp
    from concat_ok_lookup[OF this l[folded d0_def]] obtain v where
      v: "lookup_var d k = Some v" "compatible_var (k \<in> coord_names d0) k v0 v" by blast
    have "''time'' \<notin> ds_dims d" using nt d by simp
    from steps_without_time(2)[OF this v(1)] obtain g where g: "v = Fixed g" by blast
    have "same_layout g0 g" "k \<in> coord_names d0 \<and> dims g0 = [k] \<longrightarrow> g = g0"
      using v(2) unfolding g0 g compatible_var_def grids_def is_index_def by simp_all
    then show ?thesis using g0 v(1) g unfolding d0_def by blast
  qed
qed

lemma stacked_slices:
  assumes st: "stacked ps X" and nt: "\<forall>d\<in>set ps. ''time'' \<notin> ds_dims d"
    and l: "lookup_var (hd ps) k = Some (Fixed g0)"
  shows "length (concat (map (\<lambda>d. case lookup_var d k of Some v \<Rightarrow> slices (steps d) v | None \<Rightarrow> []) ps))
           = length ps"
    and "\<forall>g\<in>set (concat (map (\<lambda>d. case lookup_var d k of Some v \<Rightarrow> slices (steps d) v | None \<Rightarrow> []) ps)).
           same_layout g0 g"
    and "\<not> concat_over ps k \<Longrightarrow>
           concat (map (\<lambda>d. case lookup_var d k of Some v \<Rightarrow> slices (steps d) v | None \<Rightarrow> []) ps)
             = replicate (length ps) g0"
    and "concat_over ps k \<Longrightarrow> k \<in> coord_names (hd ps) \<Longrightarrow> dims g0 \<noteq> [k]"
proof -
  note sv = stacked_vars[OF st nt]
  have a: "\<forall>d\<in>set ps. ''time'' \<notin> ds_dims d \<and> (\<exists>g. lookup_var d k = Some (Fixed g) \<and> same_layout g0 g)"
  proof
    fix d assume d: "d \<in> set ps"
    from sv(4)[OF l d] have "\<exists>g. lookup_var d k = Some (Fixed g) \<and> same_layout g0 g" by auto
    then show "''time'' \<notin> ds_dims d \<and> (\<exists>g. lookup_var d k = Some (Fixed g) \<and> same_layout g0 g)"
      using nt d by simp
  qed
  show "length (concat (map (\<lambda>d. case lookup_var d k of Some v \<Rightarrow> slices (steps d) v | None \<Rightarrow> []) ps))
           = length ps"
    by (rule slices_hourly(1)[OF a])
  show "\<forall>g\<in>set (concat (map (\<lambda>d. case lookup_var d k of Some v \<Rightarrow> slices (steps d) v | None \<Rightarrow> []) ps)).
           same_layout g0 g"
    by (rule slices_hourly(2)[OF a])
  show "concat (map (\<lambda>d. case lookup_var d k of Some v \<Rightarrow> slices (steps d) v | None \<Rightarrow> []) ps)
             = replicate (length ps) g0" if n: "\<not> concat_over ps k"
  proof (rule slices_same, rule ballI)
    fix d assume d: "d \<in> set ps"
    from sv(4)[OF l d] obtain g where g: "lookup_var d k = Some (Fixed g)" by auto
    have "\<not> (case lookup_var d k of Some (Series gs) \<Rightarrow> True | v \<Rightarrow> v \<noteq> lookup_var (hd ps) k)"
      using n d unfolding concat_over_def by blast
    then have "lookup_var d k = lookup_var (hd ps) k" unfolding g by simp
    then show "''time'' \<notin> ds_dims d \<and> lookup_var d k = Some (Fixed g0)"
      using nt d l by simp
  qed
  show "dims g0 \<noteq> [k]" if c: "concat_over ps k" and co: "k \<in> coord_names (hd ps)"
  proof
    assume ix: "dims g0 = [k]"
    have "hd ps \<in> set ps" using st unfolding stacked_def by simp
    then have t0: "''time'' \<notin> ds_dims (hd ps)" using nt by simp
    have "(k, Fixed g0) \<in> set (variables (hd ps))"
      using l unfolding lookup_var_def by (rule map_of_SomeD)
    then have "k \<in> ds_dims (hd ps)" unfolding ds_dims_def var_dims_def using ix by force
    then have kt: "k \<noteq> ''time''" using t0 by auto
    from c kt co obtain d where d: "d \<in> set ps"
      "case lookup_var d k of Some (Series gs) \<Rightarrow> True | v \<Rightarrow> v \<noteq> lookup_var (hd ps) k"
      unfolding concat_over_def by blast
    from sv(4)[OF l d(1)] co ix have "lookup_var d k = Some (Fixed g0)" by auto
    then show False using d(2) l by simp
  qed
qed

lemma stacked_result:
  assumes st: "stacked ps X" and nt: "\<forall>d\<in>set ps. ''time'' \<notin> ds_dims d"
    and l: "lookup_var X k = Some v"
  shows "\<exists>g0. lookup_var (hd ps) k = Some (Fixed g0)
           \<and> (\<forall>g\<in>set (grids v). same_layout g0 g) \<and> grids v \<noteq> []
           \<and> (if concat_over ps k
               then v = Series (concat (map (\<lambda>d. case lookup_var d k of
                                  Some v \<Rightarrow> slices (steps d) v | None \<Rightarrow> []) ps))
                    \<and> length (grids v) = length ps
                    \<and> \<not> (k \<in> coord_names (hd ps) \<and> dims g0 = [k])
               else v = Fixed g0)"
proof -
  note sv = stacked_vars[OF st nt]
  have ne: "ps \<noteq> []" and d0in: "hd ps \<in> set ps" using st unfolding stacked_def by simp_all
  from l obtain v0 where v0: "lookup_var (hd ps) k = Some v0" and v: "v = concat_var ps k v0"
    unfolding sv(3) by auto
  from sv(4)[OF v0 d0in] obtain g0 where g0: "v0 = Fixed g0" by blast
  note l0 = v0[unfolded g0]
  note ss = stacked_slices[OF st nt l0]
  show ?thesis
  proof (cases "concat_over ps k")
    case True
    have e: "v = Series (concat (map (\<lambda>d. case lookup_var d k of
                                  Some v \<Rightarrow> slices (steps d) v | None \<Rightarrow> []) ps))"
      unfolding v concat_var_def using True by simp
    have len: "length (grids v) = length ps" unfolding e grids_def using ss(1) by simp
    then have "grids v \<noteq> []" using ne by auto
    moreover have "\<forall>g\<in>set (grids v). same_layout g0 g" unfolding e grids_def using ss(2) by simp
    moreover have "\<not> (k \<in> coord_names (hd ps) \<and> dims g0 = [k])" using ss(4)[OF True] by blast
    ultimately show ?thesis using l0 True e len by simp
  next
    case False
    have e: "v = Fixed g0" unfolding v concat_var_def g0 using False by simp
    show ?thesis using l0 False unfolding e grids_def by (simp add: same_layout_equiv(1))
  qed
qed

lemma stacked_steps:
  assumes st: "stacked ps X" and nt: "\<forall>d\<in>set ps. ''time'' \<notin> ds_dims d"
    and nb: "ds_bool (hd ps)"
  shows "steps X = length ps" and "ds_bool X"
proof -
  note sv = stacked_vars[OF st nt]
  have cX: "coord_names X = coord_names (hd ps)" using st unfolding stacked_def by simp
  have dX: "distinct (map fst (variables X))" using sv(1,2) unfolding var_names_def by simp
  show b: "ds_bool X" using nb unfolding ds_bool_def data_var_names_def sv(1) cX .
  have a: "\<forall>q\<in>set (variables X). \<forall>gs. snd q = Series gs \<longrightarrow> length gs = length ps"
  proof (intro ballI allI impI)
    fix q gs assume q: "q \<in> set (variables X)" and s: "snd q = Series gs"
    have "(fst q, snd q) \<in> set (variables X)" using q by simp
    then have l: "lookup_var X (fst q) = Some (Series gs)"
      unfolding lookup_var_def s[symmetric] using dX by simp
    from stacked_result[OF st nt l] show "length gs = length ps"
      by (auto simp: grids_def split: if_splits)
  qed
  from b obtain k where k: "k \<in> set (var_names X)" "k \<notin> coord_names X"
    unfolding ds_bool_def data_var_names_def by (auto simp: filter_empty_conv)
  then have "map_of (variables X) k \<noteq> None"
    unfolding var_names_def by (simp add: map_of_eq_None_iff)
  then obtain v where v: "lookup_var X k = Some v" unfolding lookup_var_def by auto
  have co: "concat_over ps k" unfolding concat_over_def using k(2) cX by simp
  from stacked_result[OF st nt v] co obtain gs where gs: "v = Series gs" by auto
  have "(k, Series gs) \<in> set (variables X)"
    using v unfolding gs lookup_var_def by (rule map_of_SomeD)
  then have "\<exists>q\<in>set (variables X). \<exists>gs. snd q = Series gs" by force
  from series_lengths_const[OF a this] obtain rest where
    "series_lengths (variables X) = length ps # rest" by blast
  then show "steps X = length ps" unfolding steps_def time_len_def by simp
qed

lemma stacked_self_ok:
  assumes st: "stacked ps X" and nt: "\<forall>d\<in>set ps. ''time'' \<notin> ds_dims d"
  shows "concat_ok X X"
proof -
  note sv = stacked_vars[OF st nt]
  have dX: "distinct (map fst (variables X))" using sv(1,2) unfolding var_names_def by simp
  have "case lookup_var X (fst q) of
          Some v0 \<Rightarrow> compatible_var (fst q \<in> coord_names X) (fst q) v0 (snd q)
        | None \<Rightarrow> False" if q: "q \<in> set (variables X)" for q
  proof -
    have "(fst q, snd q) \<in> set (variables X)" using q by simp
    then have l: "lookup_var X (fst q) = Some (snd q)"
      unfolding lookup_var_def using dX by simp
    from stacked_result[OF st nt l] obtain g0 where
      g: "\<forall>g\<in>set (grids (snd q)). same_layout g0 g" by blast
    have "\<forall>g\<in>set (grids (snd q)). \<forall>h\<in>set (grids (snd q)). same_layout g h"
      using g same_layout_equiv(2,3) by blast
    then show ?thesis unfolding l compatible_var_def by simp
  qed
  then show ?thesis unfolding concat_ok_def using dX unfolding var_names_def by simp
qed

lemma stacked_next_ok:
  assumes st: "stacked ps X" and nt: "\<forall>d\<in>set ps. ''time'' \<notin> ds_dims d"
  shows "concat_ok X p = concat_ok (hd ps) p"
proof -
  note sv = stacked_vars[OF st nt]
  have cX: "coord_names X = coord_names (hd ps)" using st unfolding stacked_def by simp
  have "(case lookup_var X k of Some v0 \<Rightarrow> compatible_var (k \<in> coord_names (hd ps)) k v0 v
          | None \<Rightarrow> False)
      = (case lookup_var (hd ps) k of Some v0 \<Rightarrow> compatible_var (k \<in> coord_names (hd ps)) k v0 v
          | None \<Rightarrow> False)" for k v
  proof (cases "lookup_var X k")
    case None
    then have "lookup_var (hd ps) k = None" unfolding sv(3) by simp
    then show ?thesis using None by simp
  next
    case (Some vX)
    from stacked_result[OF st nt Some] obtain g0 where
      r: "lookup_var (hd ps) k = Some (Fixed g0)"
         "\<forall>g\<in>set (grids vX). same_layout g0 g" "grids vX \<noteq> []"
         "if concat_over ps k
          then vX = Series (concat (map (\<lambda>d. case lookup_var d k of
                                  Some v \<Rightarrow> slices (steps d) v | None \<Rightarrow> []) ps))
               \<and> length (grids vX) = length ps
               \<and> \<not> (k \<in> coord_names (hd ps) \<and> dims g0 = [k])
          else vX = Fixed g0" by blast
    from r(3) obtain gX where gX: "gX \<in> set (grids vX)" by (cases "grids vX") auto
    have lay: "(\<forall>a\<in>set (grids vX). \<forall>g\<in>set (grids v). same_layout a g)
             = (\<forall>g\<in>set (grids v). same_layout g0 g)"
    proof
      assume a: "\<forall>a\<in>set (grids vX). \<forall>g\<in>set (grids v). same_layout a g"
      show "\<forall>g\<in>set (grids v). same_layout g0 g"
      proof
        fix g assume "g \<in> set (grids v)"
        then have "same_layout gX g" using a gX by blast
        moreover have "same_layout g0 gX" using r(2) gX by blast
        ultimately show "same_layout g0 g" by (rule same_layout_equiv(3)[rotated])
      qed
    next
      assume a: "\<forall>g\<in>set (grids v). same_layout g0 g"
      show "\<forall>a\<in>set (grids vX). \<forall>g\<in>set (grids v). same_layout a g"
      proof (intro ballI)
        fix b g assume "b \<in> set (grids vX)" "g \<in> set (grids v)"
        then have "same_layout g0 b" "same_layout g0 g" using r(2) a by blast+
        then show "same_layout b g" using same_layout_equiv(2,3) by blast
      qed
    qed
    have ix: "(k \<in> coord_names (hd ps) \<and> is_index k vX \<longrightarrow> v = vX)
            = (k \<in> coord_names (hd ps) \<and> is_index k (Fixed g0) \<longrightarrow> v = Fixed g0)"
    proof (cases "concat_over ps k")
      case True
      then show ?thesis using r(4) by (auto simp: is_index_def)
    next
      case False
      then show ?thesis using r(4) by simp
    qed
    show ?thesis unfolding Some r(1) option.case compatible_var_def grids_def[of "Fixed g0"]
      using lay ix by simp
  qed
  then show ?thesis unfolding concat_ok_def sv(1) cX by simp
qed

lemma stacked_next_var:
  assumes st: "stacked ps X" and nt: "\<forall>d\<in>set ps. ''time'' \<notin> ds_dims d"
    and nb: "ds_bool (hd ps)" and np: "''time'' \<notin> ds_dims p"
    and okp: "concat_ok (hd ps) p" and q: "q \<in> set (variables (hd ps))"
  shows "concat_var [X, p] (fst q) (concat_var ps (fst q) (snd q))
           = concat_var (ps @ [p]) (fst q) (snd q)"
proof -
  define k where "k = fst q"
  note sv = stacked_vars[OF st nt]
  have ne: "ps \<noteq> []" and d0in: "hd ps \<in> set ps"
    and cX: "coord_names X = coord_names (hd ps)" using st unfolding stacked_def by simp_all
  have hdapp: "hd (ps @ [p]) = hd ps" using ne by simp
  have "(fst q, snd q) \<in> set (variables (hd ps))" using q by simp
  then have lq: "lookup_var (hd ps) k = Some (snd q)"
    unfolding lookup_var_def k_def using sv(2) unfolding var_names_def by simp
  from sv(4)[OF lq d0in] obtain g0 where g0: "snd q = Fixed g0" by blast
  note l0 = lq[unfolded g0]
  have lX: "lookup_var X k = Some (concat_var ps k (Fixed g0))" unfolding sv(3) l0 by simp
  from concat_ok_lookup[OF okp l0] obtain vp where vp: "lookup_var p k = Some vp" by blast
  from steps_without_time(2)[OF np vp] obtain gp where gp: "vp = Fixed gp" by blast
  note lp = vp[unfolded gp]
  note sp = steps_without_time(1)[OF np]
  note sX = stacked_steps(1)[OF st nt nb]
  note ss = stacked_slices[OF st nt l0]
  define S where "S = concat (map (\<lambda>d. case lookup_var d k of
                                  Some v \<Rightarrow> slices (steps d) v | None \<Rightarrow> []) ps)"
  have goal: "concat_var [X, p] k (concat_var ps k (Fixed g0)) = concat_var (ps @ [p]) k (Fixed g0)"
  proof (cases "concat_over ps k")
    case True
    have cv: "concat_var ps k (Fixed g0) = Series S"
      unfolding concat_var_def S_def using True by simp
    have c1: "concat_over [X, p] k" unfolding concat_over_def using lX[unfolded cv] by simp
    have c2: "concat_over (ps @ [p]) k" using True unfolding concat_over_def hdapp by auto
    have "concat_var [X, p] k (Series S) = Series (S @ [gp])"
      unfolding concat_var_def using c1 lX[unfolded cv] lp sp by (simp add: slices_def)
    moreover have "concat_var (ps @ [p]) k (Fixed g0) = Series (S @ [gp])"
      unfolding concat_var_def using c2 lp sp by (simp add: slices_def S_def)
    ultimately show ?thesis unfolding cv by simp
  next
    case False
    have cv: "concat_var ps k (Fixed g0) = Fixed g0"
      unfolding concat_var_def using False by simp
    have kk: "k \<noteq> ''time''" "k \<in> coord_names (hd ps)"
      and ex: "\<not> (\<exists>d\<in>set ps. case lookup_var d k of Some (Series gs) \<Rightarrow> True
                                   | v \<Rightarrow> v \<noteq> lookup_var (hd ps) k)"
      using False unfolding concat_over_def by blast+
    have c1: "concat_over [X, p] k = (gp \<noteq> g0)"
      unfolding concat_over_def using kk cX lX[unfolded cv] lp by simp
    have c2: "concat_over (ps @ [p]) k = (gp \<noteq> g0)"
      unfolding concat_over_def hdapp using kk ex lp l0 by (simp add: bex_Un)
    show ?thesis
    proof (cases "gp = g0")
      case True
      show ?thesis unfolding cv unfolding concat_var_def c1 c2 using True by simp
    next
      case ne: False
      have "concat_var [X, p] k (Fixed g0) = Series (replicate (length ps) g0 @ [gp])"
        unfolding concat_var_def c1 using ne lX[unfolded cv] lp sp sX by (simp add: slices_def)
      moreover have "concat_var (ps @ [p]) k (Fixed g0) = Series (S @ [gp])"
        unfolding concat_var_def c2 using ne lp sp by (simp add: slices_def S_def)
      moreover have "S = replicate (length ps) g0" unfolding S_def by (rule ss(3)[OF False])
      ultimately show ?thesis unfolding cv by simp
    qed
  qed
  show ?thesis using goal unfolding k_def g0 .
qed

lemma stacked_snoc:
  assumes st: "stacked ps X" and nt: "\<forall>d\<in>set ps. ''time'' \<notin> ds_dims d"
    and nb: "ds_bool (hd ps)" and np: "''time'' \<notin> ds_dims p"
  shows "xr_concat m [X, p] =
     (if concat_ok (hd ps) p
      then Inr \<lparr>variables = map (\<lambda>q. (fst q, concat_var (ps @ [p]) (fst q) (snd q))) (variables (hd ps)),
                coord_names = coord_names (hd ps),
                attrs = merge_attrs m [attrs X, attrs p]\<rparr>
      else Inl Unsupported)"
proof -
  have vX: "variables X = map (\<lambda>q. (fst q, concat_var ps (fst q) (snd q))) (variables (hd ps))"
    and cX: "coord_names X = coord_names (hd ps)" using st unfolding stacked_def by simp_all
  have c: "(\<forall>d\<in>set [X, p]. concat_ok (hd [X, p]) d) = concat_ok (hd ps) p"
    using stacked_self_ok[OF st nt] stacked_next_ok[OF st nt] by simp
  have x: "xr_concat m [X, p] =
     (if \<forall>d\<in>set [X, p]. concat_ok (hd [X, p]) d
      then Inr \<lparr>variables = map (\<lambda>q. (fst q, concat_var [X, p] (fst q) (snd q))) (variables (hd [X, p])),
                coord_names = coord_names (hd [X, p]),
                attrs = merge_attrs m (map attrs [X, p])\<rparr>
      else Inl Unsupported)"
    by (rule xr_concat_nonempty) simp
  show ?thesis
  proof (cases "concat_ok (hd ps) p")
    case True
    have "map (\<lambda>q. (fst q, concat_var [X, p] (fst q) (snd q))) (variables X)
        = map (\<lambda>q. (fst q, concat_var [X, p] (fst q) (concat_var ps (fst q) (snd q)))) (variables (hd ps))"
      unfolding vX by (simp add: comp_def)
    also have "\<dots> = map (\<lambda>q. (fst q, concat_var (ps @ [p]) (fst q) (snd q))) (variables (hd ps))"
      by (rule map_cong[OF refl]) (simp add: stacked_next_var[OF st nt nb np True])
    finally show ?thesis unfolding x c using True cX by simp
  next
    case False
    then show ?thesis unfolding x c by simp
  qed
qed

lemma stacked_snoc_result:
  assumes st: "stacked ps X" and nt: "\<forall>d\<in>set ps. ''time'' \<notin> ds_dims d"
    and nb: "ds_bool (hd ps)" and np: "''time'' \<notin> ds_dims p"
    and r: "xr_concat m [X, p] = Inr X'"
  shows "stacked (ps @ [p]) X'" and "attrs X' = merge_attrs m [attrs X, attrs p]"
    and "concat_ok (hd ps) p"
proof -
  note sn = stacked_snoc[OF st nt nb np, of m]
  show ok: "concat_ok (hd ps) p" using r unfolding sn by (simp split: if_splits)
  have X': "X' = \<lparr>variables = map (\<lambda>q. (fst q, concat_var (ps @ [p]) (fst q) (snd q))) (variables (hd ps)),
                coord_names = coord_names (hd ps),
                attrs = merge_attrs m [attrs X, attrs p]\<rparr>"
    using r unfolding sn using ok by simp
  have ne: "ps \<noteq> []" and oks: "\<forall>d\<in>set ps. concat_ok (hd ps) d"
    using st unfolding stacked_def by simp_all
  show "stacked (ps @ [p]) X'" unfolding stacked_def X' using ne oks ok by simp
  show "attrs X' = merge_attrs m [attrs X, attrs p]" unfolding X' by simp
qed

lemma pairwise_stacked:
  assumes "stacked ps X" "\<forall>d\<in>set ps. ''time'' \<notin> ds_dims d" "ds_bool (hd ps)"
    and "\<forall>d\<in>set rest. ''time'' \<notin> ds_dims d"
    and "pairwise_concat (Some X) rest = Inr r"
  shows "\<exists>X'. r = Some X' \<and> stacked (ps @ rest) X'"
  using assms
proof (induction rest arbitrary: ps X)
  case Nil
  then show ?case by auto
next
  case (Cons p rest)
  have b: "ds_bool X" by (rule stacked_steps(2)[OF Cons.prems(1,2,3)])
  have np: "''time'' \<notin> ds_dims p" using Cons.prems(4) by simp
  from Cons.prems(5) b obtain X' where
    c: "xr_concat DropConflicts [X, p] = Inr X'" and run: "pairwise_concat (Some X') rest = Inr r"
    by (auto split: sum.splits)
  note sr = stacked_snoc_result[OF Cons.prems(1,2,3) np c]
  have ne: "ps \<noteq> []" using Cons.prems(1) unfolding stacked_def by simp
  have 2: "\<forall>d\<in>set (ps @ [p]). ''time'' \<notin> ds_dims d" using Cons.prems(2) np by simp
  have 3: "ds_bool (hd (ps @ [p]))" using Cons.prems(3) ne by simp
  have 4: "\<forall>d\<in>set rest. ''time'' \<notin> ds_dims d" using Cons.prems(4) by simp
  from Cons.IH[OF sr(1) 2 3 4 run] show ?case by simp
qed

lemma pairwise_none:
  assumes h: "\<forall>d\<in>set ps. hourly d" and run: "pairwise_concat None ps = Inr r"
  shows "(ps = [] \<and> r = None) \<or> (\<exists>p. ps = [p] \<and> r = Some p)
         \<or> (\<exists>X. 2 \<le> length ps \<and> r = Some X \<and> stacked ps X)"
proof (cases ps)
  case Nil
  then show ?thesis using run by simp
next
  case (Cons p0 rest)
  show ?thesis
  proof (cases rest)
    case Nil
    then show ?thesis using run Cons by simp
  next
    case (Cons p1 rest')
    note ps = \<open>ps = p0 # rest\<close>[unfolded Cons]
    have b0: "ds_bool p0" and nt: "\<forall>d\<in>set ps. ''time'' \<notin> ds_dims d"
      using h unfolding ps hourly_def by simp_all
    from run b0 obtain X1 where
      c: "xr_concat DropConflicts [p0, p1] = Inr X1" and r: "pairwise_concat (Some X1) rest' = Inr r"
      unfolding ps by (auto split: sum.splits)
    have st: "stacked [p0, p1] X1" using c unfolding stacked_iff by simp
    have 2: "\<forall>d\<in>set [p0, p1]. ''time'' \<notin> ds_dims d" using nt unfolding ps by simp
    have 3: "ds_bool (hd [p0, p1])" using b0 by simp
    have 4: "\<forall>d\<in>set rest'. ''time'' \<notin> ds_dims d" using nt unfolding ps by simp
    from pairwise_stacked[OF st 2 3 4 r] obtain X where "r = Some X" "stacked ps X"
      unfolding ps by auto
    then show ?thesis unfolding ps by simp
  qed
qed

lemma load_dataset_time_coord:
  assumes "load_dataset E urls = Inr p"
  shows "''time'' \<in> coord_names p"
proof -
  from assms obtain d where "set_coords ''time'' d = Inr p"
    unfolding load_dataset_def bind_err_def by (auto split: sum.splits)
  from set_coords_result(2)[OF this] show ?thesis by simp
qed

lemma stacked_time_values:
  assumes st: "stacked ps X"
    and h: "list_all2 (\<lambda>d t. lookup_var d ''time'' = Some (Fixed (scalar_grid (Stamp t)))
                          \<and> ''time'' \<notin> ds_dims d) ps ts"
  shows "time_values X = map Stamp ts"
proof -
  define c where "c = X\<lparr>attrs := merge_attrs Override (map attrs ps)\<rparr>"
  have "stacked ps c" using st unfolding stacked_def c_def by simp
  then have "xr_concat Override ps = Inr c" unfolding stacked_iff c_def by simp
  from concat_time_hourly(2)[OF this h] have "time_values c = map Stamp ts" .
  moreover have "time_values X = time_values c"
    by (rule time_values_eq) (simp add: lookup_var_def c_def)
  ultimately show ?thesis by simp
qed

lemma mf_time_axis:
  assumes run: "load_combined_dataset E start_date n level param = (Inr (Some ds), tr)"
    and arch: "\<forall>i<nat n. \<forall>time g s p.
        hour_urls (libc E) start_date i level param = Inr (time, g, s)
        \<and> load_dataset E [g, s] = Inr p \<longrightarrow> hourly_at time p"
  shows "\<exists>ts. ts \<noteq> [] \<and> length ts = nat n \<and> (\<forall>i<nat n. add_hours start_date i = Inr (ts ! i))
           \<and> time_values ds = map Stamp ts"
    and "''time'' \<in> coord_names ds"
proof -
  from combine_hours_success[OF run[unfolded load_combined_dataset_def]] obtain us ps where
    len: "length us = nat n" "length ps = nat n"
    and ld: "\<forall>j<nat n. hour_urls (libc E) start_date ([0..<nat n] ! j) level param = Inr (us ! j)
                \<and> load_dataset E [fst (snd (us ! j)), snd (snd (us ! j))] = Inr (ps ! j)"
    and pc: "pairwise_concat None ps = Inr (Some ds)"
    by auto
  define ts where "ts = map fst us"
  have at: "hourly_at (ts ! j) (ps ! j) \<and> add_hours start_date j = Inr (ts ! j)
            \<and> ''time'' \<in> coord_names (ps ! j)" if j: "j < nat n" for j
  proof -
    have u: "hour_urls (libc E) start_date j level param = Inr (us ! j)"
      and l: "load_dataset E [fst (snd (us ! j)), snd (snd (us ! j))] = Inr (ps ! j)"
      using ld j by simp_all
    have u': "hour_urls (libc E) start_date j level param
            = Inr (fst (us ! j), fst (snd (us ! j)), snd (snd (us ! j)))" using u by simp
    have "hourly_at (fst (us ! j)) (ps ! j)"
      by (rule arch[rule_format, OF j conjI[OF u' l]])
    then show ?thesis
      unfolding ts_def using hour_urls_time[OF u] load_dataset_time_coord[OF l] j len by simp
  qed
  have lts: "length ts = nat n" unfolding ts_def using len by simp
  have hs: "\<forall>d\<in>set ps. hourly d"
  proof
    fix d assume "d \<in> set ps"
    then obtain j where "j < nat n" "d = ps ! j" unfolding in_set_conv_nth len by auto
    then show "hourly d" using at unfolding hourly_at_def by blast
  qed
  have la: "list_all2 (\<lambda>d t. lookup_var d ''time'' = Some (Fixed (scalar_grid (Stamp t)))
                          \<and> ''time'' \<notin> ds_dims d) ps ts"
    unfolding list_all2_conv_all_nth using at len lts unfolding hourly_at_def hourly_def by simp
  from pairwise_none[OF hs pc] consider
      (one) p where "ps = [p]" "ds = p"
    | (more) "2 \<le> length ps" "stacked ps ds" by auto
  then have tv: "time_values ds = map Stamp ts \<and> ''time'' \<in> coord_names ds \<and> 0 < nat n"
  proof cases
    case one
    have n: "nat n = 1" using len one by simp
    obtain t0 where t0: "ts = [t0]" using lts n by (cases ts) auto
    from at[of 0] n have "hourly_at t0 ds" "''time'' \<in> coord_names ds"
      unfolding t0 one by simp_all
    then have l: "lookup_var ds ''time'' = Some (Fixed (scalar_grid (Stamp t0)))"
      and c: "''time'' \<in> coord_names ds" unfolding hourly_at_def by simp_all
    have "time_values ds = [Stamp t0]"
      unfolding time_values_def l[unfolded lookup_var_def] by (simp add: scalar_grid_def)
    then show ?thesis using c n unfolding t0 by simp
  next
    case more
    have "0 < nat n" using more(1) len by simp
    moreover have "coord_names ds = coord_names (ps ! 0)"
      using more unfolding stacked_def by (simp add: hd_conv_nth)
    ultimately show ?thesis using stacked_time_values[OF more(2) la] at[of 0] by simp
  qed
  show "''time'' \<in> coord_names ds" using tv by simp
  have ne: "ts \<noteq> []" using tv lts by auto
  have ah: "\<forall>i<nat n. add_hours start_date i = Inr (ts ! i)" using at by simp
  have tvs: "time_values ds = map Stamp ts" using tv by simp
  show "\<exists>ts. ts \<noteq> [] \<and> length ts = nat n \<and> (\<forall>i<nat n. add_hours start_date i = Inr (ts ! i))
           \<and> time_values ds = map Stamp ts"
    by (rule exI[of _ ts]) (intro conjI; fact ne lts ah tvs)
qed

lemma not_mf_time_axis:
  assumes run: "load_combined_dataset_not_mf E start_date n level param = (Inr ds, tr)"
  shows "\<exists>ts. ts \<noteq> [] \<and> length ts = nat n \<and> (\<forall>i<nat n. add_hours start_date i = Inr (ts ! i))
           \<and> time_values ds = map Stamp ts"
    and "''time'' \<in> coord_names ds"
proof -
  from not_mf_stages[OF run] obtain g0 grid us ps c g2 where
    len: "length us = nat n" "length ps = nat n"
    and ld: "\<forall>j<nat n. hour_urls (libc E) start_date j level param = Inr (us ! j)
               \<and> load E (snd (snd (us ! j))) (Some (fst (us ! j))) = Inr (ps ! j)"
    and st: "xr_concat Override ps = Inr c" "add_grid grid c = Inr g2"
      "assign_latitude_longitude (transform E) (assign_crs (to_cf projection) g2) = Inr ds"
    by blast
  define ts where "ts = map fst us"
  have lts: "length ts = nat n" unfolding ts_def using len by simp
  have at: "add_hours start_date j = Inr (ts ! j)
            \<and> lookup_var (ps ! j) ''time'' = Some (Fixed (scalar_grid (Stamp (ts ! j))))
            \<and> ''time'' \<notin> ds_dims (ps ! j) \<and> ''time'' \<in> coord_names (ps ! j)"
    if j: "j < nat n" for j
  proof -
    have u: "hour_urls (libc E) start_date j level param = Inr (us ! j)"
      and l: "load E (snd (snd (us ! j))) (Some (fst (us ! j))) = Inr (ps ! j)"
      using ld j by simp_all
    note r = load_result[OF l]
    show ?thesis unfolding ts_def using hour_urls_time[OF u] r(1,2,3) j len by simp
  qed
  have la: "list_all2 (\<lambda>d t. lookup_var d ''time'' = Some (Fixed (scalar_grid (Stamp t)))
                          \<and> ''time'' \<notin> ds_dims d) ps ts"
    unfolding list_all2_conv_all_nth using at len lts by simp
  note ct = concat_time_hourly[OF st(1) la]
  note cr = xr_concat_result[OF st(1)]
  have "length ps \<noteq> 0" using cr(1) by simp
  then have pos: "0 < nat n" unfolding len(2) by simp
  have tn: "''time'' \<in> set (var_names c)" by (rule lookup_var_in_names[OF ct(1)])
  have fr: "lookup_var g2 ''time'' = lookup_var c ''time''
            \<and> (''time'' \<in> coord_names g2) = (''time'' \<in> coord_names c)"
    by (rule add_grid_frame(4)[OF st(2) tn]) simp_all
  have "lookup_var ds ''time'' = lookup_var (assign_crs (to_cf projection) g2) ''time''"
    by (rule assign_latitude_longitude_lookup[OF st(3)]) simp_all
  also have "\<dots> = lookup_var g2 ''time''" by (rule assign_crs_lookup) simp
  finally have lt: "lookup_var ds ''time'' = lookup_var c ''time''" using fr by simp
  have tv: "time_values ds = map Stamp ts"
    using time_values_eq[OF lt] ct(2) by simp
  have "''time'' \<in> coord_names (hd ps)" using at[OF pos] cr(1) by (simp add: hd_conv_nth)
  then have "''time'' \<in> coord_names g2" using fr unfolding cr(3) by simp
  then have "''time'' \<in> coord_names (assign_crs (to_cf projection) g2)"
    by (simp add: assign_crs_def coord_names_assign_coord)
  then show "''time'' \<in> coord_names ds"
    using assign_latitude_longitude_result(2)[OF st(3)] by auto
  have ne: "ts \<noteq> []" using pos lts by auto
  have ah: "\<forall>i<nat n. add_hours start_date i = Inr (ts ! i)" using at by simp
  show "\<exists>ts. ts \<noteq> [] \<and> length ts = nat n \<and> (\<forall>i<nat n. add_hours start_date i = Inr (ts ! i))
           \<and> time_values ds = map Stamp ts"
    by (rule exI[of _ ts]) (intro conjI; fact ne lts ah tv)
qed

lemma add_hours_seconds:
  assumes "add_hours t i = Inr a"
  shows "(toordinal a - toordinal t) * 86400 + (hour a * 3600 + minute a * 60 + second a)
           = hour t * 3600 + minute t * 60 + second t + i * 3600"
proof -
  define secs where "secs = hour t * 3600 + minute t * 60 + second t + i * 3600"
  define days where "days = toordinal t + secs div 86400"
  define rem where "rem = secs mod 86400"
  have "add_hours t i =
     (if 0 < days \<and> days \<le> MAXORDINAL
      then (case ord2ymd days of (y, m, d) \<Rightarrow>
              Inr \<lparr>year = y, month = m, day = d,
                   hour = rem div 3600, minute = rem mod 3600 div 60, second = rem mod 60,
                   microsecond = microsecond t\<rparr>)
      else Inl OverflowError)"
    unfolding add_hours_def Let_def days_def rem_def secs_def by (rule refl)
  with assms obtain y m d where
    r: "0 < days" "ord2ymd days = (y, m, d)"
       "a = \<lparr>year = y, month = m, day = d,
              hour = rem div 3600, minute = rem mod 3600 div 60, second = rem mod 60,
              microsecond = microsecond t\<rparr>"
    by (auto split: if_splits prod.splits)
  have "1 \<le> days" using r(1) by simp
  from ymd2ord_ord2ymd[OF this r(2)] have ta: "toordinal a = days"
    unfolding toordinal_def r(3) by simp
  have m: "rem mod 3600 mod 60 = rem mod 60" by (rule mod_mod_cancel) simp
  have e1: "rem mod 3600 div 60 * 60 + rem mod 3600 mod 60 = rem mod 3600" by simp
  have e2: "rem div 3600 * 3600 + rem mod 3600 = rem" by simp
  have "rem div 3600 * 3600 + rem mod 3600 div 60 * 60 + rem mod 60
          = rem div 3600 * 3600 + (rem mod 3600 div 60 * 60 + rem mod 3600 mod 60)"
    by (simp only: m add.assoc)
  also have "\<dots> = rem div 3600 * 3600 + rem mod 3600" by (simp only: e1)
  also have "\<dots> = rem" by (rule e2)
  finally have k: "rem div 3600 * 3600 + rem mod 3600 div 60 * 60 + rem mod 60 = rem" .
  have f: "hour a = rem div 3600" "minute a = rem mod 3600 div 60" "second a = rem mod 60"
    unfolding r(3) by simp_all
  have h: "hour a * 3600 + minute a * 60 + second a = rem" unfolding f by (rule k)
  have d: "toordinal a - toordinal t = secs div 86400" unfolding ta days_def by simp
  have "secs div 86400 * 86400 + secs mod 86400 = secs" by simp
  then show ?thesis unfolding d h rem_def secs_def .
qed

lemma add_hours_inj:
  assumes "add_hours t i = Inr a" "add_hours t j = Inr a"
  shows "i = j"
  using add_hours_seconds[OF assms(1)] add_hours_seconds[OF assms(2)] by simp

lemma stamps_distinct:
  assumes "\<forall>i<length ts. add_hours t i = Inr (ts ! i)"
  shows "distinct (map Stamp ts)"
proof -
  have "distinct ts"
    unfolding distinct_conv_nth
  proof (intro allI impI)
    fix i j assume ij: "i < length ts" "j < length ts" "i \<noteq> j"
    show "ts ! i \<noteq> ts ! j"
    proof
      assume e: "ts ! i = ts ! j"
      have "add_hours t i = Inr (ts ! j)" "add_hours t j = Inr (ts ! j)"
        using assms ij e by auto
      then show False using add_hours_inj ij(3) by blast
    qed
  qed
  then show ?thesis by (simp add: distinct_map inj_on_def)
qed

section \<open>The time axis: the claims\<close>

lemma demo_hourly_at: "hourly_at t (demo_loaded t v)"
  by (simp add: hourly_at_def hourly_def lookup_var_def demo_loaded_def scalar_grid_def
      ds_dims_def var_dims_def ds_bool_def data_var_names_def var_names_def)

lemma demo_archive_hourly:
  "\<forall>i<nat 2. \<forall>time g s p.
      hour_urls (libc demo_env) new_years_eve i ''1000mb'' ''TMP'' = Inr (time, g, s)
      \<and> load_dataset demo_env [g, s] = Inr p \<longrightarrow> hourly_at time p"
proof (intro allI impI)
  fix i time g s p
  assume i: "i < nat 2"
    and h: "hour_urls (libc demo_env) new_years_eve i ''1000mb'' ''TMP'' = Inr (time, g, s)
      \<and> load_dataset demo_env [g, s] = Inr p"
  have "i = 0 \<or> i = 1" using i by auto
  then show "hourly_at time p"
  proof
    assume "i = 0"
    then show ?thesis using h
      by (auto simp: demo_urls_0 demo_load_dataset_0 demo_hourly_at)
  next
    assume "i = 1"
    then show ?thesis using h
      by (auto simp: demo_urls_1[simplified] demo_load_dataset_1 demo_hourly_at)
  qed
qed





text \<open>
  C5 (amended).  The time values of a dataset that \<open>load_combined_dataset\<close> returns are
  pairwise distinct: always in the notebook with \<open>open_dataset\<close>, where the function
  writes \<open>start_date + i\<close> hours into the \<open>i\<close>-th dataset, and in the notebook with
  \<open>open_mfdataset\<close> when each hour's dataset has no time dimension of its own, has a data
  variable, and carries its own hour as \<open>time\<close>.  The hours \<open>start_date + i\<close> are distinct
  for distinct \<open>i\<close>; the concatenation stacks what it is given.
\<close>

theorem times_distinct:
  "(load_combined_dataset_not_mf E start_date num_hours level param_short_name = (Inr ds, tr) \<longrightarrow>
      distinct (time_values ds) \<and> length (time_values ds) = nat num_hours)
   \<and> (load_combined_dataset E start_date num_hours level param_short_name = (Inr (Some ds'), tr')
        \<and> (\<forall>i<nat num_hours. \<forall>time g s p.
              hour_urls (libc E) start_date i level param_short_name = Inr (time, g, s)
              \<and> load_dataset E [g, s] = Inr p \<longrightarrow> hourly_at time p)
      \<longrightarrow> distinct (time_values ds') \<and> length (time_values ds') = nat num_hours)"
proof (intro conjI impI)
  assume r: "load_combined_dataset_not_mf E start_date num_hours level param_short_name = (Inr ds, tr)"
  from not_mf_time_axis(1)[OF r] obtain ts where
    ts: "length ts = nat num_hours"
      "\<forall>i<nat num_hours. add_hours start_date i = Inr (ts ! i)" "time_values ds = map Stamp ts"
    by blast
  show "distinct (time_values ds)"
    unfolding ts(3) by (rule stamps_distinct[of ts start_date]) (use ts(1,2) in simp)
  show "length (time_values ds) = nat num_hours" unfolding ts(3) using ts(1) by simp
next
  assume a: "load_combined_dataset E start_date num_hours level param_short_name = (Inr (Some ds'), tr')
        \<and> (\<forall>i<nat num_hours. \<forall>time g s p.
              hour_urls (libc E) start_date i level param_short_name = Inr (time, g, s)
              \<and> load_dataset E [g, s] = Inr p \<longrightarrow> hourly_at time p)"
  from mf_time_axis(1)[OF a[THEN conjunct1] a[THEN conjunct2]] obtain ts where
    ts: "length ts = nat num_hours"
      "\<forall>i<nat num_hours. add_hours start_date i = Inr (ts ! i)" "time_values ds' = map Stamp ts"
    by blast
  show "distinct (time_values ds')"
    unfolding ts(3) by (rule stamps_distinct[of ts start_date]) (use ts(1,2) in simp)
  show "length (time_values ds') = nat num_hours" unfolding ts(3) using ts(1) by simp
qed

theorem times_distinct_witness:
  "load_combined_dataset_not_mf demo_env new_years_eve 2 ''1000mb'' ''TMP''
       = (Inr demo_combined_not_mf,
          [[''s3://hrrrzarr/sfc/20211231/20211231_23z_anl.zarr/1000mb/TMP''],
           [''s3://hrrrzarr/sfc/20211231/20211231_23z_anl.zarr/1000mb/TMP/1000mb''],
           [''s3://hrrrzarr/sfc/20220101/20220101_00z_anl.zarr/1000mb/TMP/1000mb'']])
   \<and> load_combined_dataset demo_env new_years_eve 2 ''1000mb'' ''TMP''
       = (Inr (Some demo_combined),
          [[''s3://hrrrzarr/sfc/20211231/20211231_23z_anl.zarr/1000mb/TMP'',
            ''s3://hrrrzarr/sfc/20211231/20211231_23z_anl.zarr/1000mb/TMP/1000mb''],
           [''s3://hrrrzarr/sfc/20220101/20220101_00z_anl.zarr/1000mb/TMP'',
            ''s3://hrrrzarr/sfc/20220101/20220101_00z_anl.zarr/1000mb/TMP/1000mb'']])
   \<and> hourly_at new_years_eve (demo_loaded new_years_eve 10)
   \<and> hourly_at new_years_day (demo_loaded new_years_day 20)
   \<and> distinct (time_values demo_combined_not_mf) \<and> length (time_values demo_combined_not_mf) = nat 2
   \<and> distinct (time_values demo_combined) \<and> length (time_values demo_combined) = nat 2"
proof -
  note t = times_distinct[of demo_env new_years_eve 2 "''1000mb''" "''TMP''" demo_combined_not_mf _
      demo_combined]
  note a = t[THEN conjunct1, THEN mp, OF demo_run_not_mf]
  note b = t[THEN conjunct2, THEN mp, OF conjI[OF demo_run demo_archive_hourly]]
  show ?thesis
    by (intro conjI; fact demo_run_not_mf demo_run demo_hourly_at
        a[THEN conjunct1] a[THEN conjunct2] b[THEN conjunct1] b[THEN conjunct2])
qed

text \<open>
  The claim as it stands fails for the notebook with \<open>open_mfdataset\<close> on a store that
  gives the same file for both hours: the concatenation stacks the two datasets and the
  time coordinate holds the same value twice.  Nothing in the library call refuses it.
\<close>

theorem times_distinct_counterexample:
  "(\<exists>ds tr. load_combined_dataset demo_env_stale new_years_eve 2 ''1000mb'' ''TMP'' = (Inr (Some ds), tr)
       \<and> time_values ds = [Stamp new_years_eve, Stamp new_years_eve])
   \<and> \<not> distinct [Stamp new_years_eve, Stamp new_years_eve :: nat scalar]"
proof -
  define p where "p = demo_loaded new_years_eve 10"
  have u: "[0..<nat 2] = [0, 1]" by (simp add: upt_rec)
  have l: "libc demo_env_stale = libc demo_env" by (simp add: demo_env_stale_def)
  have ld: "load_dataset demo_env_stale urls = Inr p" for urls
    unfolding load_dataset_def p_def
    by (simp add: demo_env_stale_def demo_hour_def ds_eval demo_loaded_def insert_commute
        demo_transform)
  have ok: "\<forall>d\<in>set [p, p]. concat_ok (hd [p, p]) d"
    by (simp add: p_def concat_ok_def compatible_var_def lookup_var_def var_names_def grids_def
        same_layout_def is_index_def demo_loaded_def)
  define X where "X = \<lparr>variables = map (\<lambda>q. (fst q, concat_var [p, p] (fst q) (snd q))) (variables (hd [p, p])),
                coord_names = coord_names (hd [p, p]),
                attrs = merge_attrs DropConflicts (map attrs [p, p])\<rparr>"
  have c: "xr_concat DropConflicts [p, p] = Inr X"
    unfolding X_def using ok xr_concat_nonempty[of "[p, p]" DropConflicts] by simp
  have h: "hourly_at new_years_eve p" unfolding p_def by (rule demo_hourly_at)
  have la: "list_all2 (\<lambda>d t. lookup_var d ''time'' = Some (Fixed (scalar_grid (Stamp t)))
                          \<and> ''time'' \<notin> ds_dims d) [p, p] [new_years_eve, new_years_eve]"
    using h unfolding hourly_at_def hourly_def by simp
  have tv: "time_values X = [Stamp new_years_eve, Stamp new_years_eve]"
    using concat_time_hourly(2)[OF c la] by simp
  have b: "ds_bool p" unfolding p_def by (rule demo_bool)
  have run: "load_combined_dataset demo_env_stale new_years_eve 2 ''1000mb'' ''TMP''
       = (Inr (Some X),
          [[''s3://hrrrzarr/sfc/20211231/20211231_23z_anl.zarr/1000mb/TMP'',
            ''s3://hrrrzarr/sfc/20211231/20211231_23z_anl.zarr/1000mb/TMP/1000mb''],
           [''s3://hrrrzarr/sfc/20220101/20220101_00z_anl.zarr/1000mb/TMP'',
            ''s3://hrrrzarr/sfc/20220101/20220101_00z_anl.zarr/1000mb/TMP/1000mb'']])"
    unfolding load_combined_dataset_def u
    by (simp add: l demo_urls_0 demo_urls_1[simplified] ld c b)
  have "\<exists>ds tr. load_combined_dataset demo_env_stale new_years_eve 2 ''1000mb'' ''TMP'' = (Inr (Some ds), tr)
       \<and> time_values ds = [Stamp new_years_eve, Stamp new_years_eve]"
    using run tv by blast
  then show ?thesis by simp
qed

section \<open>Merging attributes\<close>

lemma map_of_agree:
  assumes "attrs_agree x a" "p \<in> set x" "fst p \<in> fst ` set a"
  shows "map_of a (fst p) = Some (snd p)"
proof -
  have "map_of a (fst p) \<noteq> None" using assms(3) by (simp add: map_of_eq_None_iff)
  then obtain w where w: "map_of a (fst p) = Some w" by auto
  then have "(fst p, w) \<in> set a" by (rule map_of_SomeD)
  then have "snd p = w" using assms(1,2) unfolding attrs_agree_def by fastforce
  then show ?thesis using w by simp
qed

lemma drop_conflicts_step_agree:
  assumes ra: "attrs_agree r a" and aa: "attrs_agree a a"
  shows "drop_conflicts_step (r, {}) a = (r @ filter (\<lambda>p. fst p \<notin> fst ` set r) a, {})"
proof -
  define r1 where "r1 = r @ filter (\<lambda>p. fst p \<notin> fst ` set r) a"
  have keep: "fst p \<notin> set (map fst a) \<or> map_of a (fst p) = Some (snd p)" if "p \<in> set r1" for p
  proof (cases "fst p \<in> fst ` set a")
    case True
    have "p \<in> set r \<or> p \<in> set a" using that unfolding r1_def by auto
    then have "map_of a (fst p) = Some (snd p)"
      using map_of_agree[OF ra _ True] map_of_agree[OF aa _ True] by blast
    then show ?thesis by simp
  next
    case False
    then show ?thesis by simp
  qed
  have f: "filter (\<lambda>p. fst p \<notin> set (map fst a) \<or> map_of a (fst p) = Some (snd p)) r1 = r1"
    unfolding filter_id_conv using keep by blast
  have k: "k \<in> set (map fst r1)" if "k \<in> set (map fst a)" for k
  proof (cases "k \<in> fst ` set r")
    case True
    then show ?thesis unfolding r1_def by auto
  next
    case False
    from that obtain p where "p \<in> set a" "fst p = k" by auto
    then have "p \<in> set (filter (\<lambda>p. fst p \<notin> fst ` set r) a)" using False by simp
    then show ?thesis unfolding r1_def using \<open>fst p = k\<close> by force
  qed
  have d: "{k \<in> set (map fst a). k \<notin> set (map fst r1)} = {}" using k by blast
  show ?thesis
    unfolding drop_conflicts_step_def Let_def fst_conv snd_conv
    using f d unfolding r1_def by simp
qed




section \<open>The loop and the single concatenation\<close>




section \<open>The two ways of combining: the claim\<close>


text \<open>
  \<open>drop_conflicts\<close> depends on the grouping: a key that two datasets give different
  values is dropped, and comes back when the result is merged with a third.
\<close>

lemma drop_conflicts_first:
  "drop_conflicts_step ([], {}) [(''units'', ''K'')] = ([(''units'', ''K'')], {})"
  using drop_conflicts_step_agree[of "[]" "[(''units'', ''K'')]"] by (simp add: attrs_agree_def)

lemma drop_conflicts_second:
  "drop_conflicts_step ([(''units'', ''K'')], {}) [(''units'', ''C'')] = ([], {''units''})"
  by (auto simp add: drop_conflicts_step_def)

lemma drop_conflicts_third:
  "drop_conflicts_step ([], {''units''}) [(''units'', ''K'')] = ([], {''units''})"
  by (auto simp add: drop_conflicts_step_def)

lemma drop_conflicts_order:
  "merge_attrs DropConflicts
     [merge_attrs DropConflicts [[(''units'', ''K'')], [(''units'', ''C'')]], [(''units'', ''K'')]]
     = [(''units'', ''K'')]"
  "merge_attrs DropConflicts [[(''units'', ''K'')], [(''units'', ''C'')], [(''units'', ''K'')]] = []"
proof -
  have e: "drop_conflicts_step ([], {}) [] = ([], {})" by (simp add: drop_conflicts_step_def)
  have 1: "merge_attrs DropConflicts [[(''units'', ''K'')], [(''units'', ''C'')]] = []"
    unfolding merge_attrs_def by (simp add: drop_conflicts_first drop_conflicts_second)
  show "merge_attrs DropConflicts
     [merge_attrs DropConflicts [[(''units'', ''K'')], [(''units'', ''C'')]], [(''units'', ''K'')]]
     = [(''units'', ''K'')]"
    unfolding 1 unfolding merge_attrs_def by (simp add: e drop_conflicts_first)
  show "merge_attrs DropConflicts [[(''units'', ''K'')], [(''units'', ''C'')], [(''units'', ''K'')]] = []"
    unfolding merge_attrs_def
    by (simp add: drop_conflicts_first drop_conflicts_second drop_conflicts_third)
qed




end
